theory Spec2Isabelle
  imports Main "HOL-Library.AList"
begin

section \<open>Library functions the backup program calls\<close>

text \<open>
  Go strings are byte sequences; they are modelled as \<open>string\<close> (a list of
  \<open>char\<close>, one per byte). The functions of this section belong to Go's standard
  library (\<open>strings\<close>, \<open>path/filepath\<close>, \<open>fmt\<close>, \<open>time\<close>), not to the
  repository; each is written out as far as the program depends on it, except the two
  case mappings, which are parameters.
\<close>

subsection \<open>strings.ToLower and strings.ToUpper\<close>

text \<open>
  Go's case mappings work on the Unicode code points of a string and change letters
  outside ASCII as well. They are parameters of the model: \<open>ToLower\<close> is a field of
  the file system record and \<open>ToUpper\<close> a field of the record of collaborators below,
  and nothing is assumed of either. \<open>ascii_lower\<close> and \<open>ascii_upper\<close> are the two
  mappings on strings of ASCII characters, where they change the letters A to Z and a to
  z and nothing else; the example library, whose strings are ASCII, uses them.
\<close>

definition lower_char :: "char \<Rightarrow> char" where
  "lower_char c =
     (case map_of (zip ''ABCDEFGHIJKLMNOPQRSTUVWXYZ'' ''abcdefghijklmnopqrstuvwxyz'') c of
        Some d \<Rightarrow> d | None \<Rightarrow> c)"

definition upper_char :: "char \<Rightarrow> char" where
  "upper_char c =
     (case map_of (zip ''abcdefghijklmnopqrstuvwxyz'' ''ABCDEFGHIJKLMNOPQRSTUVWXYZ'') c of
        Some d \<Rightarrow> d | None \<Rightarrow> c)"

definition ascii_lower :: "string \<Rightarrow> string" where
  "ascii_lower s = map lower_char s"

definition ascii_upper :: "string \<Rightarrow> string" where
  "ascii_upper s = map upper_char s"

subsection \<open>filepath.Ext and filepath.Base\<close>

text \<open>
  \<open>Ext\<close> walks the path from its end up to the last separator and returns the suffix
  that starts at the first dot it meets, or the empty string. \<open>ExtScan\<close> is that
  loop over the reversed path, \<open>acc\<close> being the bytes already passed.
\<close>

fun ExtScan :: "string \<Rightarrow> string \<Rightarrow> string" where
  "ExtScan [] acc = []"
| "ExtScan (c # cs) acc =
     (if c = CHR ''/'' then []
      else if c = CHR ''.'' then c # acc
      else ExtScan cs (c # acc))"

definition Ext :: "string \<Rightarrow> string" where
  "Ext path = ExtScan (rev path) []"

text \<open>
  \<open>Base\<close> strips trailing separators and returns the last element of the path;
  the empty path gives a dot, a path of separators only gives one separator.
\<close>

definition Base :: "string \<Rightarrow> string" where
  "Base path =
     (if path = [] then ''.''
      else
        let p = rev (dropWhile (\<lambda>c. c = CHR ''/'') (rev path));
            q = rev (takeWhile (\<lambda>c. c \<noteq> CHR ''/'') (rev p))
        in if q = [] then ''/'' else q)"

subsection \<open>Decimal formatting\<close>

definition digit :: "nat \<Rightarrow> char" where
  "digit n = ''0123456789'' ! n"

fun digits :: "nat \<Rightarrow> string" where
  "digits n = (if n < 10 then [digit n] else digits (n div 10) @ [digit (n mod 10)])"

declare digits.simps [simp del]

definition zero_pad :: "nat \<Rightarrow> string \<Rightarrow> string" where
  "zero_pad w s = replicate (w - length s) (CHR ''0'') @ s"

text \<open>
  \<open>Sprintf_0d w n\<close> is \<open>fmt.Sprintf\<close> with the verb \<open>%0wd\<close>: the decimal
  digits, padded with zeros to the width \<open>w\<close>; the sign of a negative number counts
  in the width and stands before the zeros.
\<close>

definition Sprintf_0d :: "nat \<Rightarrow> int \<Rightarrow> string" where
  "Sprintf_0d w n =
     (if n < 0 then ''-'' @ zero_pad (w - 1) (digits (nat (- n)))
      else zero_pad w (digits (nat n)))"

text \<open>
  \<open>appendInt x w\<close> is the helper of Go's \<open>time\<close> package behind the layout
  elements \<open>2006\<close>, \<open>01\<close>, \<open>02\<close>, \<open>15\<close>, \<open>04\<close> and \<open>05\<close>: the width does
  not count the sign.
\<close>

definition appendInt :: "int \<Rightarrow> nat \<Rightarrow> string" where
  "appendInt x w =
     (if x < 0 then ''-'' @ zero_pad w (digits (nat (- x)))
      else zero_pad w (digits (nat x)))"

subsection \<open>time.Time\<close>

text \<open>
  A \<open>time.Time\<close> is an instant: here the number of nanoseconds since Go's zero time
  (January 1 of year 1, 00:00:00 UTC). \<open>After\<close> and \<open>IsZero\<close> compare instants.
  The calendar reading of an instant depends on a location; a location is modelled as
  the function that reads a count of whole seconds as a date and a clock time, and it is
  a parameter of everything below (the process has one location, \<open>time.Local\<close>).
\<close>

type_synonym time = int

definition zero_time :: time where
  "zero_time = 0"

definition one_second :: time where
  "one_second = 1000000000"

definition IsZero :: "time \<Rightarrow> bool" where
  "IsZero t = (t = zero_time)"

definition After :: "time \<Rightarrow> time \<Rightarrow> bool" where
  "After t u = (u < t)"

record civil =
  year :: int
  month :: int
  day :: int
  hour :: int
  minute :: int
  second :: int

type_synonym location = "int \<Rightarrow> civil"

definition whole_seconds :: "time \<Rightarrow> int" where
  "whole_seconds t = t div one_second"

definition Year :: "location \<Rightarrow> time \<Rightarrow> int" where
  "Year loc t = year (loc (whole_seconds t))"

definition Month :: "location \<Rightarrow> time \<Rightarrow> int" where
  "Month loc t = month (loc (whole_seconds t))"

text \<open>\<open>Format_stamp loc t\<close> is \<open>t.Format("20060102T150405")\<close>.\<close>

definition Format_stamp :: "location \<Rightarrow> time \<Rightarrow> string" where
  "Format_stamp loc t =
     (let c = loc (whole_seconds t)
      in appendInt (year c) 4 @ appendInt (month c) 2 @ appendInt (day c) 2 @ ''T'' @
         appendInt (hour c) 2 @ appendInt (minute c) 2 @ appendInt (second c) 2)"

text \<open>
  The proleptic Gregorian calendar in UTC, as a concrete location: the days since the
  zero time are counted from March 1 of year 0 in cycles of 400 years.
\<close>

definition utc :: location where
  "utc s =
     (let z = s div 86400 + 306;
          r = s mod 86400;
          era = z div 146097;
          doe = z mod 146097;
          yoe = (doe - doe div 1460 + doe div 36524 - doe div 146096) div 365;
          doy = doe - (365 * yoe + yoe div 4 - yoe div 100);
          mp = (5 * doy + 2) div 153;
          m = (if mp < 10 then mp + 3 else mp - 9)
      in \<lparr>year = yoe + era * 400 + (if m \<le> 2 then 1 else 0),
          month = m,
          day = doy - (153 * mp + 2) div 5 + 1,
          hour = r div 3600,
          minute = r mod 3600 div 60,
          second = r mod 60\<rparr>)"

section \<open>The file system as the program reads it\<close>

text \<open>
  Go errors are opaque values; the program only tests them against \<open>nil\<close> (and, for
  the ledger, for "file does not exist").
\<close>

datatype error = Err string

text \<open>
  One callback of \<open>filepath.WalkDir\<close>: either \<open>fn(path, d, nil)\<close>, with
  \<open>d.IsDir()\<close> as the flag of \<open>Visit\<close>, or \<open>fn(path, d, err)\<close> with an error,
  which WalkDir reports for the root it cannot stat and for a directory it cannot read.
\<close>

datatype walk_entry = Visit string bool | WalkErr string

text \<open>
  What the scan observes of the file system: the callbacks WalkDir makes for a root, the
  result of \<open>os.Open\<close> (\<open>None\<close> when it succeeds), the capture time and camera
  model the EXIF decoder finds (when decoding and the tag lookup both succeed), the
  modification time \<open>os.Stat\<close> reports (\<open>None\<close> when Stat fails), the local
  time zone, and with them the function \<open>strings.ToLower\<close> the scan applies to the
  extensions.
\<close>

record filesys =
  walk_dir :: "string \<Rightarrow> walk_entry list"
  open_err :: "string \<Rightarrow> error option"
  exif_date :: "string \<Rightarrow> time option"
  exif_model :: "string \<Rightarrow> string option"
  stat_mtime :: "string \<Rightarrow> time option"
  local_zone :: location
  ToLower :: "string \<Rightarrow> string"

section \<open>internal/photosbackup: metadata, scan and grouping\<close>

text \<open>
  \<open>PhotoMeta\<close> without its two floating-point GPS fields, which no function
  modelled here reads.
\<close>

record PhotoMeta =
  Path :: string
  Taken :: time
  Camera :: string

text \<open>
  \<open>getPhotoMeta\<close> returns the pair \<open>(meta, err)\<close> of the source: with an error
  when the file cannot be opened, otherwise the EXIF capture time, or the modification
  time when the capture time is missing or the zero time, or the zero time when Stat
  fails too.
\<close>

definition getPhotoMeta :: "filesys \<Rightarrow> string \<Rightarrow> PhotoMeta \<times> error option" where
  "getPhotoMeta fs path =
     (let meta = \<lparr>Path = path, Taken = zero_time, Camera = ''''\<rparr>
      in case open_err fs path of
           Some e \<Rightarrow> (meta, Some e)
         | None \<Rightarrow>
             let meta1 = (case exif_date fs path of
                            Some dt \<Rightarrow> meta\<lparr>Taken := dt\<rparr> | None \<Rightarrow> meta);
                 meta2 = (case exif_model fs path of
                            Some cam \<Rightarrow> meta1\<lparr>Camera := cam\<rparr> | None \<Rightarrow> meta1);
                 meta3 = (if IsZero (Taken meta2)
                          then (case stat_mtime fs path of
                                  Some mt \<Rightarrow> meta2\<lparr>Taken := mt\<rparr> | None \<Rightarrow> meta2)
                          else meta2)
             in (meta3, None))"

subsection \<open>FindNewPhotos\<close>

text \<open>
  The variables the WalkDir callback of \<open>FindNewPhotos\<close> updates: \<open>files\<close>,
  \<open>seen\<close> (a \<open>map[string]bool\<close> that only ever stores \<open>true\<close>, so a set) and
  \<open>excluded\<close> (a \<open>map[string]int\<close>, kept as an association list with one pair
  per key). Two traces record its effects: \<open>warnings\<close> holds the path of every
  "[WARN] Duplicate photo skipped" log line and \<open>resolved\<close> the argument of every
  call of \<open>getPhotoMeta\<close>, in order.
\<close>

record scan =
  files :: "string list"
  seen :: "string set"
  excluded :: "(string \<times> int) list"
  warnings :: "string list"
  resolved :: "string list"

definition scan0 :: scan where
  "scan0 = \<lparr>files = [], seen = {}, excluded = [], warnings = [], resolved = []\<rparr>"

text \<open>Reading a missing key of a \<open>map[string]int\<close> gives 0; \<open>m[k]++\<close> is \<open>incr\<close>.\<close>

definition count_of :: "(string \<times> int) list \<Rightarrow> string \<Rightarrow> int" where
  "count_of m k = (case map_of m k of Some c \<Rightarrow> c | None \<Rightarrow> 0)"

definition incr :: "string \<Rightarrow> (string \<times> int) list \<Rightarrow> (string \<times> int) list" where
  "incr k m = AList.update k (count_of m k + 1) m"

text \<open>The map \<open>allowed\<close>: the configured extensions, in lower case.\<close>

definition allowed :: "filesys \<Rightarrow> string list \<Rightarrow> string set" where
  "allowed fs allowedExts = set (map (ToLower fs) allowedExts)"

text \<open>The key of the \<open>seen\<close> map: \<open>Sprintf("%s-%s", Taken.Format(...), Base(path))\<close>.\<close>

definition dedup_key :: "location \<Rightarrow> time \<Rightarrow> string \<Rightarrow> string" where
  "dedup_key loc taken path = Format_stamp loc taken @ ''-'' @ Base path"

text \<open>The callback passed to WalkDir, as a step on the scan variables.\<close>

fun visit :: "filesys \<Rightarrow> time \<Rightarrow> string list \<Rightarrow> scan \<Rightarrow> walk_entry \<Rightarrow> scan" where
  "visit fs since allowedExts s (WalkErr path) = s"
| "visit fs since allowedExts s (Visit path isdir) =
     (let ext = ToLower fs (Ext path)
      in if \<not> isdir \<and> ext \<in> allowed fs allowedExts then
           (let (meta, err) = getPhotoMeta fs path;
                s1 = s\<lparr>resolved := resolved s @ [path]\<rparr>
            in if err = None \<and> After (Taken meta) since then
                 (let key = dedup_key (local_zone fs) (Taken meta) path
                  in if key \<notin> seen s1
                     then s1\<lparr>files := files s1 @ [path], seen := insert key (seen s1)\<rparr>
                     else s1\<lparr>warnings := warnings s1 @ [path]\<rparr>)
               else s1)
         else if \<not> isdir then s\<lparr>excluded := incr ext (excluded s)\<rparr>
         else s)"

text \<open>
  WalkDir calls the callback once per entry, in its walking order: \<open>scan_walk\<close> is
  the state after a given sequence of callbacks, \<open>scan_tree\<close> the state after the walk
  of a root.
\<close>

definition scan_walk :: "filesys \<Rightarrow> time \<Rightarrow> string list \<Rightarrow> walk_entry list \<Rightarrow> scan" where
  "scan_walk fs since allowedExts w = foldl (visit fs since allowedExts) scan0 w"

definition scan_tree :: "filesys \<Rightarrow> string \<Rightarrow> time \<Rightarrow> string list \<Rightarrow> scan" where
  "scan_tree fs root since allowedExts = scan_walk fs since allowedExts (walk_dir fs root)"

definition FindNewPhotos ::
  "filesys \<Rightarrow> string \<Rightarrow> time \<Rightarrow> string list \<Rightarrow> string list \<times> (string \<times> int) list" where
  "FindNewPhotos fs root since allowedExts =
     (let s = scan_tree fs root since allowedExts in (files s, excluded s))"

subsection \<open>GroupPhotosByYearMonth\<close>

text \<open>
  The result map \<open>map[string][]string\<close> is an association list with one pair per
  key, in the order the keys first appear; \<open>members m k\<close> is \<open>m[k]\<close>, the nil slice
  for a missing key.
\<close>

definition group_key :: "location \<Rightarrow> time \<Rightarrow> string" where
  "group_key loc t = Sprintf_0d 4 (Year loc t) @ ''-'' @ Sprintf_0d 2 (Month loc t)"

definition members :: "(string \<times> string list) list \<Rightarrow> string \<Rightarrow> string list" where
  "members m k = (case map_of m k of Some v \<Rightarrow> v | None \<Rightarrow> [])"

definition group_step ::
  "filesys \<Rightarrow> (string \<times> string list) list \<Rightarrow> string \<Rightarrow> (string \<times> string list) list" where
  "group_step fs result file =
     (let (meta, err) = getPhotoMeta fs file
      in if err \<noteq> None then result
         else let key = group_key (local_zone fs) (Taken meta)
              in AList.update key (members result key @ [file]) result)"

definition GroupPhotosByYearMonth ::
  "filesys \<Rightarrow> string list \<Rightarrow> (string \<times> string list) list" where
  "GroupPhotosByYearMonth fs paths = foldl (group_step fs) [] paths"

subsection \<open>The remote key and the last-upload file\<close>

text \<open>
  \<open>strings.ReplaceAll\<close> for a non-empty pattern, which is how \<open>S3Key\<close> calls it
  (for the empty pattern Go inserts the replacement between the characters; the model
  returns the string as it is).
\<close>

function ReplaceAll :: "string \<Rightarrow> string \<Rightarrow> string \<Rightarrow> string" where
  "ReplaceAll s old new =
     (if s = [] \<or> old = [] then s
      else if take (length old) s = old
           then new @ ReplaceAll (drop (length old) s) old new
           else hd s # ReplaceAll (tl s) old new)"
  by pat_completeness auto
termination
  by (relation "measure (\<lambda>(s, old, new). length s)") auto

declare ReplaceAll.simps [simp del]

record Config =
  S3Bucket :: string
  PhotosLibrary :: string
  ZipFileName :: string
  LastUploadFile :: string
  S3KeyFormat :: string
  LogLevel :: string
  Region :: string
  TestModeLimit :: int
  StorageClass :: string
  AllowedExtensions :: "string list"
  MaxConcurrentUploads :: int

definition S3Key :: "Config \<Rightarrow> string \<Rightarrow> string \<Rightarrow> string" where
  "S3Key cfg yr zipName =
     (let format = (if S3KeyFormat cfg = '''' then ''{year}/{zip}'' else S3KeyFormat cfg)
      in ReplaceAll (ReplaceAll format ''{year}'' yr) ''{zip}'' zipName)"

text \<open>
  The last-upload file holds one RFC 3339 timestamp. Its content is modelled by what
  \<open>GetLastUploadTime\<close> makes of it: the file cannot be read, its text does not parse,
  or it parses to an instant. \<open>UpdateLastUploadTime\<close> writes the current time in
  RFC 3339, which keeps the whole seconds; the error of \<open>os.WriteFile\<close> is dropped,
  so a failed write leaves the file as it was.
\<close>

datatype stamp_file = Unreadable | Unparsable | Stamp time

definition GetLastUploadTime :: "stamp_file \<Rightarrow> time" where
  "GetLastUploadTime f =
     (case f of Unreadable \<Rightarrow> zero_time | Unparsable \<Rightarrow> zero_time | Stamp t \<Rightarrow> t)"

definition UpdateLastUploadTime :: "error option \<Rightarrow> time \<Rightarrow> stamp_file \<Rightarrow> stamp_file" where
  "UpdateLastUploadTime write_err now f =
     (case write_err of
        None \<Rightarrow> Stamp (whole_seconds now * one_second)
      | Some e \<Rightarrow> f)"

section \<open>internal/photosbackup: the upload state (progress ledger)\<close>

text \<open>
  The field \<open>CompletedMonths\<close> is a Go map, which may be nil: \<open>None\<close> is the nil
  map, \<open>Some m\<close> a map with the entries \<open>m\<close>. Reading a key of a nil map gives
  "absent", like reading a missing key; \<open>month_entry\<close> is the read
  \<open>CompletedMonths[ym]\<close>. Writing to a nil map panics (see the worker below).
\<close>

record UploadState =
  CompletedMonths :: "(string \<rightharpoonup> string) option"

definition month_entry :: "UploadState \<Rightarrow> string \<Rightarrow> string option" where
  "month_entry state ym = (case CompletedMonths state of None \<Rightarrow> None | Some m \<Rightarrow> m ym)"

text \<open>
  \<open>os.Open\<close> on the state file: it does not exist, it fails for another reason, or
  it gives the file's bytes. \<open>json.Decoder.Decode\<close> is a parameter: from the bytes and
  the state it is handed, it gives the state it leaves behind and its error. The state
  it is handed holds an empty map; the state it leaves behind may hold the nil map (Go's
  decoder sets a map to nil when the JSON value of its field is \<open>null\<close>).
\<close>

datatype open_result = NotExist | OpenError error | Opened string

type_synonym decoder = "string \<Rightarrow> UploadState \<Rightarrow> UploadState \<times> error option"

definition LoadUploadState ::
  "decoder \<Rightarrow> (string \<Rightarrow> open_result) \<Rightarrow> string \<Rightarrow> UploadState option \<times> error option" where
  "LoadUploadState decode os_open path =
     (let state = \<lparr>CompletedMonths = Some Map.empty\<rparr>
      in case os_open path of
           NotExist \<Rightarrow> (Some state, None)
         | OpenError e \<Rightarrow> (None, Some e)
         | Opened content \<Rightarrow>
             (let (state', decode_err) = decode content state in (Some state', None)))"

text \<open>
  \<open>SaveUploadState\<close>: \<open>os.Create\<close> fails and nothing is written, or the state is
  encoded into the file. The first component is the state the file holds afterwards
  (\<open>None\<close> while this process has not written it).
\<close>

definition SaveUploadState ::
  "error option \<Rightarrow> UploadState \<Rightarrow> UploadState option \<Rightarrow> UploadState option \<times> error option" where
  "SaveUploadState create_error state on_disk =
     (case create_error of
        Some e \<Rightarrow> (on_disk, Some e)
      | None \<Rightarrow> (Some state, None))"

section \<open>cmd/photos_backup.go: the run\<close>

text \<open>
  The collaborators of a run beside the scanned file system: \<open>os.Create\<close>,
  \<open>addFileToZip\<close> for one member file, \<open>UploadToS3\<close> (its result may change from
  one call to the next: the second argument counts the calls for a key, from 1), the
  two checksum functions, the JSON decoder, the state file as \<open>os.Open\<close> finds it,
  the last-upload file, the result of writing it, the clock (the time a group's
  worker reads for the name of its archive and the time \<open>UpdateLastUploadTime\<close>
  reads) and the function \<open>strings.ToUpper\<close>.
\<close>

record world =
  fsys :: filesys
  create_err :: "string \<Rightarrow> error option"
  add_err :: "string \<Rightarrow> error option"
  upload_err :: "string \<Rightarrow> nat \<Rightarrow> error option"
  local_sha :: "string \<Rightarrow> error + string"
  remote_sha :: "string \<Rightarrow> error + string"
  json_decode :: decoder
  state_file :: "string \<Rightarrow> open_result"
  last_upload_file :: stamp_file
  stamp_write_err :: "error option"
  worker_clock :: "string \<Rightarrow> time"
  finish_clock :: time
  ToUpper :: "string \<Rightarrow> string"

text \<open>\<open>ZipFiles\<close>: create the archive, then add the files until one fails.\<close>

fun add_all :: "world \<Rightarrow> string list \<Rightarrow> error option" where
  "add_all w [] = None"
| "add_all w (f # fs) = (case add_err w f of Some e \<Rightarrow> Some e | None \<Rightarrow> add_all w fs)"

definition ZipFiles :: "world \<Rightarrow> string \<Rightarrow> string list \<Rightarrow> error option" where
  "ZipFiles w zipName paths =
     (case create_err w zipName of Some e \<Rightarrow> Some e | None \<Rightarrow> add_all w paths)"

text \<open>
  The effects of a run are recorded as a trace of events, in program order: the calls
  of the collaborators, the sleeps (in seconds), the writes of the shared variables, the
  lock and unlock operations on the two mutexes, the semaphore operations and the lines
  written with \<open>log.Printf\<close>. Console output of \<open>fmt.Printf\<close> and the drawing of the
  progress bar are left out. \<open>SetCompleted ym zipName\<close> is the execution of the
  statement \<open>uploadState.CompletedMonths[ym] = zipName\<close>, whether it stores the entry
  or panics.
\<close>

datatype mutex = Mu | ProgressMu

datatype level = INFO | WARN | ERROR

datatype logline =
    ZipFailed string
  | UploadAttemptFailed nat string
  | UploadFailed string
  | SkippingVerification string
  | ChecksumComputeFailed string
  | ChecksumFetchFailed string
  | ChecksumMismatch string
  | MetadataCreateFailed
  | MetadataUploadFailed

fun level_of :: "logline \<Rightarrow> level" where
  "level_of (ZipFailed z) = ERROR"
| "level_of (UploadAttemptFailed n z) = WARN"
| "level_of (UploadFailed z) = ERROR"
| "level_of (SkippingVerification z) = INFO"
| "level_of (ChecksumComputeFailed z) = ERROR"
| "level_of (ChecksumFetchFailed z) = ERROR"
| "level_of (ChecksumMismatch z) = ERROR"
| "level_of MetadataCreateFailed = ERROR"
| "level_of MetadataUploadFailed = ERROR"

datatype event =
    Acquire
  | Release
  | Lock mutex
  | Unlock mutex
  | CallZipFiles string "string list"
  | CallUploadToS3 string string
  | Sleep nat
  | CallFileSHA256 string
  | CallS3SHA256 string
  | SetCompleted string string
  | CallSaveUploadState string
  | Remove string
  | IncFailedZips
  | IncFailedUploads
  | IncFileProgress
  | Log logline

text \<open>
  The variables the goroutines share, the local archives on disk, the state file as this
  process last wrote it, and the trace.
\<close>

record run =
  uploadState :: UploadState
  failedZips :: int
  failedUploads :: int
  fileProgress :: int
  archives :: "string set"
  saved :: "UploadState option"
  trace :: "event list"

definition emit :: "event list \<Rightarrow> run \<Rightarrow> run" where
  "emit evs st = st\<lparr>trace := trace st @ evs\<rparr>"

definition statePath :: string where
  "statePath = ''upload_state.json''"

definition zip_name :: "world \<Rightarrow> string \<Rightarrow> string" where
  "zip_name w ym =
     ym @ ''_'' @ Format_stamp (local_zone (fsys w)) (worker_clock w ym) @ ''.zip''"

text \<open>
  The retry loop \<open>for attempt := 1; attempt <= 3; attempt++\<close>, with the variable
  \<open>uploadErr\<close>: the events of the remaining iterations and the final \<open>uploadErr\<close>.
\<close>

function upload_loop ::
  "world \<Rightarrow> string \<Rightarrow> string \<Rightarrow> nat \<Rightarrow> error option \<Rightarrow> event list \<times> error option" where
  "upload_loop w s3Key zipName attempt uploadErr =
     (if attempt \<le> 3 then
        (case upload_err w s3Key attempt of
           None \<Rightarrow> ([CallUploadToS3 s3Key zipName], None)
         | Some e \<Rightarrow>
             (let (evs, r) = upload_loop w s3Key zipName (attempt + 1) (Some e)
              in ([CallUploadToS3 s3Key zipName, Log (UploadAttemptFailed attempt zipName),
                   Sleep attempt] @ evs, r)))
      else ([], uploadErr))"
  by pat_completeness auto
termination
  by (relation "measure (\<lambda>(w, s3Key, zipName, attempt, uploadErr). 4 - attempt)") auto

declare upload_loop.simps [simp del]

text \<open>The checksum verification after a successful upload; it changes no variable.\<close>

definition verify :: "Config \<Rightarrow> world \<Rightarrow> string \<Rightarrow> string \<Rightarrow> event list" where
  "verify cfg w zipName s3Key =
     (let storageClass = ToUpper w (StorageClass cfg)
      in if storageClass = ''GLACIER'' \<or> storageClass = ''DEEP_ARCHIVE''
         then [Log (SkippingVerification zipName)]
         else
           (case local_sha w zipName of
              Inl e \<Rightarrow> [CallFileSHA256 zipName, Log (ChecksumComputeFailed zipName)]
            | Inr localSum \<Rightarrow>
                (case remote_sha w s3Key of
                   Inl e \<Rightarrow>
                     [CallFileSHA256 zipName, CallS3SHA256 s3Key,
                      Log (ChecksumFetchFailed zipName)]
                 | Inr remoteSum \<Rightarrow>
                     if localSum \<noteq> remoteSum
                     then [CallFileSHA256 zipName, CallS3SHA256 s3Key,
                           Log (ChecksumMismatch zipName)]
                     else [CallFileSHA256 zipName, CallS3SHA256 s3Key])))"

text \<open>
  The loop over the files of a group that advances the progress bar: each iteration
  locks \<open>progressMu\<close>, adds one to \<open>fileProgress\<close> and unlocks.
\<close>

definition progress_events :: "string list \<Rightarrow> event list" where
  "progress_events paths =
     concat (map (\<lambda>f. [Lock ProgressMu, IncFileProgress, Unlock ProgressMu]) paths)"

text \<open>
  A goroutine returns, or it panics; both leave a state of the variables. The only
  statement of the goroutine that can panic is the write to the map of the upload state,
  which panics when the map is nil. A panic in a goroutine ends the whole process once
  the deferred calls of the goroutine have run.
\<close>

datatype step = Returned run | Panicked run

fun state_of :: "step \<Rightarrow> run" where
  "state_of (Returned st) = st"
| "state_of (Panicked st) = st"

text \<open>
  The body of the goroutine started for one group, run from its first statement to its
  return or to its panic (the deferred release of the semaphore slot comes last in both
  cases). The model runs the goroutines one after the other, in the order the loop starts
  them.
\<close>

definition worker :: "Config \<Rightarrow> world \<Rightarrow> string \<Rightarrow> string list \<Rightarrow> run \<Rightarrow> step" where
  "worker cfg w ym paths st =
     (let zipName = zip_name w ym;
          st1 = emit [Acquire, CallZipFiles zipName paths] st;
          st2 = st1\<lparr>archives :=
                  (if create_err w zipName = None then insert zipName (archives st1)
                   else archives st1)\<rparr>
      in case ZipFiles w zipName paths of
           Some e \<Rightarrow>
             Returned (emit [Release]
               ((emit [Log (ZipFailed zipName), Lock Mu, IncFailedZips, Unlock Mu] st2)
                  \<lparr>failedZips := failedZips st2 + 1\<rparr>))
         | None \<Rightarrow>
             (let yr = takeWhile (\<lambda>c. c \<noteq> CHR ''-'') ym;
                  s3Key = S3Key cfg yr zipName;
                  st3 = (emit (progress_events paths) st2)
                          \<lparr>fileProgress := fileProgress st2 + int (length paths)\<rparr>;
                  (up_events, uploadErr) = upload_loop w s3Key zipName 1 None;
                  st4 = emit up_events st3
              in if uploadErr \<noteq> None then
                   Returned (emit [Release]
                     ((emit [Log (UploadFailed zipName), Lock Mu, IncFailedUploads,
                             Unlock Mu] st4)
                        \<lparr>failedUploads := failedUploads st4 + 1\<rparr>))
                 else
                   (let st5 = emit (verify cfg w zipName s3Key) st4
                    in case CompletedMonths (uploadState st5) of
                         None \<Rightarrow> Panicked (emit [SetCompleted ym zipName, Release] st5)
                       | Some m \<Rightarrow>
                           (let st6 = (emit [SetCompleted ym zipName] st5)
                                        \<lparr>uploadState := (uploadState st5)
                                           \<lparr>CompletedMonths := Some (m(ym \<mapsto> zipName))\<rparr>\<rparr>;
                                st7 = (emit [CallSaveUploadState statePath] st6)
                                        \<lparr>saved := fst (SaveUploadState (create_err w statePath)
                                                         (uploadState st6) (saved st6))\<rparr>;
                                st8 = emit [Lock ProgressMu, Unlock ProgressMu] st7;
                                st9 = (emit [Remove zipName] st8)
                                        \<lparr>archives := archives st8 - {zipName}\<rparr>
                            in Returned (emit [Release] st9)))))"

text \<open>
  The loop over the groups, up to the return of \<open>wg.Wait()\<close>: a group whose key the
  upload state holds is passed over (\<open>continue\<close>), any other group gets a goroutine.
  When a goroutine panics the process ends there: no later goroutine runs and the loop
  does not return. Go ranges over a map in no fixed order; the loop is defined for any
  order of the groups, and \<open>main\<close> below hands it the order in which the keys first
  appear.
\<close>

fun main_loop :: "Config \<Rightarrow> world \<Rightarrow> (string \<times> string list) list \<Rightarrow> run \<Rightarrow> step" where
  "main_loop cfg w [] st = Returned st"
| "main_loop cfg w ((ym, paths) # groups) st =
     (if month_entry (uploadState st) ym \<noteq> None then main_loop cfg w groups st
      else case worker cfg w ym paths st of
             Returned st' \<Rightarrow> main_loop cfg w groups st'
           | Panicked st' \<Rightarrow> Panicked st')"

text \<open>
  The metadata file: created, written and uploaded under the key
  \<open>photo_metadata.json\<close> before the groups are formed. The loop that collects and
  logs the metadata of each new photo and the encoding into the file add nothing to the
  trace (the encoding is taken to succeed).
\<close>

definition metaKey :: string where
  "metaKey = ''photo_metadata.json''"

definition upload_metadata :: "world \<Rightarrow> event list" where
  "upload_metadata w =
     (case create_err w metaKey of
        Some e \<Rightarrow> [Log MetadataCreateFailed]
      | None \<Rightarrow>
          (case upload_err w metaKey 1 of
             Some e \<Rightarrow> [CallUploadToS3 metaKey metaKey, Log MetadataUploadFailed]
           | None \<Rightarrow> [CallUploadToS3 metaKey metaKey]))"

text \<open>The upload state the run starts from (lines 105 to 110 of the program).\<close>

definition loaded_state :: "world \<Rightarrow> UploadState" where
  "loaded_state w =
     (case fst (LoadUploadState (json_decode w) (state_file w) statePath) of
        Some st \<Rightarrow> st
      | None \<Rightarrow> \<lparr>CompletedMonths = Some Map.empty\<rparr>)"

text \<open>
  How a run ends: \<open>main\<close> returns, with the final variables and the last-upload file
  as the run leaves it, or the process dies before that, with the variables as they were.
  The process dies in \<open>make(chan struct{}, cfg.MaxConcurrentUploads)\<close> when the
  capacity is negative (a panic), and it dies of a deadlock when the capacity is 0 and
  a goroutine is started: every goroutine then blocks on its send to the semaphore and
  \<open>wg.Wait()\<close> never returns. With a capacity of 1 or more every goroutine gets its
  slot in turn, and the process dies when one of them panics.
\<close>

datatype outcome = Finished run stamp_file | Died run

text \<open>\<open>main\<close> after the configuration is loaded.\<close>

definition main :: "Config \<Rightarrow> world \<Rightarrow> outcome" where
  "main cfg w =
     (let lastUpload = GetLastUploadTime (last_upload_file w);
          (newPhotos, excl) =
             FindNewPhotos (fsys w) (PhotosLibrary cfg) lastUpload (AllowedExtensions cfg);
          st0 = \<lparr>uploadState = \<lparr>CompletedMonths = Some Map.empty\<rparr>, failedZips = 0,
                 failedUploads = 0, fileProgress = 0, archives = {}, saved = None,
                 trace = []\<rparr>
      in if length newPhotos = 0 then Finished st0 (last_upload_file w)
         else
           (let st1 = emit (upload_metadata w) st0;
                photosByYearMonth = GroupPhotosByYearMonth (fsys w) newPhotos
            in if MaxConcurrentUploads cfg < 0 then Died st1
               else
                 (let st2 = st1\<lparr>uploadState := loaded_state w\<rparr>
                  in if MaxConcurrentUploads cfg = 0 \<and>
                        list_ex (\<lambda>g. month_entry (uploadState st2) (fst g) = None)
                          photosByYearMonth
                     then Died st2
                     else
                       (case main_loop cfg w photosByYearMonth st2 of
                          Panicked st3 \<Rightarrow> Died st3
                        | Returned st3 \<Rightarrow>
                            Finished st3
                              (UpdateLastUploadTime (stamp_write_err w) (finish_clock w)
                                 (last_upload_file w))))))"

section \<open>Vocabulary of the properties\<close>

text \<open>
  The path a callback is made for; an allowed entry (not a directory, extension in the
  allow-set after lower-casing) and a disallowed one. A callback with an error is
  neither: the scan returns from it before it looks at the entry.
\<close>

definition entry_path :: "walk_entry \<Rightarrow> string" where
  "entry_path e = (case e of Visit p d \<Rightarrow> p | WalkErr p \<Rightarrow> p)"

definition allowed_entry :: "filesys \<Rightarrow> string list \<Rightarrow> walk_entry \<Rightarrow> bool" where
  "allowed_entry fs exts e =
     (case e of
        Visit p d \<Rightarrow> \<not> d \<and> ToLower fs (Ext p) \<in> allowed fs exts
      | WalkErr p \<Rightarrow> False)"

definition disallowed_entry :: "filesys \<Rightarrow> string list \<Rightarrow> walk_entry \<Rightarrow> bool" where
  "disallowed_entry fs exts e =
     (case e of
        Visit p d \<Rightarrow> \<not> d \<and> ToLower fs (Ext p) \<notin> allowed fs exts
      | WalkErr p \<Rightarrow> False)"

text \<open>
  The resolved timestamp of a path: the time \<open>getPhotoMeta\<close> reports when it returns
  no error.
\<close>

definition resolved_time :: "filesys \<Rightarrow> string \<Rightarrow> time option" where
  "resolved_time fs p =
     (case getPhotoMeta fs p of (meta, None) \<Rightarrow> Some (Taken meta) | (meta, Some e) \<Rightarrow> None)"

definition resolves :: "filesys \<Rightarrow> string \<Rightarrow> bool" where
  "resolves fs p = (snd (getPhotoMeta fs p) = None)"

text \<open>An allowed entry whose resolved timestamp is after the watermark.\<close>

definition newer :: "filesys \<Rightarrow> time \<Rightarrow> string list \<Rightarrow> walk_entry \<Rightarrow> bool" where
  "newer fs since exts e =
     (allowed_entry fs exts e \<and>
      (case resolved_time fs (entry_path e) of Some t \<Rightarrow> After t since | None \<Rightarrow> False))"

text \<open>The identity key and the group key the program computes for a path.\<close>

definition path_key :: "filesys \<Rightarrow> string \<Rightarrow> string" where
  "path_key fs p = dedup_key (local_zone fs) (Taken (fst (getPhotoMeta fs p))) p"

definition entry_key :: "filesys \<Rightarrow> walk_entry \<Rightarrow> string" where
  "entry_key fs e = path_key fs (entry_path e)"

definition file_key :: "filesys \<Rightarrow> string \<Rightarrow> string" where
  "file_key fs p = group_key (local_zone fs) (Taken (fst (getPhotoMeta fs p)))"

text \<open>
  A path has passed the watermark filter of a scan when the callback reached the
  duplicate check for it: the path was appended to \<open>files\<close> or logged as a duplicate.
\<close>

definition passed_filter :: "scan \<Rightarrow> string \<Rightarrow> bool" where
  "passed_filter s p = (p \<in> set (files s) \<or> p \<in> set (warnings s))"

text \<open>
  The number \<open>n\<close> written with exactly \<open>w\<close> decimal digits (the lowest \<open>w\<close>
  digits of \<open>n\<close>, with leading zeros).
\<close>

fun fixed_digits :: "nat \<Rightarrow> nat \<Rightarrow> string" where
  "fixed_digits 0 n = []"
| "fixed_digits (Suc w) n = fixed_digits w (n div 10) @ [digit (n mod 10)]"

text \<open>A calendar reading without a negative field.\<close>

definition plain :: "civil \<Rightarrow> bool" where
  "plain c =
     (0 \<le> year c \<and> 0 \<le> month c \<and> 0 \<le> day c \<and> 0 \<le> hour c \<and> 0 \<le> minute c \<and>
      0 \<le> second c)"

text \<open>
  The events of one kind in a trace: the archive builds, the uploads and the lengths of
  the sleeps.
\<close>

fun is_build :: "event \<Rightarrow> bool" where
  "is_build (CallZipFiles z ps) = True"
| "is_build e = False"

fun is_upload :: "event \<Rightarrow> bool" where
  "is_upload (CallUploadToS3 k z) = True"
| "is_upload e = False"

fun sleeps :: "event list \<Rightarrow> nat list" where
  "sleeps [] = []"
| "sleeps (Sleep n # es) = n # sleeps es"
| "sleeps (e # es) = sleeps es"

text \<open>The archive name, the remote key and the outcome of the retry loop for a group.\<close>

definition s3_key_of :: "Config \<Rightarrow> world \<Rightarrow> string \<Rightarrow> string" where
  "s3_key_of cfg w ym = S3Key cfg (takeWhile (\<lambda>c. c \<noteq> CHR ''-'') ym) (zip_name w ym)"

definition upload_result :: "Config \<Rightarrow> world \<Rightarrow> string \<Rightarrow> event list \<times> error option" where
  "upload_result cfg w ym = upload_loop w (s3_key_of cfg w ym) (zip_name w ym) 1 None"

text \<open>The events a worker adds to the trace.\<close>

definition worker_events :: "Config \<Rightarrow> world \<Rightarrow> string \<Rightarrow> string list \<Rightarrow> run \<Rightarrow> event list" where
  "worker_events cfg w ym paths st =
     drop (length (trace st)) (trace (state_of (worker cfg w ym paths st)))"

text \<open>The storage classes for which the verification is skipped.\<close>

definition cold :: "world \<Rightarrow> Config \<Rightarrow> bool" where
  "cold w cfg =
     (ToUpper w (StorageClass cfg) = ''GLACIER'' \<or>
      ToUpper w (StorageClass cfg) = ''DEEP_ARCHIVE'')"

text \<open>
  \<open>locks_at h es\<close> pairs every event of \<open>es\<close> with the mutexes its goroutine holds
  when the event happens, \<open>h\<close> being those held at the start.
\<close>

fun locks_at :: "mutex list \<Rightarrow> event list \<Rightarrow> (event \<times> mutex list) list" where
  "locks_at h [] = []"
| "locks_at h (Lock m # es) = (Lock m, h) # locks_at (m # h) es"
| "locks_at h (Unlock m # es) = (Unlock m, h) # locks_at (removeAll m h) es"
| "locks_at h (e # es) = (e, h) # locks_at h es"

text \<open>
  The state of a run before the first group, the empty upload state, and the upload state
  whose map is nil.
\<close>

definition no_months :: UploadState where
  "no_months = \<lparr>CompletedMonths = Some Map.empty\<rparr>"

definition nil_months :: UploadState where
  "nil_months = \<lparr>CompletedMonths = None\<rparr>"

definition run0 :: run where
  "run0 = \<lparr>uploadState = no_months, failedZips = 0, failedUploads = 0, fileProgress = 0,
            archives = {}, saved = None, trace = []\<rparr>"

text \<open>
  The lock and unlock operations, and the events the retry loop can add: upload calls,
  log lines and sleeps.
\<close>

fun lock_op :: "event \<Rightarrow> bool" where
  "lock_op (Lock m) = True"
| "lock_op (Unlock m) = True"
| "lock_op e = False"

fun retry_event :: "event \<Rightarrow> bool" where
  "retry_event (CallUploadToS3 k z) = True"
| "retry_event (Log l) = True"
| "retry_event (Sleep n) = True"
| "retry_event e = False"

text \<open>
  The variables at the end of a run, and the last-upload file it leaves (untouched when
  the process dies). \<open>panicked\<close> tells the two ends of a goroutine, or of the loop,
  apart.
\<close>

fun panicked :: "step \<Rightarrow> bool" where
  "panicked (Panicked st) = True"
| "panicked (Returned st) = False"

fun final :: "outcome \<Rightarrow> run" where
  "final (Finished r s) = r"
| "final (Died r) = r"

fun stamp_left :: "world \<Rightarrow> outcome \<Rightarrow> stamp_file" where
  "stamp_left w (Finished r s) = s"
| "stamp_left w (Died r) = last_upload_file w"

fun died :: "outcome \<Rightarrow> bool" where
  "died (Died r) = True"
| "died (Finished r s) = False"

text \<open>The new photos a run finds.\<close>

definition new_photos :: "Config \<Rightarrow> world \<Rightarrow> string list" where
  "new_photos cfg w =
     fst (FindNewPhotos (fsys w) (PhotosLibrary cfg) (GetLastUploadTime (last_upload_file w))
            (AllowedExtensions cfg))"

text \<open>
  The invariant of the scan behind the absence of repeated paths: the kept paths are
  distinct and each has its key in \<open>seen\<close>.
\<close>

definition keyed :: "filesys \<Rightarrow> scan \<Rightarrow> bool" where
  "keyed fs s = (distinct (files s) \<and> path_key fs ` set (files s) \<subseteq> seen s)"

section \<open>An example library\<close>

text \<open>
  A small tree under \<open>/p\<close>: two photos of March 2024 (one with an EXIF date, one
  dated by its modification time), a copy of the first photo in another directory
  (same second, same base name), a video and a photo of April 2024, three files that
  are not media, a photo that cannot be opened, a directory that cannot be read and a
  photo with neither an EXIF date nor a modification time.
\<close>

definition demo_walk :: "walk_entry list" where
  "demo_walk =
     [Visit ''/p'' True, Visit ''/p/a'' True, Visit ''/p/a/1.JPG'' False,
      Visit ''/p/a/2.jpg'' False, Visit ''/p/a/n.txt'' False, Visit ''/p/a/r.TXT'' False,
      Visit ''/p/b'' True, Visit ''/p/b/1.JPG'' False, Visit ''/p/b/3.mov'' False,
      Visit ''/p/b/4.jpg'' False, Visit ''/p/b/Makefile'' False, Visit ''/p/c.jpg'' False,
      Visit ''/p/d'' True, WalkErr ''/p/d'', Visit ''/p/e.jpg'' False]"

definition demo_fs :: filesys where
  "demo_fs =
     \<lparr>walk_dir = (\<lambda>root. if root = ''/p'' then demo_walk else [WalkErr root]),
      open_err = (\<lambda>p. if p = ''/p/c.jpg'' then Some (Err ''permission denied'') else None),
      exif_date = map_of [(''/p/a/1.JPG'', 63846093600000000000),
                          (''/p/b/1.JPG'', 63846093600000000007)],
      exif_model = map_of [(''/p/a/1.JPG'', ''X100'')],
      stat_mtime = map_of [(''/p/a/1.JPG'', 63850000000000000000),
                           (''/p/a/2.jpg'', 63846520200000000005),
                           (''/p/b/1.JPG'', 63850000000000000000),
                           (''/p/b/3.mov'', 63847656000000000000),
                           (''/p/b/4.jpg'', 63847872000000000000)],
      local_zone = utc, ToLower = ascii_lower\<rparr>"

definition demo_exts :: "string list" where
  "demo_exts = [''.jpg'', ''.MOV'']"

text \<open>
  A configuration and collaborators for the example library: every collaborator
  succeeds, there is no state file and no last-upload file, the workers read the clock
  at 2024-05-01 00:00:00 and the run ends a minute later. The decoder reads one text as
  a ledger of both months, another as the JSON object whose \<open>completed_months\<close> is
  \<open>null\<close> (which it decodes without an error, leaving the nil map), and fails on any
  other.
\<close>

definition demo_cfg :: Config where
  "demo_cfg =
     \<lparr>S3Bucket = ''bucket'', PhotosLibrary = ''/p'', ZipFileName = ''photos_backup.zip'',
      LastUploadFile = ''last_upload.txt'', S3KeyFormat = '''', LogLevel = ''info'',
      Region = ''us-east-1'', TestModeLimit = 10, StorageClass = ''STANDARD'',
      AllowedExtensions = demo_exts, MaxConcurrentUploads = 2\<rparr>"

definition demo_decode :: decoder where
  "demo_decode content st =
     (if content = ''both months''
      then (\<lparr>CompletedMonths = Some [''2024-03'' \<mapsto> ''2024-03_20240420T000000.zip'',
                                      ''2024-04'' \<mapsto> ''2024-04_20240420T000000.zip'']\<rparr>,
            None)
      else if content = ''null months'' then (\<lparr>CompletedMonths = None\<rparr>, None)
      else (st, Some (Err ''invalid character'')))"

definition demo_world :: world where
  "demo_world =
     \<lparr>fsys = demo_fs, create_err = (\<lambda>n. None), add_err = (\<lambda>f. None),
      upload_err = (\<lambda>k n. None), local_sha = (\<lambda>z. Inr ''ab12''),
      remote_sha = (\<lambda>k. Inr ''ab12''), json_decode = demo_decode,
      state_file = (\<lambda>p. NotExist), last_upload_file = Unreadable, stamp_write_err = None,
      worker_clock = (\<lambda>ym. 63850118400000000000), finish_clock = 63850118460000000000,
      ToUpper = ascii_upper\<rparr>"

text \<open>
  The same with every upload of an archive failing, with the third one succeeding, and
  with the second one succeeding.
\<close>

definition offline_world :: world where
  "offline_world =
     demo_world\<lparr>upload_err := (\<lambda>k n. if k = metaKey then None else Some (Err ''timeout''))\<rparr>"

definition flaky_world :: world where
  "flaky_world =
     demo_world\<lparr>upload_err := (\<lambda>k n. if k = metaKey \<or> 3 \<le> n then None else Some (Err ''timeout''))\<rparr>"

definition hiccup_world :: world where
  "hiccup_world =
     demo_world\<lparr>upload_err := (\<lambda>k n. if k = metaKey \<or> 2 \<le> n then None else Some (Err ''timeout''))\<rparr>"

text \<open>The next run: the last-upload file is what the offline run left, the network is back.\<close>

definition next_world :: world where
  "next_world =
     demo_world\<lparr>last_upload_file := stamp_left offline_world (main demo_cfg offline_world),
                worker_clock := (\<lambda>ym. 63850723200000000000),
                finish_clock := 63850723260000000000\<rparr>"

text \<open>
  Further variants: a state file cut off in the middle, a state file that holds both
  months, a state file whose \<open>completed_months\<close> is \<open>null\<close>, a remote object whose
  checksum differs, and a cold storage class.
\<close>

definition null_world :: world where
  "null_world = demo_world\<lparr>state_file := (\<lambda>p. Opened ''null months'')\<rparr>"

definition torn_world :: world where
  "torn_world = demo_world\<lparr>state_file := (\<lambda>p. Opened ''{ completed_mon'')\<rparr>"

definition resumed_world :: world where
  "resumed_world = demo_world\<lparr>state_file := (\<lambda>p. Opened ''both months'')\<rparr>"

definition mismatch_world :: world where
  "mismatch_world = demo_world\<lparr>remote_sha := (\<lambda>k. Inr ''ffff'')\<rparr>"

definition cold_cfg :: Config where
  "cold_cfg = demo_cfg\<lparr>StorageClass := ''Deep_Archive''\<rparr>"

section \<open>Facts about the library functions\<close>

subsection \<open>Decimal formatting\<close>

lemma digit_0: "digit 0 = CHR ''0''"
  by (simp add: digit_def)

lemma fixed_digits_0: "fixed_digits w 0 = replicate w (CHR ''0'')"
  by (induction w) (simp_all add: digit_0 replicate_append_same)

lemma zero_pad_snoc: "length ds \<le> w \<Longrightarrow> zero_pad (Suc w) (ds @ [d]) = zero_pad w ds @ [d]"
  by (simp add: zero_pad_def)

lemma length_digits: "0 < w \<Longrightarrow> n < 10 ^ w \<Longrightarrow> length (digits n) \<le> w"
proof (induction n arbitrary: w rule: digits.induct)
  case (1 n)
  show ?case
  proof (cases "n < 10")
    case True
    with "1.prems" show ?thesis by (subst digits.simps) simp
  next
    case False
    then obtain v where w: "w = Suc v" and v: "0 < v"
      using "1.prems" by (cases w; cases "w - 1") auto
    have "n div 10 < 10 ^ v" using "1.prems" w by (simp add: less_mult_imp_div_less mult.commute)
    with "1.IH" False v have "length (digits (n div 10)) \<le> v" by simp
    with False w show ?thesis by (subst digits.simps) simp
  qed
qed

lemma zero_pad_digits: "n < 10 ^ w \<Longrightarrow> 0 < w \<Longrightarrow> zero_pad w (digits n) = fixed_digits w n"
proof (induction w arbitrary: n)
  case 0
  then show ?case by simp
next
  case (Suc w)
  show ?case
  proof (cases "n < 10")
    case True
    then have "digits n = [digit n]" by (subst digits.simps) simp
    with True show ?thesis by (simp add: zero_pad_def fixed_digits_0)
  next
    case False
    then have w: "0 < w" using Suc.prems by (cases w) auto
    have lt: "n div 10 < 10 ^ w" using Suc.prems by (simp add: less_mult_imp_div_less mult.commute)
    have d: "digits n = digits (n div 10) @ [digit (n mod 10)]"
      using False by (subst digits.simps) simp
    have "length (digits (n div 10)) \<le> w" using length_digits [OF w lt] .
    then show ?thesis using Suc.IH [OF lt w] d by (simp add: zero_pad_snoc)
  qed
qed

lemma group_key_format:
  assumes "0 \<le> Year loc t" "Year loc t \<le> 9999" "0 \<le> Month loc t" "Month loc t \<le> 99"
  shows "group_key loc t = fixed_digits 4 (nat (Year loc t)) @ ''-'' @ fixed_digits 2 (nat (Month loc t))"
proof -
  have "nat (Year loc t) < 10 ^ 4" "nat (Month loc t) < 10 ^ 2" using assms by auto
  then show ?thesis using assms
    by (simp add: group_key_def Sprintf_0d_def zero_pad_digits del: fixed_digits.simps)
qed

text \<open>No digit is a hyphen, so a stamp of a plain reading has none.\<close>

lemma digit_not_hyphen: "n < 10 \<Longrightarrow> digit n \<noteq> CHR ''-''"
proof -
  assume "n < 10"
  then have "digit n \<in> set ''0123456789''"
    unfolding digit_def by (intro nth_mem) simp
  then show ?thesis by auto
qed

lemma digits_no_hyphen: "CHR ''-'' \<notin> set (digits n)"
proof (induction n rule: digits.induct)
  case (1 n)
  show ?case
  proof (cases "n < 10")
    case True
    then show ?thesis using digit_not_hyphen [of n] by (subst digits.simps) auto
  next
    case False
    have "digit (n mod 10) \<noteq> CHR ''-''" by (rule digit_not_hyphen) simp
    with False "1.IH" show ?thesis by (subst digits.simps) auto
  qed
qed

lemma appendInt_no_hyphen: "0 \<le> x \<Longrightarrow> CHR ''-'' \<notin> set (appendInt x w)"
  by (simp add: appendInt_def zero_pad_def digits_no_hyphen)

lemma stamp_no_hyphen: "plain (loc (whole_seconds t)) \<Longrightarrow> CHR ''-'' \<notin> set (Format_stamp loc t)"
  by (simp add: Format_stamp_def plain_def Let_def appendInt_no_hyphen)

lemma split_at_first:
  "c \<notin> set a \<Longrightarrow> c \<notin> set a' \<Longrightarrow> a @ c # b = a' @ c # b' \<Longrightarrow> a = a' \<and> b = b'"
proof (induction a arbitrary: a')
  case Nil
  then show ?case by (cases a') auto
next
  case (Cons x a)
  then show ?case by (cases a') auto
qed

lemma dedup_key_pair:
  assumes "plain (loc (whole_seconds t))" "plain (loc (whole_seconds t'))"
  shows "(dedup_key loc t p = dedup_key loc t' p') =
           (Format_stamp loc t = Format_stamp loc t' \<and> Base p = Base p')"
proof -
  have a: "CHR ''-'' \<notin> set (Format_stamp loc t)"
    using assms(1) by (rule stamp_no_hyphen [of loc t])
  have b: "CHR ''-'' \<notin> set (Format_stamp loc t')"
    using assms(2) by (rule stamp_no_hyphen [of loc t'])
  show ?thesis
    using split_at_first [OF a b, of "Base p" "Base p'"] by (auto simp: dedup_key_def)
qed

lemma stamp_second_precision:
  "whole_seconds t = whole_seconds t' \<Longrightarrow> Format_stamp loc t = Format_stamp loc t'"
  by (simp add: Format_stamp_def)

section \<open>The scan\<close>

subsection \<open>The excluded map\<close>

lemma count_of_incr: "count_of (incr k m) k' = (if k' = k then count_of m k + 1 else count_of m k')"
  by (simp add: count_of_def incr_def update_conv')

lemma sum_update: "sum_list (map snd (AList.update k v m)) = sum_list (map snd m) - count_of m k + v"
  by (induction m) (auto simp: count_of_def)

lemma sum_incr: "sum_list (map snd (incr k m)) = sum_list (map snd m) + 1"
  by (simp add: incr_def sum_update)

subsection \<open>One callback of the scan\<close>

lemma visit_excluded:
  "excluded (visit fs since exts s e) =
     (if disallowed_entry fs exts e then incr (ToLower fs (Ext (entry_path e))) (excluded s) else excluded s)"
  by (cases e) (auto simp: disallowed_entry_def entry_path_def Let_def split: prod.splits)

lemma visit_resolved:
  "resolved (visit fs since exts s e) =
     (if allowed_entry fs exts e then resolved s @ [entry_path e] else resolved s)"
  by (cases e) (auto simp: allowed_entry_def entry_path_def Let_def split: prod.splits)

lemma visit_seen:
  "seen (visit fs since exts s e) =
     (if newer fs since exts e then insert (entry_key fs e) (seen s) else seen s)"
  by (cases e)
    (auto simp: newer_def allowed_entry_def entry_path_def entry_key_def path_key_def
      resolved_time_def Let_def split: prod.splits option.splits)

lemma visit_files:
  "files (visit fs since exts s e) =
     (if newer fs since exts e \<and> entry_key fs e \<notin> seen s then files s @ [entry_path e] else files s)"
  by (cases e)
    (auto simp: newer_def allowed_entry_def entry_path_def entry_key_def path_key_def
      resolved_time_def Let_def split: prod.splits option.splits)

lemma visit_warnings:
  "warnings (visit fs since exts s e) =
     (if newer fs since exts e \<and> entry_key fs e \<in> seen s then warnings s @ [entry_path e] else warnings s)"
  by (cases e)
    (auto simp: newer_def allowed_entry_def entry_path_def entry_key_def path_key_def
      resolved_time_def Let_def split: prod.splits option.splits)

lemma visit_disallowed:
  assumes "ToLower fs (Ext p) \<notin> allowed fs exts"
  shows "visit fs since exts s (Visit p False) = s\<lparr>excluded := incr (ToLower fs (Ext p)) (excluded s)\<rparr>"
  using assms by (simp add: Let_def)

subsection \<open>The whole scan\<close>

lemma fold_excluded_sum:
  "sum_list (map snd (excluded (foldl (visit fs since exts) s w))) =
     sum_list (map snd (excluded s)) + int (length (filter (disallowed_entry fs exts) w))"
  by (induction w arbitrary: s) (auto simp: visit_excluded sum_incr)

lemma fold_excluded_count:
  "count_of (excluded (foldl (visit fs since exts) s w)) x =
     count_of (excluded s) x +
     int (length (filter (\<lambda>e. disallowed_entry fs exts e \<and> ToLower fs (Ext (entry_path e)) = x) w))"
  by (induction w arbitrary: s) (auto simp: visit_excluded count_of_incr)

lemma fold_resolved:
  "resolved (foldl (visit fs since exts) s w) =
     resolved s @ map entry_path (filter (allowed_entry fs exts) w)"
  by (induction w arbitrary: s) (auto simp: visit_resolved)

lemma fold_seen:
  "seen (foldl (visit fs since exts) s w) =
     seen s \<union> entry_key fs ` {e \<in> set w. newer fs since exts e}"
  by (induction w arbitrary: s) (auto simp: visit_seen)

lemma fold_passed:
  "set (files (foldl (visit fs since exts) s w)) \<union> set (warnings (foldl (visit fs since exts) s w)) =
     set (files s) \<union> set (warnings s) \<union> entry_path ` {e \<in> set w. newer fs since exts e}"
  by (induction w arbitrary: s) (auto simp: visit_files visit_warnings)

lemma fold_files_length:
  "length (files (foldl (visit fs since exts) s w)) \<le>
     length (files s) + length (filter (newer fs since exts) w)"
proof (induction w arbitrary: s)
  case Nil
  then show ?case by simp
next
  case (Cons e w)
  have "length (files (foldl (visit fs since exts) (visit fs since exts s e) w)) \<le>
      length (files (visit fs since exts s e)) + length (filter (newer fs since exts) w)"
    by (rule Cons.IH)
  also have "\<dots> \<le> length (files s) + (if newer fs since exts e then 1 else 0) +
      length (filter (newer fs since exts) w)"
    by (simp add: visit_files)
  finally show ?case by (cases "newer fs since exts e") simp_all
qed

lemma newer_allowed:
  "length (filter (newer fs since exts) w) \<le> length (filter (allowed_entry fs exts) w)"
  by (induction w) (auto simp: newer_def)

lemma newer_resolves: "newer fs since exts e \<Longrightarrow> resolves fs (entry_path e)"
  by (cases "getPhotoMeta fs (entry_path e)")
    (auto simp: newer_def resolves_def resolved_time_def split: option.splits)

lemma fold_files_resolve:
  "p \<in> set (files (foldl (visit fs since exts) s w)) \<Longrightarrow> p \<in> set (files s) \<or> resolves fs p"
proof (induction w arbitrary: s)
  case Nil
  then show ?case by simp
next
  case (Cons e w)
  from Cons.IH [OF Cons.prems [simplified]]
  have "p \<in> set (files (visit fs since exts s e)) \<or> resolves fs p" .
  then show ?case by (auto simp: visit_files newer_resolves split: if_splits)
qed

lemma visit_keyed: "keyed fs s \<Longrightarrow> keyed fs (visit fs since exts s e)"
  by (auto simp: keyed_def visit_files visit_seen entry_key_def)

lemma fold_keyed: "keyed fs s \<Longrightarrow> keyed fs (foldl (visit fs since exts) s w)"
  by (induction w arbitrary: s) (simp_all add: visit_keyed)

lemma scan0_keyed: "keyed fs scan0"
  by (simp add: keyed_def scan0_def)

lemma scan_walk_keyed: "keyed fs (scan_walk fs since exts w)"
  unfolding scan_walk_def by (rule fold_keyed) (rule scan0_keyed)

lemma scan_walk_snoc:
  "scan_walk fs since exts (w @ [e]) = visit fs since exts (scan_walk fs since exts w) e"
  by (simp add: scan_walk_def)

lemma scan_walk_seen:
  "seen (scan_walk fs since exts w) = entry_key fs ` {e \<in> set w. newer fs since exts e}"
  by (simp add: scan_walk_def fold_seen scan0_def)

lemma scan_walk_passed:
  "passed_filter (scan_walk fs since exts w) p =
     (p \<in> entry_path ` {e \<in> set w. newer fs since exts e})"
  using fold_passed [of fs since exts scan0 w]
  by (auto simp: passed_filter_def scan_walk_def scan0_def)

lemma FindNewPhotos_files:
  "fst (FindNewPhotos fs root since exts) = files (scan_tree fs root since exts)"
  by (simp add: FindNewPhotos_def Let_def)

lemma FindNewPhotos_excluded:
  "snd (FindNewPhotos fs root since exts) = excluded (scan_tree fs root since exts)"
  by (simp add: FindNewPhotos_def Let_def)

lemma FindNewPhotos_distinct: "distinct (fst (FindNewPhotos fs root since exts))"
  using scan_walk_keyed [of fs since exts "walk_dir fs root"]
  by (simp add: FindNewPhotos_files scan_tree_def keyed_def)

lemma FindNewPhotos_resolves:
  "p \<in> set (fst (FindNewPhotos fs root since exts)) \<Longrightarrow> resolves fs p"
  using fold_files_resolve [of p fs since exts scan0 "walk_dir fs root"]
  by (simp add: FindNewPhotos_files scan_tree_def scan_walk_def scan0_def)

lemma passed_iff:
  assumes "Visit p False \<in> set w" "ToLower fs (Ext p) \<in> allowed fs exts"
    "getPhotoMeta fs p = (meta, None)"
  shows "passed_filter (scan_walk fs since exts w) p = After (Taken meta) since"
proof
  assume "passed_filter (scan_walk fs since exts w) p"
  then obtain e where "newer fs since exts e" "entry_path e = p"
    by (auto simp: scan_walk_passed)
  then show "After (Taken meta) since"
    using assms(3) by (simp add: newer_def resolved_time_def)
next
  assume "After (Taken meta) since"
  then have "newer fs since exts (Visit p False)"
    using assms(2,3) by (simp add: newer_def allowed_entry_def entry_path_def resolved_time_def)
  then show "passed_filter (scan_walk fs since exts w) p"
    using assms(1) by (force simp: scan_walk_passed entry_path_def)
qed

lemma passed_resolves:
  "passed_filter (scan_walk fs since exts w) p \<Longrightarrow> resolves fs p"
  using newer_resolves [of fs since exts] by (auto simp: scan_walk_passed)

lemma scan0_simps:
  "files scan0 = []" "seen scan0 = {}" "excluded scan0 = []" "warnings scan0 = []"
  "resolved scan0 = []"
  by (simp_all add: scan0_def)

lemma count_of_Nil: "count_of [] x = 0"
  by (simp add: count_of_def)

text \<open>
  Claim C9 (exclusion accounting). A callback for a file whose lower-cased extension is
  not in the allow-set adds one to the excluded count of that extension, calls
  \<open>getPhotoMeta\<close> for nothing and keeps no path. Over a whole walk the excluded
  counts sum to the number of disallowed files, the count of each extension is the number
  of disallowed files with it, \<open>getPhotoMeta\<close> is called for the allowed files and no
  others, and the list of new photos is no longer than the number of allowed files.
\<close>

theorem exclusion_accounting:
  "(ToLower fs (Ext p) \<notin> allowed fs exts \<longrightarrow>
      count_of (excluded (visit fs since exts s (Visit p False))) (ToLower fs (Ext p)) =
        count_of (excluded s) (ToLower fs (Ext p)) + 1 \<and>
      resolved (visit fs since exts s (Visit p False)) = resolved s \<and>
      files (visit fs since exts s (Visit p False)) = files s) \<and>
   sum_list (map snd (snd (FindNewPhotos fs root since exts))) =
     int (length (filter (disallowed_entry fs exts) (walk_dir fs root))) \<and>
   count_of (snd (FindNewPhotos fs root since exts)) x =
     int (length (filter (\<lambda>e. disallowed_entry fs exts e \<and> ToLower fs (Ext (entry_path e)) = x)
                    (walk_dir fs root))) \<and>
   resolved (scan_tree fs root since exts) =
     map entry_path (filter (allowed_entry fs exts) (walk_dir fs root)) \<and>
   length (fst (FindNewPhotos fs root since exts)) \<le>
     length (filter (allowed_entry fs exts) (walk_dir fs root))"
proof -
  have step: "ToLower fs (Ext p) \<notin> allowed fs exts \<longrightarrow>
      count_of (excluded (visit fs since exts s (Visit p False))) (ToLower fs (Ext p)) =
        count_of (excluded s) (ToLower fs (Ext p)) + 1 \<and>
      resolved (visit fs since exts s (Visit p False)) = resolved s \<and>
      files (visit fs since exts s (Visit p False)) = files s"
    by (simp add: visit_disallowed count_of_incr)
  have total: "sum_list (map snd (snd (FindNewPhotos fs root since exts))) =
     int (length (filter (disallowed_entry fs exts) (walk_dir fs root)))"
    by (simp add: FindNewPhotos_excluded scan_tree_def scan_walk_def fold_excluded_sum scan0_def)
  have each: "count_of (snd (FindNewPhotos fs root since exts)) x =
     int (length (filter (\<lambda>e. disallowed_entry fs exts e \<and> ToLower fs (Ext (entry_path e)) = x)
                    (walk_dir fs root)))"
    by (simp add: FindNewPhotos_excluded scan_tree_def scan_walk_def fold_excluded_count
        scan0_simps count_of_Nil)
  have res: "resolved (scan_tree fs root since exts) =
     map entry_path (filter (allowed_entry fs exts) (walk_dir fs root))"
    by (simp add: scan_tree_def scan_walk_def fold_resolved scan0_def)
  have "length (fst (FindNewPhotos fs root since exts)) \<le>
      length (filter (newer fs since exts) (walk_dir fs root))"
    using fold_files_length [of fs since exts scan0 "walk_dir fs root"]
    by (simp add: FindNewPhotos_files scan_tree_def scan_walk_def scan0_def)
  then have len: "length (fst (FindNewPhotos fs root since exts)) \<le>
      length (filter (allowed_entry fs exts) (walk_dir fs root))"
    using newer_allowed [of fs since exts "walk_dir fs root"] by linarith
  from step total each res len show ?thesis by blast
qed

lemma demo_disallowed: "ToLower demo_fs (Ext ''/p/a/r.TXT'') \<notin> allowed demo_fs demo_exts"
  by code_simp

lemma demo_ext: "ToLower demo_fs (Ext ''/p/a/r.TXT'') = ''.txt''"
  by code_simp

lemma demo_counts:
  "length (filter (disallowed_entry demo_fs demo_exts) (walk_dir demo_fs ''/p'')) = 3 \<and>
   length (filter (\<lambda>e. disallowed_entry demo_fs demo_exts e \<and> ToLower demo_fs (Ext (entry_path e)) = ''.txt'')
             (walk_dir demo_fs ''/p'')) = 2 \<and>
   length (filter (allowed_entry demo_fs demo_exts) (walk_dir demo_fs ''/p'')) = 7"
  by code_simp

theorem exclusion_accounting_witness:
  "ToLower demo_fs (Ext ''/p/a/r.TXT'') \<notin> allowed demo_fs demo_exts \<and>
   count_of (excluded (visit demo_fs zero_time demo_exts scan0 (Visit ''/p/a/r.TXT'' False))) ''.txt'' = 1 \<and>
   resolved (visit demo_fs zero_time demo_exts scan0 (Visit ''/p/a/r.TXT'' False)) = [] \<and>
   sum_list (map snd (snd (FindNewPhotos demo_fs ''/p'' zero_time demo_exts))) = 3 \<and>
   count_of (snd (FindNewPhotos demo_fs ''/p'' zero_time demo_exts)) ''.txt'' = 2 \<and>
   length (fst (FindNewPhotos demo_fs ''/p'' zero_time demo_exts)) \<le> 7"
  using exclusion_accounting [where p = "''/p/a/r.TXT''" and exts = demo_exts and fs = demo_fs
      and since = zero_time and s = scan0 and root = "''/p''" and x = "''.txt''"]
    demo_disallowed demo_counts
  by (simp add: demo_ext scan0_simps count_of_Nil)

subsection \<open>Grouping\<close>

lemma members_update:
  "members (AList.update k v r) k' = (if k' = k then v else members r k')"
  by (simp add: members_def update_conv')

lemma members_Nil: "members [] k = []"
  by (simp add: members_def)

lemma group_step_eq:
  "group_step fs r f =
     (if resolves fs f
      then AList.update (file_key fs f) (members r (file_key fs f) @ [f]) r else r)"
  by (cases "getPhotoMeta fs f") (simp add: group_step_def resolves_def file_key_def Let_def)

lemma members_step:
  "members (group_step fs r f) k =
     (if resolves fs f \<and> file_key fs f = k then members r k @ [f] else members r k)"
  by (simp add: group_step_eq members_update)

lemma keys_update: "fst ` set (AList.update k v r) = insert k (fst ` set r)"
  by (simp add: dom_map_of_conv_image_fst [symmetric] update_conv')

lemma keys_step:
  "fst ` set (group_step fs r f) =
     (if resolves fs f then insert (file_key fs f) (fst ` set r) else fst ` set r)"
  by (simp add: group_step_eq keys_update)

lemma distinct_step:
  "distinct (map fst r) \<Longrightarrow> distinct (map fst (group_step fs r f))"
  by (simp add: group_step_eq distinct_update)

lemma total_update:
  "sum_list (map (length \<circ> snd) (AList.update k v r)) + length (members r k) =
     sum_list (map (length \<circ> snd) r) + length v"
  by (induction r) (auto simp: members_def)

lemma total_step:
  "sum_list (map (length \<circ> snd) (group_step fs r f)) =
     sum_list (map (length \<circ> snd) r) + (if resolves fs f then 1 else 0)"
  using total_update [of "file_key fs f" "members r (file_key fs f) @ [f]" r]
  by (simp add: group_step_eq)

lemma fold_members:
  "members (foldl (group_step fs) r ps) k =
     members r k @ filter (\<lambda>f. resolves fs f \<and> file_key fs f = k) ps"
  by (induction ps arbitrary: r) (simp_all add: members_step)

lemma fold_keys:
  "fst ` set (foldl (group_step fs) r ps) =
     fst ` set r \<union> file_key fs ` {f \<in> set ps. resolves fs f}"
  by (induction ps arbitrary: r) (auto simp: keys_step)

lemma fold_distinct:
  "distinct (map fst r) \<Longrightarrow> distinct (map fst (foldl (group_step fs) r ps))"
  by (induction ps arbitrary: r) (simp_all add: distinct_step)

lemma fold_total:
  "sum_list (map (length \<circ> snd) (foldl (group_step fs) r ps)) =
     sum_list (map (length \<circ> snd) r) + length (filter (resolves fs) ps)"
  by (induction ps arbitrary: r) (simp_all add: total_step)

lemma group_members:
  "members (GroupPhotosByYearMonth fs ps) k = filter (\<lambda>f. resolves fs f \<and> file_key fs f = k) ps"
  by (simp add: GroupPhotosByYearMonth_def fold_members members_Nil)

lemma group_keys:
  "fst ` set (GroupPhotosByYearMonth fs ps) = file_key fs ` {f \<in> set ps. resolves fs f}"
  by (simp add: GroupPhotosByYearMonth_def fold_keys)

lemma group_distinct: "distinct (map fst (GroupPhotosByYearMonth fs ps))"
  by (simp add: GroupPhotosByYearMonth_def fold_distinct)

lemma group_total:
  "sum_list (map (length \<circ> snd) (GroupPhotosByYearMonth fs ps)) = length (filter (resolves fs) ps)"
  by (simp add: GroupPhotosByYearMonth_def fold_total)

lemma group_pair:
  "(k, v) \<in> set (GroupPhotosByYearMonth fs ps) \<Longrightarrow>
     v = filter (\<lambda>f. resolves fs f \<and> file_key fs f = k) ps"
  using group_members [of fs ps k] group_distinct [of fs ps]
  by (simp add: members_def)

lemma group_pair_members:
  "(k, v) \<in> set (GroupPhotosByYearMonth fs ps) \<Longrightarrow> members (GroupPhotosByYearMonth fs ps) k = v"
  using group_distinct [of fs ps] by (simp add: members_def)

lemma group_has_key:
  assumes "f \<in> set ps" "resolves fs f"
  shows "(file_key fs f, members (GroupPhotosByYearMonth fs ps) (file_key fs f))
           \<in> set (GroupPhotosByYearMonth fs ps)"
proof -
  have "file_key fs f \<in> fst ` set (GroupPhotosByYearMonth fs ps)"
    using assms by (auto simp: group_keys)
  then obtain v where v: "(file_key fs f, v) \<in> set (GroupPhotosByYearMonth fs ps)" by auto
  then show ?thesis using group_pair_members [OF v] by simp
qed

lemma grouping_of_resolved:
  assumes all: "\<forall>f\<in>set ps. resolves fs f" and g: "g = GroupPhotosByYearMonth fs ps"
  shows "(\<forall>f\<in>set ps. (file_key fs f, members g (file_key fs f)) \<in> set g \<and>
                      f \<in> set (members g (file_key fs f)))"
    and "(\<forall>(k, v)\<in>set g. \<forall>f. (f \<in> set v) = (f \<in> set ps \<and> file_key fs f = k))"
    and "(\<Union>(k, v)\<in>set g. set v) = set ps"
    and "sum_list (map (length \<circ> snd) g) = length ps"
    and "(\<forall>(k, v)\<in>set g. v = filter (\<lambda>f. file_key fs f = k) ps)"
proof -
  show a: "\<forall>f\<in>set ps. (file_key fs f, members g (file_key fs f)) \<in> set g \<and>
                      f \<in> set (members g (file_key fs f))"
  proof
    fix f assume f: "f \<in> set ps"
    then have r: "resolves fs f" using all by simp
    have "(file_key fs f, members g (file_key fs f)) \<in> set g"
      unfolding g using f r by (rule group_has_key)
    moreover have "f \<in> set (members g (file_key fs f))"
      using f r by (simp add: g group_members)
    ultimately show "(file_key fs f, members g (file_key fs f)) \<in> set g \<and>
                      f \<in> set (members g (file_key fs f))" by simp
  qed
  show b: "\<forall>(k, v)\<in>set g. \<forall>f. (f \<in> set v) = (f \<in> set ps \<and> file_key fs f = k)"
    using all by (auto simp: g dest!: group_pair)
  show "(\<Union>(k, v)\<in>set g. set v) = set ps"
  proof
    show "(\<Union>(k, v)\<in>set g. set v) \<subseteq> set ps" using b by auto
    show "set ps \<subseteq> (\<Union>(k, v)\<in>set g. set v)"
    proof
      fix f assume "f \<in> set ps"
      with a have "(file_key fs f, members g (file_key fs f)) \<in> set g"
        "f \<in> set (members g (file_key fs f))" by auto
      then show "f \<in> (\<Union>(k, v)\<in>set g. set v)" by blast
    qed
  qed
  have "filter (resolves fs) ps = ps" using all by (simp add: filter_id_conv)
  then show "sum_list (map (length \<circ> snd) g) = length ps" by (simp add: g group_total)
  show "\<forall>(k, v)\<in>set g. v = filter (\<lambda>f. file_key fs f = k) ps"
  proof (clarify)
    fix k v assume "(k, v) \<in> set g"
    then have "v = filter (\<lambda>f. resolves fs f \<and> file_key fs f = k) ps"
      by (simp add: g group_pair)
    also have "\<dots> = filter (\<lambda>f. file_key fs f = k) ps"
      using all by (intro filter_cong) auto
    finally show "v = filter (\<lambda>f. file_key fs f = k) ps" .
  qed
qed

text \<open>
  Claim C6 (grouping totality). For the paths \<open>FindNewPhotos\<close> returns, grouped on
  the file system they were found in: the paths are distinct and so are the group keys;
  every path lies in the group stored under its own key and in no group of another key;
  the union of the groups is the set of paths and the group sizes add up to their
  number; every group lists its paths in scan order; and the key of a timestamp with a
  year from 0 to 9999 is the year in four digits, a hyphen and the month in two digits.
\<close>

theorem grouping_total:
  assumes ps: "ps = fst (FindNewPhotos fs root since exts)"
    and g: "g = GroupPhotosByYearMonth fs ps"
  shows "distinct ps \<and> distinct (map fst g) \<and>
    (\<forall>f\<in>set ps. (file_key fs f, members g (file_key fs f)) \<in> set g \<and>
                  f \<in> set (members g (file_key fs f))) \<and>
    (\<forall>(k, v)\<in>set g. \<forall>f. (f \<in> set v) = (f \<in> set ps \<and> file_key fs f = k)) \<and>
    (\<Union>(k, v)\<in>set g. set v) = set ps \<and>
    sum_list (map (length \<circ> snd) g) = length ps \<and>
    (\<forall>(k, v)\<in>set g. v = filter (\<lambda>f. file_key fs f = k) ps) \<and>
    (0 \<le> Year loc t \<and> Year loc t \<le> 9999 \<and> 0 \<le> Month loc t \<and> Month loc t \<le> 99 \<longrightarrow>
       group_key loc t =
         fixed_digits 4 (nat (Year loc t)) @ ''-'' @ fixed_digits 2 (nat (Month loc t)))"
proof -
  have all: "\<forall>f\<in>set ps. resolves fs f"
    by (simp add: ps FindNewPhotos_resolves)
  have d: "distinct ps" by (simp add: ps FindNewPhotos_distinct)
  have k: "distinct (map fst g)" by (simp add: g group_distinct)
  note parts = grouping_of_resolved [OF all g]
  have fmt: "0 \<le> Year loc t \<and> Year loc t \<le> 9999 \<and> 0 \<le> Month loc t \<and> Month loc t \<le> 99 \<longrightarrow>
       group_key loc t =
         fixed_digits 4 (nat (Year loc t)) @ ''-'' @ fixed_digits 2 (nat (Month loc t))"
    using group_key_format [of loc t] by blast
  from d k parts fmt show ?thesis by blast
qed

lemma demo_found:
  "fst (FindNewPhotos demo_fs ''/p'' zero_time demo_exts) =
     [''/p/a/1.JPG'', ''/p/a/2.jpg'', ''/p/b/3.mov'', ''/p/b/4.jpg'']"
  by code_simp

lemma demo_groups:
  "GroupPhotosByYearMonth demo_fs [''/p/a/1.JPG'', ''/p/a/2.jpg'', ''/p/b/3.mov'', ''/p/b/4.jpg''] =
     [(''2024-03'', [''/p/a/1.JPG'', ''/p/a/2.jpg'']), (''2024-04'', [''/p/b/3.mov'', ''/p/b/4.jpg''])]"
  by code_simp

lemma demo_april:
  "Year utc 63847656000000000000 = 2024 \<and> Month utc 63847656000000000000 = 4 \<and>
   file_key demo_fs ''/p/b/3.mov'' = ''2024-04'' \<and>
   fixed_digits 4 2024 @ ''-'' @ fixed_digits 2 4 = ''2024-04''"
  by code_simp

theorem grouping_total_witness:
  "fst (FindNewPhotos demo_fs ''/p'' zero_time demo_exts) =
     [''/p/a/1.JPG'', ''/p/a/2.jpg'', ''/p/b/3.mov'', ''/p/b/4.jpg''] \<and>
   GroupPhotosByYearMonth demo_fs (fst (FindNewPhotos demo_fs ''/p'' zero_time demo_exts)) =
     [(''2024-03'', [''/p/a/1.JPG'', ''/p/a/2.jpg'']), (''2024-04'', [''/p/b/3.mov'', ''/p/b/4.jpg''])] \<and>
   (\<Union>(k, v)\<in>set (GroupPhotosByYearMonth demo_fs (fst (FindNewPhotos demo_fs ''/p'' zero_time demo_exts))).
       set v) = set (fst (FindNewPhotos demo_fs ''/p'' zero_time demo_exts)) \<and>
   sum_list (map (length \<circ> snd)
     (GroupPhotosByYearMonth demo_fs (fst (FindNewPhotos demo_fs ''/p'' zero_time demo_exts)))) =
     length (fst (FindNewPhotos demo_fs ''/p'' zero_time demo_exts)) \<and>
   0 \<le> Year utc 63847656000000000000 \<and> Year utc 63847656000000000000 \<le> 9999 \<and>
   0 \<le> Month utc 63847656000000000000 \<and> Month utc 63847656000000000000 \<le> 99 \<and>
   group_key utc 63847656000000000000 = ''2024-04''"
proof -
  note t = grouping_total [OF refl refl, of demo_fs "''/p''" zero_time demo_exts utc
      63847656000000000000]
  have c2: "GroupPhotosByYearMonth demo_fs (fst (FindNewPhotos demo_fs ''/p'' zero_time demo_exts)) =
     [(''2024-03'', [''/p/a/1.JPG'', ''/p/a/2.jpg'']), (''2024-04'', [''/p/b/3.mov'', ''/p/b/4.jpg''])]"
    by (simp only: demo_found demo_groups)
  have c3: "(\<Union>(k, v)\<in>set (GroupPhotosByYearMonth demo_fs (fst (FindNewPhotos demo_fs ''/p'' zero_time demo_exts))).
       set v) = set (fst (FindNewPhotos demo_fs ''/p'' zero_time demo_exts))"
    using t by (elim conjE)
  have c4: "sum_list (map (length \<circ> snd)
     (GroupPhotosByYearMonth demo_fs (fst (FindNewPhotos demo_fs ''/p'' zero_time demo_exts)))) =
     length (fst (FindNewPhotos demo_fs ''/p'' zero_time demo_exts))"
    using t by (elim conjE)
  have r: "0 \<le> Year utc 63847656000000000000" "Year utc 63847656000000000000 \<le> 9999"
    "0 \<le> Month utc 63847656000000000000" "Month utc 63847656000000000000 \<le> 99"
    using demo_april by simp_all
  have "group_key utc 63847656000000000000 =
      fixed_digits 4 (nat (Year utc 63847656000000000000)) @ ''-'' @
      fixed_digits 2 (nat (Month utc 63847656000000000000))"
    using t r by (elim conjE) blast
  also have "\<dots> = ''2024-04''" using demo_april by simp
  finally have c9: "group_key utc 63847656000000000000 = ''2024-04''" .
  from demo_found c2 c3 c4 r c9 show ?thesis by (intro conjI)
qed

text \<open>
  Claim C8 (deduplication). The scan starts with nothing kept. A callback for an entry
  newer than the watermark keeps its path when no earlier such entry of the walk has the
  same key, and otherwise logs the path as a duplicate (a warning) and keeps nothing.
  The key is the timestamp formatted to the second, a hyphen and the base name: it is
  the same for two timestamps in the same second with the same base name, and for
  timestamps without a negative calendar field two keys are equal exactly when the
  formatted timestamps and the base names are. Two entries with one key, scanned one
  after the other, leave the first path kept and the second reported.
\<close>

theorem dedup_first_occurrence:
  "files (scan_walk fs since exts []) = [] \<and> warnings (scan_walk fs since exts []) = [] \<and>
   files (scan_walk fs since exts (w @ [e])) =
     files (scan_walk fs since exts w) @
       (if newer fs since exts e \<and>
           entry_key fs e \<notin> entry_key fs ` {x \<in> set w. newer fs since exts x}
        then [entry_path e] else []) \<and>
   warnings (scan_walk fs since exts (w @ [e])) =
     warnings (scan_walk fs since exts w) @
       (if newer fs since exts e \<and>
           entry_key fs e \<in> entry_key fs ` {x \<in> set w. newer fs since exts x}
        then [entry_path e] else []) \<and>
   entry_key fs e =
     Format_stamp (local_zone fs) (Taken (fst (getPhotoMeta fs (entry_path e)))) @ ''-'' @
     Base (entry_path e) \<and>
   (whole_seconds t = whole_seconds t' \<and> Base p = Base p' \<longrightarrow>
      dedup_key loc t p = dedup_key loc t' p') \<and>
   (plain (loc (whole_seconds t)) \<and> plain (loc (whole_seconds t')) \<longrightarrow>
      (dedup_key loc t p = dedup_key loc t' p') =
        (Format_stamp loc t = Format_stamp loc t' \<and> Base p = Base p')) \<and>
   (newer fs since exts e1 \<and> newer fs since exts e2 \<and> entry_key fs e1 = entry_key fs e2 \<longrightarrow>
      files (scan_walk fs since exts [e1, e2]) = [entry_path e1] \<and>
      warnings (scan_walk fs since exts [e1, e2]) = [entry_path e2])"
proof -
  have nil: "files (scan_walk fs since exts []) = [] \<and> warnings (scan_walk fs since exts []) = []"
    by (simp add: scan_walk_def scan0_simps)
  have f: "files (scan_walk fs since exts (w @ [e])) =
     files (scan_walk fs since exts w) @
       (if newer fs since exts e \<and>
           entry_key fs e \<notin> entry_key fs ` {x \<in> set w. newer fs since exts x}
        then [entry_path e] else [])"
    by (simp add: scan_walk_snoc visit_files scan_walk_seen)
  have wn: "warnings (scan_walk fs since exts (w @ [e])) =
     warnings (scan_walk fs since exts w) @
       (if newer fs since exts e \<and>
           entry_key fs e \<in> entry_key fs ` {x \<in> set w. newer fs since exts x}
        then [entry_path e] else [])"
    by (simp add: scan_walk_snoc visit_warnings scan_walk_seen)
  have key: "entry_key fs e =
     Format_stamp (local_zone fs) (Taken (fst (getPhotoMeta fs (entry_path e)))) @ ''-'' @
     Base (entry_path e)"
    by (simp add: entry_key_def path_key_def dedup_key_def)
  have sec: "whole_seconds t = whole_seconds t' \<and> Base p = Base p' \<longrightarrow>
      dedup_key loc t p = dedup_key loc t' p'"
    by (simp add: dedup_key_def stamp_second_precision [of t t' loc])
  have pair: "plain (loc (whole_seconds t)) \<and> plain (loc (whole_seconds t')) \<longrightarrow>
      (dedup_key loc t p = dedup_key loc t' p') =
        (Format_stamp loc t = Format_stamp loc t' \<and> Base p = Base p')"
    using dedup_key_pair [of loc t t' p p'] by blast
  have two: "newer fs since exts e1 \<and> newer fs since exts e2 \<and> entry_key fs e1 = entry_key fs e2 \<longrightarrow>
      files (scan_walk fs since exts [e1, e2]) = [entry_path e1] \<and>
      warnings (scan_walk fs since exts [e1, e2]) = [entry_path e2]"
    by (simp add: scan_walk_def visit_files visit_warnings visit_seen scan0_simps)
  from nil f wn key sec pair two show ?thesis by blast
qed

lemma demo_twins:
  "whole_seconds 63846093600000000000 = whole_seconds 63846093600000000007"
  "Base ''/p/a/1.JPG'' = Base ''/p/b/1.JPG''"
  "plain (utc (whole_seconds 63846093600000000000))"
  "plain (utc (whole_seconds 63846093600000000007))"
  "newer demo_fs zero_time demo_exts (Visit ''/p/a/1.JPG'' False)"
  "newer demo_fs zero_time demo_exts (Visit ''/p/b/1.JPG'' False)"
  by code_simp+

lemma demo_twin_keys:
  "entry_key demo_fs (Visit ''/p/a/1.JPG'' False) = ''20240315T100000-1.JPG''"
  "entry_key demo_fs (Visit ''/p/b/1.JPG'' False) = ''20240315T100000-1.JPG''"
  by code_simp+

theorem dedup_first_occurrence_witness:
  "whole_seconds 63846093600000000000 = whole_seconds 63846093600000000007 \<and>
   Base ''/p/a/1.JPG'' = Base ''/p/b/1.JPG'' \<and>
   dedup_key utc 63846093600000000000 ''/p/a/1.JPG'' =
     dedup_key utc 63846093600000000007 ''/p/b/1.JPG'' \<and>
   plain (utc (whole_seconds 63846093600000000000)) \<and>
   plain (utc (whole_seconds 63846093600000000007)) \<and>
   newer demo_fs zero_time demo_exts (Visit ''/p/a/1.JPG'' False) \<and>
   newer demo_fs zero_time demo_exts (Visit ''/p/b/1.JPG'' False) \<and>
   entry_key demo_fs (Visit ''/p/a/1.JPG'' False) = entry_key demo_fs (Visit ''/p/b/1.JPG'' False) \<and>
   files (scan_walk demo_fs zero_time demo_exts
            [Visit ''/p/a/1.JPG'' False, Visit ''/p/b/1.JPG'' False]) = [''/p/a/1.JPG''] \<and>
   warnings (scan_walk demo_fs zero_time demo_exts
            [Visit ''/p/a/1.JPG'' False, Visit ''/p/b/1.JPG'' False]) = [''/p/b/1.JPG'']"
proof -
  note t = dedup_first_occurrence [where fs = demo_fs and since = zero_time and exts = demo_exts
      and ?e1.0 = "Visit ''/p/a/1.JPG'' False" and ?e2.0 = "Visit ''/p/b/1.JPG'' False"
      and t = 63846093600000000000 and t' = 63846093600000000007 and loc = utc
      and p = "''/p/a/1.JPG''" and p' = "''/p/b/1.JPG''" and w = "[]"
      and e = "Visit ''/p/a/1.JPG'' False"]
  have h: "whole_seconds 63846093600000000000 = whole_seconds 63846093600000000007"
    "Base ''/p/a/1.JPG'' = Base ''/p/b/1.JPG''"
    "plain (utc (whole_seconds 63846093600000000000))"
    "plain (utc (whole_seconds 63846093600000000007))"
    "newer demo_fs zero_time demo_exts (Visit ''/p/a/1.JPG'' False)"
    "newer demo_fs zero_time demo_exts (Visit ''/p/b/1.JPG'' False)"
    by (rule demo_twins)+
  have k: "entry_key demo_fs (Visit ''/p/a/1.JPG'' False) =
      entry_key demo_fs (Visit ''/p/b/1.JPG'' False)"
    by (simp only: demo_twin_keys)
  have ps: "entry_path (Visit ''/p/a/1.JPG'' False) = ''/p/a/1.JPG''"
    "entry_path (Visit ''/p/b/1.JPG'' False) = ''/p/b/1.JPG''"
    by (simp_all add: entry_path_def)
  have d: "dedup_key utc 63846093600000000000 ''/p/a/1.JPG'' =
     dedup_key utc 63846093600000000007 ''/p/b/1.JPG''"
    using t h(1,2) by (elim conjE) blast
  have "files (scan_walk demo_fs zero_time demo_exts
            [Visit ''/p/a/1.JPG'' False, Visit ''/p/b/1.JPG'' False]) =
          [entry_path (Visit ''/p/a/1.JPG'' False)] \<and>
        warnings (scan_walk demo_fs zero_time demo_exts
            [Visit ''/p/a/1.JPG'' False, Visit ''/p/b/1.JPG'' False]) =
          [entry_path (Visit ''/p/b/1.JPG'' False)]"
    using t h(5,6) k by (elim conjE) blast
  then have f: "files (scan_walk demo_fs zero_time demo_exts
            [Visit ''/p/a/1.JPG'' False, Visit ''/p/b/1.JPG'' False]) = [''/p/a/1.JPG'']"
    and w: "warnings (scan_walk demo_fs zero_time demo_exts
            [Visit ''/p/a/1.JPG'' False, Visit ''/p/b/1.JPG'' False]) = [''/p/b/1.JPG'']"
    by (simp_all only: ps)
  from h d k f w show ?thesis by (intro conjI)
qed

text \<open>
  Claim C7 (watermark filtering), as amended. For a file of the walk with an allowed
  extension whose metadata is read without error: it passes the watermark filter exactly
  when its resolved timestamp is after the watermark; it does not pass when the two are
  equal; it passes when the timestamp is one second later; with the zero watermark it
  passes when its timestamp is after the zero time; and in a scan that reports no
  duplicate it is among the new photos exactly when its timestamp is after the
  watermark. A file whose metadata is read with an error (it cannot be opened) passes
  the filter for no watermark and is never among the new photos.
\<close>

theorem watermark_strict_after:
  assumes "Visit p False \<in> set (walk_dir fs root)"
    and "ToLower fs (Ext p) \<in> allowed fs exts"
    and "getPhotoMeta fs p = (meta, None)"
  shows "passed_filter (scan_tree fs root since exts) p = After (Taken meta) since \<and>
    (Taken meta = since \<longrightarrow> \<not> passed_filter (scan_tree fs root since exts) p) \<and>
    (Taken meta = since + one_second \<longrightarrow> passed_filter (scan_tree fs root since exts) p) \<and>
    (After (Taken meta) zero_time \<longrightarrow> passed_filter (scan_tree fs root zero_time exts) p) \<and>
    (warnings (scan_tree fs root since exts) = [] \<longrightarrow>
       (p \<in> set (fst (FindNewPhotos fs root since exts))) = After (Taken meta) since) \<and>
    (snd (getPhotoMeta fs q) \<noteq> None \<longrightarrow>
       \<not> passed_filter (scan_tree fs root since exts) q \<and>
       q \<notin> set (fst (FindNewPhotos fs root since exts)))"
proof -
  have iff: "passed_filter (scan_tree fs root t exts) p = After (Taken meta) t" for t
    unfolding scan_tree_def using assms by (rule passed_iff)
  have eq: "Taken meta = since \<longrightarrow> \<not> passed_filter (scan_tree fs root since exts) p"
    by (simp add: iff After_def)
  have later: "Taken meta = since + one_second \<longrightarrow> passed_filter (scan_tree fs root since exts) p"
    by (simp add: iff After_def one_second_def)
  have zero: "After (Taken meta) zero_time \<longrightarrow> passed_filter (scan_tree fs root zero_time exts) p"
    by (simp add: iff)
  have nodup: "warnings (scan_tree fs root since exts) = [] \<longrightarrow>
       (p \<in> set (fst (FindNewPhotos fs root since exts))) = After (Taken meta) since"
    using iff [of since] by (auto simp: passed_filter_def FindNewPhotos_files)
  have closed: "snd (getPhotoMeta fs q) \<noteq> None \<longrightarrow>
       \<not> passed_filter (scan_tree fs root since exts) q \<and>
       q \<notin> set (fst (FindNewPhotos fs root since exts))"
  proof
    assume "snd (getPhotoMeta fs q) \<noteq> None"
    then have "\<not> resolves fs q" by (simp add: resolves_def)
    then have "\<not> passed_filter (scan_tree fs root since exts) q"
      unfolding scan_tree_def using passed_resolves [of fs since exts "walk_dir fs root" q]
      by blast
    then show "\<not> passed_filter (scan_tree fs root since exts) q \<and>
       q \<notin> set (fst (FindNewPhotos fs root since exts))"
      by (simp add: passed_filter_def FindNewPhotos_files)
  qed
  from iff [of since] eq later zero nodup closed show ?thesis by blast
qed

lemma demo_photo:
  "Visit ''/p/a/2.jpg'' False \<in> set (walk_dir demo_fs ''/p'')"
  "ToLower demo_fs (Ext ''/p/a/2.jpg'') \<in> allowed demo_fs demo_exts"
  "getPhotoMeta demo_fs ''/p/a/2.jpg'' =
     (\<lparr>Path = ''/p/a/2.jpg'', Taken = 63846520200000000005, Camera = ''''\<rparr>, None)"
  "warnings (scan_tree demo_fs ''/p'' 63846520199000000005 demo_exts) = []"
  "snd (getPhotoMeta demo_fs ''/p/c.jpg'') \<noteq> None"
  by code_simp+

theorem watermark_strict_after_witness:
  "Visit ''/p/a/2.jpg'' False \<in> set (walk_dir demo_fs ''/p'') \<and>
   ToLower demo_fs (Ext ''/p/a/2.jpg'') \<in> allowed demo_fs demo_exts \<and>
   getPhotoMeta demo_fs ''/p/a/2.jpg'' =
     (\<lparr>Path = ''/p/a/2.jpg'', Taken = 63846520200000000005, Camera = ''''\<rparr>, None) \<and>
   \<not> passed_filter (scan_tree demo_fs ''/p'' 63846520200000000005 demo_exts) ''/p/a/2.jpg'' \<and>
   (63846520200000000005 :: int) = 63846520199000000005 + one_second \<and>
   passed_filter (scan_tree demo_fs ''/p'' 63846520199000000005 demo_exts) ''/p/a/2.jpg'' \<and>
   After 63846520200000000005 zero_time \<and>
   passed_filter (scan_tree demo_fs ''/p'' zero_time demo_exts) ''/p/a/2.jpg'' \<and>
   warnings (scan_tree demo_fs ''/p'' 63846520199000000005 demo_exts) = [] \<and>
   ''/p/a/2.jpg'' \<in> set (fst (FindNewPhotos demo_fs ''/p'' 63846520199000000005 demo_exts)) \<and>
   snd (getPhotoMeta demo_fs ''/p/c.jpg'') \<noteq> None \<and>
   \<not> passed_filter (scan_tree demo_fs ''/p'' zero_time demo_exts) ''/p/c.jpg''"
proof -
  note t = watermark_strict_after [OF demo_photo(1,2,3), where q = "''/p/c.jpg''"]
  have a: "\<not> passed_filter (scan_tree demo_fs ''/p'' 63846520200000000005 demo_exts) ''/p/a/2.jpg''"
    using t [where since = 63846520200000000005] by (simp add: After_def)
  have s: "(63846520200000000005 :: int) = 63846520199000000005 + one_second"
    by (simp add: one_second_def)
  have b: "passed_filter (scan_tree demo_fs ''/p'' 63846520199000000005 demo_exts) ''/p/a/2.jpg''"
    using t [where since = 63846520199000000005] by (simp add: After_def one_second_def)
  have z: "After 63846520200000000005 zero_time"
    by (simp add: After_def zero_time_def)
  have c: "passed_filter (scan_tree demo_fs ''/p'' zero_time demo_exts) ''/p/a/2.jpg''"
    using t [where since = zero_time] by (simp add: After_def zero_time_def)
  have d: "''/p/a/2.jpg'' \<in> set (fst (FindNewPhotos demo_fs ''/p'' 63846520199000000005 demo_exts))"
    using t [where since = 63846520199000000005] demo_photo(4) by (simp add: After_def)
  have e: "\<not> passed_filter (scan_tree demo_fs ''/p'' zero_time demo_exts) ''/p/c.jpg''"
    using t [where since = zero_time] demo_photo(5) by blast
  from demo_photo(1,2,3) a s b z c demo_photo(4) d demo_photo(5) e show ?thesis by (intro conjI)
qed

text \<open>
  With the zero watermark an allowed file is not always eligible: the example library
  has a photo with neither an EXIF date nor a modification time, whose resolved
  timestamp is the zero time, and a photo that cannot be opened; the scan keeps neither.
\<close>

theorem zero_watermark_counterexample:
  "Visit ''/p/e.jpg'' False \<in> set (walk_dir demo_fs ''/p'') \<and>
   ToLower demo_fs (Ext ''/p/e.jpg'') \<in> allowed demo_fs demo_exts \<and>
   getPhotoMeta demo_fs ''/p/e.jpg'' =
     (\<lparr>Path = ''/p/e.jpg'', Taken = zero_time, Camera = ''''\<rparr>, None) \<and>
   \<not> passed_filter (scan_tree demo_fs ''/p'' zero_time demo_exts) ''/p/e.jpg'' \<and>
   ''/p/e.jpg'' \<notin> set (fst (FindNewPhotos demo_fs ''/p'' zero_time demo_exts)) \<and>
   Visit ''/p/c.jpg'' False \<in> set (walk_dir demo_fs ''/p'') \<and>
   ToLower demo_fs (Ext ''/p/c.jpg'') \<in> allowed demo_fs demo_exts \<and>
   \<not> passed_filter (scan_tree demo_fs ''/p'' zero_time demo_exts) ''/p/c.jpg'' \<and>
   ''/p/c.jpg'' \<notin> set (fst (FindNewPhotos demo_fs ''/p'' zero_time demo_exts))"
  by code_simp

section \<open>The upload state and the run\<close>

subsection \<open>The retry loop\<close>

lemma upload_loop_done: "3 < attempt \<Longrightarrow> upload_loop w k z attempt err = ([], err)"
  by (subst upload_loop.simps) simp

lemma upload_loop_ok:
  "attempt \<le> 3 \<Longrightarrow> upload_err w k attempt = None \<Longrightarrow>
     upload_loop w k z attempt err = ([CallUploadToS3 k z], None)"
  by (subst upload_loop.simps) simp

lemma upload_loop_retry:
  "attempt \<le> 3 \<Longrightarrow> upload_err w k attempt = Some e \<Longrightarrow>
     upload_loop w k z attempt err =
       ([CallUploadToS3 k z, Log (UploadAttemptFailed attempt z), Sleep attempt] @
          fst (upload_loop w k z (attempt + 1) (Some e)),
        snd (upload_loop w k z (attempt + 1) (Some e)))"
  by (subst upload_loop.simps) (simp add: case_prod_beta)

lemma upload_loop_attempts:
  "length (filter is_upload (fst (upload_loop w k z attempt err))) \<le> 4 - attempt"
proof (induction w k z attempt err rule: upload_loop.induct)
  case (1 w k z attempt err)
  show ?case
  proof (cases "attempt \<le> 3")
    case False
    then show ?thesis by (simp add: upload_loop_done)
  next
    case True
    show ?thesis
    proof (cases "upload_err w k attempt")
      case None
      with True show ?thesis by (simp add: upload_loop_ok)
    next
      case (Some e)
      with True "1.IH" [OF True Some]
      show ?thesis by (simp add: upload_loop_retry)
    qed
  qed
qed

lemma upload_loop_first:
  assumes "upload_err w k 1 = None"
  shows "upload_loop w k z 1 None = ([CallUploadToS3 k z], None)"
  using assms by (simp add: upload_loop_ok)

lemma upload_loop_second:
  assumes "upload_err w k 1 = Some e1" "upload_err w k 2 = None"
  shows "upload_loop w k z 1 None =
    ([CallUploadToS3 k z, Log (UploadAttemptFailed 1 z), Sleep 1, CallUploadToS3 k z], None)"
proof -
  have 2: "upload_loop w k z 2 (Some e1) = ([CallUploadToS3 k z], None)"
    using assms(2) by (simp add: upload_loop_ok)
  show ?thesis
    using upload_loop_retry [of 1 w k e1 z None] assms(1) 2 by (simp add: eval_nat_numeral)
qed

lemma upload_loop_third:
  assumes "upload_err w k 1 = Some e1" "upload_err w k 2 = Some e2" "upload_err w k 3 = None"
  shows "upload_loop w k z 1 None =
    ([CallUploadToS3 k z, Log (UploadAttemptFailed 1 z), Sleep 1,
      CallUploadToS3 k z, Log (UploadAttemptFailed 2 z), Sleep 2,
      CallUploadToS3 k z], None)"
proof -
  have 3: "upload_loop w k z 3 (Some e2) = ([CallUploadToS3 k z], None)"
    using assms(3) by (simp add: upload_loop_ok)
  have 2: "upload_loop w k z 2 (Some e1) =
      ([CallUploadToS3 k z, Log (UploadAttemptFailed 2 z), Sleep 2, CallUploadToS3 k z], None)"
    using upload_loop_retry [of 2 w k e2 z "Some e1"] assms(2) 3 by simp
  show ?thesis
    using upload_loop_retry [of 1 w k e1 z None] assms(1) 2 by (simp add: eval_nat_numeral)
qed

lemma upload_loop_exhausted:
  assumes "upload_err w k 1 = Some e1" "upload_err w k 2 = Some e2" "upload_err w k 3 = Some e3"
  shows "upload_loop w k z 1 None =
    ([CallUploadToS3 k z, Log (UploadAttemptFailed 1 z), Sleep 1,
      CallUploadToS3 k z, Log (UploadAttemptFailed 2 z), Sleep 2,
      CallUploadToS3 k z, Log (UploadAttemptFailed 3 z), Sleep 3], Some e3)"
proof -
  have 4: "upload_loop w k z 4 (Some e3) = ([], Some e3)"
    by (simp add: upload_loop_done)
  have 3: "upload_loop w k z 3 (Some e2) =
      ([CallUploadToS3 k z, Log (UploadAttemptFailed 3 z), Sleep 3], Some e3)"
    using upload_loop_retry [of 3 w k e3 z "Some e2"] assms(3) 4 by simp
  have 2: "upload_loop w k z 2 (Some e1) =
      ([CallUploadToS3 k z, Log (UploadAttemptFailed 2 z), Sleep 2,
        CallUploadToS3 k z, Log (UploadAttemptFailed 3 z), Sleep 3], Some e3)"
    using upload_loop_retry [of 2 w k e2 z "Some e1"] assms(2) 3 by simp
  show ?thesis
    using upload_loop_retry [of 1 w k e1 z None] assms(1) 2 by (simp add: eval_nat_numeral)
qed

lemma upload_loop_events:
  "\<forall>e\<in>set (fst (upload_loop w k z attempt err)). retry_event e"
proof (induction w k z attempt err rule: upload_loop.induct)
  case (1 w k z attempt err)
  show ?case
  proof (cases "attempt \<le> 3")
    case False
    then show ?thesis by (simp add: upload_loop_done)
  next
    case True
    show ?thesis
    proof (cases "upload_err w k attempt")
      case None
      with True show ?thesis by (simp add: upload_loop_ok)
    next
      case (Some e)
      with True "1.IH" [OF True Some]
      show ?thesis by (simp add: upload_loop_retry)
    qed
  qed
qed

lemma sleeps_first: "sleeps [CallUploadToS3 k z] = []"
  by simp

lemma sleeps_second:
  "sleeps [CallUploadToS3 k z, Log (UploadAttemptFailed 1 z), Sleep 1, CallUploadToS3 k z] = [1]"
  by simp

lemma sleeps_third:
  "sleeps [CallUploadToS3 k z, Log (UploadAttemptFailed 1 z), Sleep 1,
      CallUploadToS3 k z, Log (UploadAttemptFailed 2 z), Sleep 2,
      CallUploadToS3 k z] = [1, 2]"
  by simp

lemma sleeps_exhausted:
  "sleeps [CallUploadToS3 k z, Log (UploadAttemptFailed 1 z), Sleep 1,
      CallUploadToS3 k z, Log (UploadAttemptFailed 2 z), Sleep 2,
      CallUploadToS3 k z, Log (UploadAttemptFailed 3 z), Sleep 3] = [1, 2, 3]"
  by simp

subsection \<open>One worker\<close>

lemma trace_emit: "trace (emit evs st) = trace st @ evs"
  by (simp add: emit_def)

lemma returned_state: "\<not> panicked s \<Longrightarrow> s = Returned (state_of s)"
  by (cases s) simp_all

lemma worker_zip_failed:
  assumes "ZipFiles w (zip_name w ym) paths = Some e"
  shows "worker cfg w ym paths st =
    Returned (st\<lparr>failedZips := failedZips st + 1,
       archives := (if create_err w (zip_name w ym) = None
                    then insert (zip_name w ym) (archives st) else archives st),
       trace := trace st @
         [Acquire, CallZipFiles (zip_name w ym) paths, Log (ZipFailed (zip_name w ym)),
          Lock Mu, IncFailedZips, Unlock Mu, Release]\<rparr>)"
  using assms by (simp add: worker_def emit_def Let_def)

lemma worker_upload_failed:
  assumes "ZipFiles w (zip_name w ym) paths = None"
    and "snd (upload_result cfg w ym) = Some e"
  shows "worker cfg w ym paths st =
    Returned (st\<lparr>failedUploads := failedUploads st + 1,
       fileProgress := fileProgress st + int (length paths),
       archives := (if create_err w (zip_name w ym) = None
                    then insert (zip_name w ym) (archives st) else archives st),
       trace := trace st @
         [Acquire, CallZipFiles (zip_name w ym) paths] @ progress_events paths @
         fst (upload_result cfg w ym) @
         [Log (UploadFailed (zip_name w ym)), Lock Mu, IncFailedUploads, Unlock Mu,
          Release]\<rparr>)"
  using assms
  by (simp add: worker_def emit_def Let_def upload_result_def s3_key_of_def case_prod_beta)

lemma worker_completed:
  assumes "ZipFiles w (zip_name w ym) paths = None"
    and "snd (upload_result cfg w ym) = None"
    and "CompletedMonths (uploadState st) = Some m"
  shows "worker cfg w ym paths st =
    Returned (st\<lparr>uploadState := (uploadState st)
         \<lparr>CompletedMonths := Some (m(ym \<mapsto> zip_name w ym))\<rparr>,
       fileProgress := fileProgress st + int (length paths),
       archives := (if create_err w (zip_name w ym) = None
                    then insert (zip_name w ym) (archives st) else archives st) - {zip_name w ym},
       saved := fst (SaveUploadState (create_err w statePath)
                  ((uploadState st)\<lparr>CompletedMonths := Some (m(ym \<mapsto> zip_name w ym))\<rparr>)
                  (saved st)),
       trace := trace st @
         [Acquire, CallZipFiles (zip_name w ym) paths] @ progress_events paths @
         fst (upload_result cfg w ym) @
         verify cfg w (zip_name w ym) (s3_key_of cfg w ym) @
         [SetCompleted ym (zip_name w ym), CallSaveUploadState statePath,
          Lock ProgressMu, Unlock ProgressMu, Remove (zip_name w ym), Release]\<rparr>)"
  using assms
  by (simp add: worker_def emit_def Let_def upload_result_def s3_key_of_def case_prod_beta)

lemma worker_nil_map:
  assumes "ZipFiles w (zip_name w ym) paths = None"
    and "snd (upload_result cfg w ym) = None"
    and "CompletedMonths (uploadState st) = None"
  shows "worker cfg w ym paths st =
    Panicked (st\<lparr>fileProgress := fileProgress st + int (length paths),
       archives := (if create_err w (zip_name w ym) = None
                    then insert (zip_name w ym) (archives st) else archives st),
       trace := trace st @
         [Acquire, CallZipFiles (zip_name w ym) paths] @ progress_events paths @
         fst (upload_result cfg w ym) @
         verify cfg w (zip_name w ym) (s3_key_of cfg w ym) @
         [SetCompleted ym (zip_name w ym), Release]\<rparr>)"
  using assms
  by (simp add: worker_def emit_def Let_def upload_result_def s3_key_of_def case_prod_beta)

lemma worker_cases:
  obtains (zip) e where "ZipFiles w (zip_name w ym) paths = Some e"
  | (upload) e where "ZipFiles w (zip_name w ym) paths = None"
      "snd (upload_result cfg w ym) = Some e"
  | (success) "ZipFiles w (zip_name w ym) paths = None" "snd (upload_result cfg w ym) = None"
  by (cases "ZipFiles w (zip_name w ym) paths"; cases "snd (upload_result cfg w ym)") auto

lemma worker_returns:
  assumes "CompletedMonths (uploadState st) \<noteq> None"
  shows "\<not> panicked (worker cfg w ym paths st) \<and>
    CompletedMonths (uploadState (state_of (worker cfg w ym paths st))) \<noteq> None"
proof -
  from assms obtain m where m: "CompletedMonths (uploadState st) = Some m" by auto
  show ?thesis
  proof (cases rule: worker_cases [where w = w and ym = ym and paths = paths and cfg = cfg])
    case (zip e)
    then show ?thesis using m by (simp add: worker_zip_failed)
  next
    case (upload e)
    then show ?thesis using m by (simp add: worker_upload_failed)
  next
    case success
    then show ?thesis using m by (simp add: worker_completed)
  qed
qed

lemma worker_events_success:
  assumes "ZipFiles w (zip_name w ym) paths = None"
    and "snd (upload_result cfg w ym) = None"
  shows "worker_events cfg w ym paths st =
    [Acquire, CallZipFiles (zip_name w ym) paths] @ progress_events paths @
    fst (upload_result cfg w ym) @ verify cfg w (zip_name w ym) (s3_key_of cfg w ym) @
    [SetCompleted ym (zip_name w ym)] @
    (if CompletedMonths (uploadState st) = None then [Release]
     else [CallSaveUploadState statePath, Lock ProgressMu, Unlock ProgressMu,
           Remove (zip_name w ym), Release])"
proof (cases "CompletedMonths (uploadState st)")
  case None
  then show ?thesis by (simp add: worker_events_def worker_nil_map [OF assms])
next
  case (Some m)
  then show ?thesis by (simp add: worker_events_def worker_completed [OF assms])
qed

lemma worker_events_upload_failed:
  assumes "ZipFiles w (zip_name w ym) paths = None"
    and "snd (upload_result cfg w ym) = Some e"
  shows "worker_events cfg w ym paths st =
    [Acquire, CallZipFiles (zip_name w ym) paths] @ progress_events paths @
    fst (upload_result cfg w ym) @
    [Log (UploadFailed (zip_name w ym)), Lock Mu, IncFailedUploads, Unlock Mu, Release]"
  by (simp add: worker_events_def worker_upload_failed [OF assms])

lemma worker_events_zip_failed:
  assumes "ZipFiles w (zip_name w ym) paths = Some e"
  shows "worker_events cfg w ym paths st =
    [Acquire, CallZipFiles (zip_name w ym) paths, Log (ZipFailed (zip_name w ym)),
     Lock Mu, IncFailedZips, Unlock Mu, Release]"
  by (simp add: worker_events_def worker_zip_failed [OF assms])

lemma verify_cold: "cold w cfg \<Longrightarrow> verify cfg w z k = [Log (SkippingVerification z)]"
  by (auto simp: verify_def cold_def Let_def)

lemma verify_warm:
  assumes "\<not> cold w cfg"
  shows "verify cfg w z k =
    (case local_sha w z of
       Inl e \<Rightarrow> [CallFileSHA256 z, Log (ChecksumComputeFailed z)]
     | Inr a \<Rightarrow>
         (case remote_sha w k of
            Inl e \<Rightarrow> [CallFileSHA256 z, CallS3SHA256 k, Log (ChecksumFetchFailed z)]
          | Inr b \<Rightarrow> [CallFileSHA256 z, CallS3SHA256 k] @
                     (if a \<noteq> b then [Log (ChecksumMismatch z)] else [])))"
  using assms by (auto simp: verify_def cold_def Let_def split: sum.splits)

lemma progress_no_remove: "Remove z \<notin> set (progress_events paths)"
  by (induction paths) (simp_all add: progress_events_def)

lemma upload_no_remove: "Remove z \<notin> set (fst (upload_result cfg w ym))"
  using upload_loop_events [of w "s3_key_of cfg w ym" "zip_name w ym" 1 None]
  by (auto simp: upload_result_def)

lemma verify_no_remove: "Remove z \<notin> set (verify cfg w z' k)"
  by (auto simp: verify_def Let_def split: sum.splits)

lemma verify_no_save: "CallSaveUploadState p \<notin> set (verify cfg w z k)"
  by (auto simp: verify_def Let_def split: sum.splits)

lemma progress_no_save: "CallSaveUploadState p \<notin> set (progress_events paths)"
  by (induction paths) (simp_all add: progress_events_def)

lemma upload_no_save: "CallSaveUploadState p \<notin> set (fst (upload_result cfg w ym))"
  using upload_loop_events [of w "s3_key_of cfg w ym" "zip_name w ym" 1 None]
  by (auto simp: upload_result_def)

subsection \<open>Loading the upload state\<close>

text \<open>
  Claim C10 (the state file is never reported as corrupt). Whatever the decoder does
  with the bytes of a state file that opens, \<open>LoadUploadState\<close> returns the state the
  decoder leaves behind and no error; a missing file gives the empty state and no error;
  an error (and no state) is returned exactly when the file exists and cannot be opened.
  When the decoder fails and leaves the state empty, the result is the one for a missing
  file, the run starts from the empty state and its loop starts a worker for the first
  group instead of passing it over; that worker returns, and the loop goes on from the
  state it leaves.
\<close>

theorem load_never_reports_corruption:
  "(os_open path = Opened content \<longrightarrow>
      LoadUploadState decode os_open path = (Some (fst (decode content no_months)), None)) \<and>
   (os_open path = NotExist \<longrightarrow>
      LoadUploadState decode os_open path = (Some no_months, None)) \<and>
   (os_open path = OpenError e \<longrightarrow>
      LoadUploadState decode os_open path = (None, Some e)) \<and>
   (snd (LoadUploadState decode os_open path) \<noteq> None) = (\<exists>e'. os_open path = OpenError e') \<and>
   (fst (LoadUploadState decode os_open path) = None) = (\<exists>e'. os_open path = OpenError e') \<and>
   (os_open path = Opened content \<and> decode content no_months = (no_months, Some derr) \<longrightarrow>
      LoadUploadState decode os_open path = LoadUploadState decode (\<lambda>p. NotExist) path) \<and>
   (state_file w statePath = Opened content \<and>
    json_decode w content no_months = (no_months, Some derr) \<longrightarrow>
      loaded_state w = no_months \<and>
      \<not> panicked (worker cfg w ym paths (st\<lparr>uploadState := loaded_state w\<rparr>)) \<and>
      main_loop cfg w ((ym, paths) # groups) (st\<lparr>uploadState := loaded_state w\<rparr>) =
        main_loop cfg w groups
          (state_of (worker cfg w ym paths (st\<lparr>uploadState := loaded_state w\<rparr>))))"
proof -
  have opened: "os_open path = Opened content \<longrightarrow>
      LoadUploadState decode os_open path = (Some (fst (decode content no_months)), None)"
    by (cases "decode content no_months") (simp add: LoadUploadState_def no_months_def)
  have missing: "os_open path = NotExist \<longrightarrow>
      LoadUploadState decode os_open path = (Some no_months, None)"
    by (simp add: LoadUploadState_def no_months_def)
  have failing: "os_open path = OpenError e \<longrightarrow>
      LoadUploadState decode os_open path = (None, Some e)"
    by (simp add: LoadUploadState_def)
  have err: "(snd (LoadUploadState decode os_open path) \<noteq> None) = (\<exists>e'. os_open path = OpenError e')"
    by (cases "os_open path")
      (auto simp: LoadUploadState_def Let_def split: prod.splits)
  have nil: "(fst (LoadUploadState decode os_open path) = None) = (\<exists>e'. os_open path = OpenError e')"
    by (cases "os_open path")
      (auto simp: LoadUploadState_def Let_def split: prod.splits)
  have same: "os_open path = Opened content \<and> decode content no_months = (no_months, Some derr) \<longrightarrow>
      LoadUploadState decode os_open path = LoadUploadState decode (\<lambda>p. NotExist) path"
    by (simp add: LoadUploadState_def no_months_def)
  have redo: "state_file w statePath = Opened content \<and>
    json_decode w content no_months = (no_months, Some derr) \<longrightarrow>
      loaded_state w = no_months \<and>
      \<not> panicked (worker cfg w ym paths (st\<lparr>uploadState := loaded_state w\<rparr>)) \<and>
      main_loop cfg w ((ym, paths) # groups) (st\<lparr>uploadState := loaded_state w\<rparr>) =
        main_loop cfg w groups
          (state_of (worker cfg w ym paths (st\<lparr>uploadState := loaded_state w\<rparr>)))"
  proof
    assume a: "state_file w statePath = Opened content \<and>
      json_decode w content no_months = (no_months, Some derr)"
    then have l: "loaded_state w = no_months"
      by (simp add: loaded_state_def LoadUploadState_def no_months_def)
    have ne: "CompletedMonths (uploadState (st\<lparr>uploadState := loaded_state w\<rparr>)) \<noteq> None"
      by (simp add: l no_months_def)
    have me: "month_entry (uploadState (st\<lparr>uploadState := loaded_state w\<rparr>)) ym = None"
      by (simp add: l no_months_def month_entry_def)
    have np: "\<not> panicked (worker cfg w ym paths (st\<lparr>uploadState := loaded_state w\<rparr>))"
      using worker_returns [OF ne] by blast
    then obtain s where s: "worker cfg w ym paths (st\<lparr>uploadState := loaded_state w\<rparr>) = Returned s"
      by (cases "worker cfg w ym paths (st\<lparr>uploadState := loaded_state w\<rparr>)") auto
    have ml: "main_loop cfg w ((ym, paths) # groups) (st\<lparr>uploadState := loaded_state w\<rparr>) =
        main_loop cfg w groups
          (state_of (worker cfg w ym paths (st\<lparr>uploadState := loaded_state w\<rparr>)))"
      using me s by simp
    from l np ml show "loaded_state w = no_months \<and>
      \<not> panicked (worker cfg w ym paths (st\<lparr>uploadState := loaded_state w\<rparr>)) \<and>
      main_loop cfg w ((ym, paths) # groups) (st\<lparr>uploadState := loaded_state w\<rparr>) =
        main_loop cfg w groups
          (state_of (worker cfg w ym paths (st\<lparr>uploadState := loaded_state w\<rparr>)))"
      by (intro conjI)
  qed
  from opened missing failing err nil same redo show ?thesis by blast
qed

lemma torn_facts:
  "state_file torn_world statePath = Opened ''{ completed_mon''"
  "json_decode torn_world ''{ completed_mon'' no_months = (no_months, Some (Err ''invalid character''))"
  by (simp_all add: torn_world_def demo_world_def demo_decode_def)

theorem load_never_reports_corruption_witness:
  "state_file torn_world statePath = Opened ''{ completed_mon'' \<and>
   json_decode torn_world ''{ completed_mon'' no_months =
     (no_months, Some (Err ''invalid character'')) \<and>
   LoadUploadState (json_decode torn_world) (state_file torn_world) statePath =
     (Some no_months, None) \<and>
   LoadUploadState (json_decode torn_world) (state_file torn_world) statePath =
     LoadUploadState (json_decode torn_world) (\<lambda>p. NotExist) statePath \<and>
   loaded_state torn_world = no_months \<and>
   LoadUploadState demo_decode (\<lambda>p. OpenError (Err ''permission denied'')) statePath =
     (None, Some (Err ''permission denied''))"
proof -
  note t = load_never_reports_corruption [where os_open = "state_file torn_world"
      and path = statePath and content = "''{ completed_mon''" and decode = "json_decode torn_world"
      and w = torn_world and derr = "Err ''invalid character''"]
  have a: "LoadUploadState (json_decode torn_world) (state_file torn_world) statePath =
     (Some no_months, None)"
    using t torn_facts by simp
  have b: "LoadUploadState (json_decode torn_world) (state_file torn_world) statePath =
     LoadUploadState (json_decode torn_world) (\<lambda>p. NotExist) statePath"
    using t torn_facts by blast
  have c: "loaded_state torn_world = no_months"
    using t torn_facts by blast
  have d: "LoadUploadState demo_decode (\<lambda>p. OpenError (Err ''permission denied'')) statePath =
     (None, Some (Err ''permission denied''))"
    using load_never_reports_corruption [where os_open = "\<lambda>p. OpenError (Err ''permission denied'')"
      and path = statePath and decode = demo_decode and e = "Err ''permission denied''"]
    by blast
  from torn_facts a b c d show ?thesis by (intro conjI)
qed

subsection \<open>The loop over the groups\<close>

lemma main_loop_skip_all:
  "(\<forall>g\<in>set groups. month_entry (uploadState st) (fst g) \<noteq> None) \<Longrightarrow>
     main_loop cfg w groups st = Returned st"
  by (induction groups) auto

lemma main_loop_returns:
  "CompletedMonths (uploadState st) \<noteq> None \<Longrightarrow> \<not> panicked (main_loop cfg w groups st)"
proof (induction groups arbitrary: st)
  case Nil
  then show ?case by simp
next
  case (Cons g groups)
  obtain ym paths where g: "g = (ym, paths)" by (cases g)
  show ?case
  proof (cases "month_entry (uploadState st) ym \<noteq> None")
    case True
    then show ?thesis using Cons by (simp add: g)
  next
    case False
    from worker_returns [OF Cons.prems, of cfg w ym paths]
    obtain st' where w: "worker cfg w ym paths st = Returned st'"
      and n: "CompletedMonths (uploadState st') \<noteq> None"
      by (cases "worker cfg w ym paths st") auto
    show ?thesis using False w Cons.IH [OF n] by (simp add: g)
  qed
qed

lemma main_loop_all_fail:
  assumes "\<forall>g\<in>set groups. ZipFiles w (zip_name w (fst g)) (snd g) \<noteq> None \<or>
             snd (upload_result cfg w (fst g)) \<noteq> None"
  shows "\<not> panicked (main_loop cfg w groups st) \<and>
    uploadState (state_of (main_loop cfg w groups st)) = uploadState st"
  using assms
proof (induction groups arbitrary: st)
  case Nil
  then show ?case by simp
next
  case (Cons g groups)
  obtain ym paths where g: "g = (ym, paths)" by (cases g)
  from Cons.prems have rest: "\<forall>g\<in>set groups. ZipFiles w (zip_name w (fst g)) (snd g) \<noteq> None \<or>
             snd (upload_result cfg w (fst g)) \<noteq> None"
    by simp
  from Cons.prems have f: "ZipFiles w (zip_name w ym) paths \<noteq> None \<or>
      snd (upload_result cfg w ym) \<noteq> None"
    by (simp add: g)
  have "\<exists>st'. worker cfg w ym paths st = Returned st' \<and> uploadState st' = uploadState st"
  proof (cases rule: worker_cases [where w = w and ym = ym and paths = paths and cfg = cfg])
    case (zip e)
    then show ?thesis by (simp add: worker_zip_failed)
  next
    case (upload e)
    then show ?thesis by (simp add: worker_upload_failed)
  next
    case success
    with f show ?thesis by simp
  qed
  then obtain st' where w: "worker cfg w ym paths st = Returned st'"
    and u: "uploadState st' = uploadState st"
    by blast
  show ?case using Cons.IH [OF rest, of st'] Cons.IH [OF rest, of st] w u by (simp add: g)
qed

lemma main_unfold:
  "main cfg w =
     (if new_photos cfg w = [] then Finished run0 (last_upload_file w)
      else if MaxConcurrentUploads cfg < 0 then Died (run0\<lparr>trace := upload_metadata w\<rparr>)
      else if MaxConcurrentUploads cfg = 0 \<and>
              list_ex (\<lambda>g. month_entry (loaded_state w) (fst g) = None)
                (GroupPhotosByYearMonth (fsys w) (new_photos cfg w))
      then Died (run0\<lparr>uploadState := loaded_state w, trace := upload_metadata w\<rparr>)
      else (case main_loop cfg w (GroupPhotosByYearMonth (fsys w) (new_photos cfg w))
                   (run0\<lparr>uploadState := loaded_state w, trace := upload_metadata w\<rparr>) of
              Panicked st \<Rightarrow> Died st
            | Returned st \<Rightarrow>
                Finished st
                  (UpdateLastUploadTime (stamp_write_err w) (finish_clock w)
                     (last_upload_file w))))"
  by (simp add: main_def new_photos_def run0_def no_months_def emit_def Let_def case_prod_beta)

lemma upload_metadata_events:
  "ev \<in> set (upload_metadata w) \<Longrightarrow>
     \<not> is_build ev \<and> (is_upload ev \<longrightarrow> ev = CallUploadToS3 metaKey metaKey)"
  by (auto simp: upload_metadata_def split: option.splits)

text \<open>
  Claim C1 (idempotent resume). The loop passes over a group whose key the upload state
  holds; when the state holds the key of every group, the loop returns and changes
  nothing; and when the loaded state holds the key of every group of the new photos, the
  run builds no archive and its only upload, if any, is that of the metadata file: its
  trace is the trace of the metadata step, and with a semaphore capacity that is not
  negative the run returns.
\<close>

theorem idempotent_resume:
  "(month_entry (uploadState st) ym \<noteq> None \<longrightarrow>
      main_loop cfg w ((ym, paths) # groups) st = main_loop cfg w groups st) \<and>
   ((\<forall>g\<in>set groups. month_entry (uploadState st) (fst g) \<noteq> None) \<longrightarrow>
      main_loop cfg w groups st = Returned st) \<and>
   ((\<forall>g\<in>set (GroupPhotosByYearMonth (fsys w) (new_photos cfg w)).
        month_entry (loaded_state w) (fst g) \<noteq> None) \<longrightarrow>
      filter is_build (trace (final (main cfg w))) = [] \<and>
      (\<forall>ev\<in>set (trace (final (main cfg w))).
         is_upload ev \<longrightarrow> ev = CallUploadToS3 metaKey metaKey) \<and>
      trace (final (main cfg w)) = (if new_photos cfg w = [] then [] else upload_metadata w) \<and>
      (0 \<le> MaxConcurrentUploads cfg \<longrightarrow>
         main cfg w = Finished (final (main cfg w)) (stamp_left w (main cfg w))))"
proof -
  have one: "month_entry (uploadState st) ym \<noteq> None \<longrightarrow>
      main_loop cfg w ((ym, paths) # groups) st = main_loop cfg w groups st"
    by simp
  have all: "(\<forall>g\<in>set groups. month_entry (uploadState st) (fst g) \<noteq> None) \<longrightarrow>
      main_loop cfg w groups st = Returned st"
    using main_loop_skip_all [of groups st cfg w] by blast
  have whole: "(\<forall>g\<in>set (GroupPhotosByYearMonth (fsys w) (new_photos cfg w)).
        month_entry (loaded_state w) (fst g) \<noteq> None) \<longrightarrow>
      filter is_build (trace (final (main cfg w))) = [] \<and>
      (\<forall>ev\<in>set (trace (final (main cfg w))).
         is_upload ev \<longrightarrow> ev = CallUploadToS3 metaKey metaKey) \<and>
      trace (final (main cfg w)) = (if new_photos cfg w = [] then [] else upload_metadata w) \<and>
      (0 \<le> MaxConcurrentUploads cfg \<longrightarrow>
         main cfg w = Finished (final (main cfg w)) (stamp_left w (main cfg w)))"
  proof
    assume led: "\<forall>g\<in>set (GroupPhotosByYearMonth (fsys w) (new_photos cfg w)).
        month_entry (loaded_state w) (fst g) \<noteq> None"
    have skip: "main_loop cfg w (GroupPhotosByYearMonth (fsys w) (new_photos cfg w))
              (run0\<lparr>uploadState := loaded_state w, trace := upload_metadata w\<rparr>) =
            Returned (run0\<lparr>uploadState := loaded_state w, trace := upload_metadata w\<rparr>)"
      by (rule main_loop_skip_all) (use led in simp)
    have full: "\<not> list_ex (\<lambda>g. month_entry (loaded_state w) (fst g) = None)
                (GroupPhotosByYearMonth (fsys w) (new_photos cfg w))"
      using led by (simp add: list_ex_iff)
    have tr: "trace (final (main cfg w)) = (if new_photos cfg w = [] then [] else upload_metadata w)"
      by (simp add: main_unfold skip full) (simp add: run0_def)
    have fin: "0 \<le> MaxConcurrentUploads cfg \<longrightarrow>
         main cfg w = Finished (final (main cfg w)) (stamp_left w (main cfg w))"
      by (simp add: main_unfold skip full)
    have "\<forall>ev\<in>set (trace (final (main cfg w))).
        \<not> is_build ev \<and> (is_upload ev \<longrightarrow> ev = CallUploadToS3 metaKey metaKey)"
      using upload_metadata_events [of _ w] by (auto simp: tr)
    then show "filter is_build (trace (final (main cfg w))) = [] \<and>
      (\<forall>ev\<in>set (trace (final (main cfg w))).
         is_upload ev \<longrightarrow> ev = CallUploadToS3 metaKey metaKey) \<and>
      trace (final (main cfg w)) = (if new_photos cfg w = [] then [] else upload_metadata w) \<and>
      (0 \<le> MaxConcurrentUploads cfg \<longrightarrow>
         main cfg w = Finished (final (main cfg w)) (stamp_left w (main cfg w)))"
      using tr fin by (auto simp: filter_empty_conv)
  qed
  from one all whole show ?thesis by blast
qed

lemma resumed_facts:
  "GroupPhotosByYearMonth (fsys resumed_world) (new_photos demo_cfg resumed_world) =
     [(''2024-03'', [''/p/a/1.JPG'', ''/p/a/2.jpg'']), (''2024-04'', [''/p/b/3.mov'', ''/p/b/4.jpg''])]"
  "month_entry (loaded_state resumed_world) ''2024-03'' = Some ''2024-03_20240420T000000.zip''"
  "month_entry (loaded_state resumed_world) ''2024-04'' = Some ''2024-04_20240420T000000.zip''"
  "new_photos demo_cfg resumed_world \<noteq> []"
  "upload_metadata resumed_world = [CallUploadToS3 metaKey metaKey]"
  by code_simp+

theorem idempotent_resume_witness:
  "map fst (GroupPhotosByYearMonth (fsys resumed_world) (new_photos demo_cfg resumed_world)) =
     [''2024-03'', ''2024-04''] \<and>
   month_entry (loaded_state resumed_world) ''2024-03'' \<noteq> None \<and>
   month_entry (loaded_state resumed_world) ''2024-04'' \<noteq> None \<and>
   filter is_build (trace (final (main demo_cfg resumed_world))) = [] \<and>
   trace (final (main demo_cfg resumed_world)) = [CallUploadToS3 metaKey metaKey]"
proof -
  have led: "\<forall>g\<in>set (GroupPhotosByYearMonth (fsys resumed_world) (new_photos demo_cfg resumed_world)).
        month_entry (loaded_state resumed_world) (fst g) \<noteq> None"
    by (simp add: resumed_facts)
  note t = idempotent_resume [where cfg = demo_cfg and w = resumed_world and st = run0
      and groups = "[]"]
  have b: "filter is_build (trace (final (main demo_cfg resumed_world))) = []"
    using t led by blast
  have "trace (final (main demo_cfg resumed_world)) =
      (if new_photos demo_cfg resumed_world = [] then [] else upload_metadata resumed_world)"
    using t led by blast
  then have tr: "trace (final (main demo_cfg resumed_world)) = [CallUploadToS3 metaKey metaKey]"
    by (simp add: resumed_facts)
  have k: "map fst (GroupPhotosByYearMonth (fsys resumed_world) (new_photos demo_cfg resumed_world)) =
     [''2024-03'', ''2024-04'']"
    by (simp add: resumed_facts)
  have m: "month_entry (loaded_state resumed_world) ''2024-03'' \<noteq> None"
    "month_entry (loaded_state resumed_world) ''2024-04'' \<noteq> None"
    by (simp_all add: resumed_facts)
  from k m b tr show ?thesis by (intro conjI)
qed

subsection \<open>Verification and completion\<close>

text \<open>
  Claim C5 (verification is advisory and skipped for cold storage classes), as the
  program behaves. For a group whose archive is built and uploaded, whatever the checksum
  functions return: the worker's events are the build, the progress steps, the upload
  attempts, the verification events and then the write of the group's entry to the map
  of the upload state; no failure counter changes. When that map is not nil the entry is
  stored, the state is saved, the progress bar updated and the archive removed, and the
  worker returns. When the map is nil (the state file had \<open>completed_months\<close> set to
  \<open>null\<close>) the write panics: the upload state holds no entry for the group, nothing is
  saved and the archive stays on disk. For a storage class whose upper-casing is GLACIER
  or DEEP_ARCHIVE the verification is one log line and no checksum is computed or
  fetched; otherwise the local checksum is computed, the remote one fetched when the
  local one succeeded, and a failure or a mismatch adds one log line at the error level.
\<close>

theorem verification_advisory:
  assumes "ZipFiles w (zip_name w ym) paths = None"
    and "snd (upload_result cfg w ym) = None"
  shows "worker_events cfg w ym paths st =
      [Acquire, CallZipFiles (zip_name w ym) paths] @ progress_events paths @
      fst (upload_result cfg w ym) @ verify cfg w (zip_name w ym) (s3_key_of cfg w ym) @
      [SetCompleted ym (zip_name w ym)] @
      (if CompletedMonths (uploadState st) = None then [Release]
       else [CallSaveUploadState statePath, Lock ProgressMu, Unlock ProgressMu,
             Remove (zip_name w ym), Release]) \<and>
    failedZips (state_of (worker cfg w ym paths st)) = failedZips st \<and>
    failedUploads (state_of (worker cfg w ym paths st)) = failedUploads st \<and>
    (CompletedMonths (uploadState st) \<noteq> None \<longrightarrow>
       \<not> panicked (worker cfg w ym paths st) \<and>
       month_entry (uploadState (state_of (worker cfg w ym paths st))) ym = Some (zip_name w ym) \<and>
       zip_name w ym \<notin> archives (state_of (worker cfg w ym paths st)) \<and>
       (create_err w statePath = None \<longrightarrow>
          saved (state_of (worker cfg w ym paths st)) =
            Some (uploadState (state_of (worker cfg w ym paths st))))) \<and>
    (CompletedMonths (uploadState st) = None \<longrightarrow>
       panicked (worker cfg w ym paths st) \<and>
       uploadState (state_of (worker cfg w ym paths st)) = uploadState st \<and>
       month_entry (uploadState (state_of (worker cfg w ym paths st))) ym = None \<and>
       saved (state_of (worker cfg w ym paths st)) = saved st \<and>
       CallSaveUploadState statePath \<notin> set (worker_events cfg w ym paths st) \<and>
       Remove (zip_name w ym) \<notin> set (worker_events cfg w ym paths st) \<and>
       (create_err w (zip_name w ym) = None \<longrightarrow>
          zip_name w ym \<in> archives (state_of (worker cfg w ym paths st)))) \<and>
    (cold w cfg \<longrightarrow>
       verify cfg w (zip_name w ym) (s3_key_of cfg w ym) =
         [Log (SkippingVerification (zip_name w ym))]) \<and>
    (\<not> cold w cfg \<and> local_sha w (zip_name w ym) = Inl e \<longrightarrow>
       verify cfg w (zip_name w ym) (s3_key_of cfg w ym) =
         [CallFileSHA256 (zip_name w ym), Log (ChecksumComputeFailed (zip_name w ym))]) \<and>
    (\<not> cold w cfg \<and> local_sha w (zip_name w ym) = Inr a \<and>
     remote_sha w (s3_key_of cfg w ym) = Inl e \<longrightarrow>
       verify cfg w (zip_name w ym) (s3_key_of cfg w ym) =
         [CallFileSHA256 (zip_name w ym), CallS3SHA256 (s3_key_of cfg w ym),
          Log (ChecksumFetchFailed (zip_name w ym))]) \<and>
    (\<not> cold w cfg \<and> local_sha w (zip_name w ym) = Inr a \<and>
     remote_sha w (s3_key_of cfg w ym) = Inr b \<longrightarrow>
       verify cfg w (zip_name w ym) (s3_key_of cfg w ym) =
         [CallFileSHA256 (zip_name w ym), CallS3SHA256 (s3_key_of cfg w ym)] @
         (if a \<noteq> b then [Log (ChecksumMismatch (zip_name w ym))] else [])) \<and>
    level_of (ChecksumComputeFailed (zip_name w ym)) = ERROR \<and>
    level_of (ChecksumFetchFailed (zip_name w ym)) = ERROR \<and>
    level_of (ChecksumMismatch (zip_name w ym)) = ERROR \<and>
    cold w cfg = (ToUpper w (StorageClass cfg) = ''GLACIER'' \<or>
                  ToUpper w (StorageClass cfg) = ''DEEP_ARCHIVE'')"
proof -
  have ev: "worker_events cfg w ym paths st =
      [Acquire, CallZipFiles (zip_name w ym) paths] @ progress_events paths @
      fst (upload_result cfg w ym) @ verify cfg w (zip_name w ym) (s3_key_of cfg w ym) @
      [SetCompleted ym (zip_name w ym)] @
      (if CompletedMonths (uploadState st) = None then [Release]
       else [CallSaveUploadState statePath, Lock ProgressMu, Unlock ProgressMu,
             Remove (zip_name w ym), Release])"
    using assms by (rule worker_events_success)
  have fz: "failedZips (state_of (worker cfg w ym paths st)) = failedZips st"
    by (cases "CompletedMonths (uploadState st)")
      (simp_all add: worker_nil_map [OF assms] worker_completed [OF assms])
  have fu: "failedUploads (state_of (worker cfg w ym paths st)) = failedUploads st"
    by (cases "CompletedMonths (uploadState st)")
      (simp_all add: worker_nil_map [OF assms] worker_completed [OF assms])
  have compl: "CompletedMonths (uploadState st) \<noteq> None \<longrightarrow>
       \<not> panicked (worker cfg w ym paths st) \<and>
       month_entry (uploadState (state_of (worker cfg w ym paths st))) ym = Some (zip_name w ym) \<and>
       zip_name w ym \<notin> archives (state_of (worker cfg w ym paths st)) \<and>
       (create_err w statePath = None \<longrightarrow>
          saved (state_of (worker cfg w ym paths st)) =
            Some (uploadState (state_of (worker cfg w ym paths st))))"
  proof
    assume "CompletedMonths (uploadState st) \<noteq> None"
    then obtain m where m: "CompletedMonths (uploadState st) = Some m" by auto
    note c = worker_completed [OF assms m]
    show "\<not> panicked (worker cfg w ym paths st) \<and>
       month_entry (uploadState (state_of (worker cfg w ym paths st))) ym = Some (zip_name w ym) \<and>
       zip_name w ym \<notin> archives (state_of (worker cfg w ym paths st)) \<and>
       (create_err w statePath = None \<longrightarrow>
          saved (state_of (worker cfg w ym paths st)) =
            Some (uploadState (state_of (worker cfg w ym paths st))))"
      by (simp add: c month_entry_def SaveUploadState_def)
  qed
  have nil: "CompletedMonths (uploadState st) = None \<longrightarrow>
       panicked (worker cfg w ym paths st) \<and>
       uploadState (state_of (worker cfg w ym paths st)) = uploadState st \<and>
       month_entry (uploadState (state_of (worker cfg w ym paths st))) ym = None \<and>
       saved (state_of (worker cfg w ym paths st)) = saved st \<and>
       CallSaveUploadState statePath \<notin> set (worker_events cfg w ym paths st) \<and>
       Remove (zip_name w ym) \<notin> set (worker_events cfg w ym paths st) \<and>
       (create_err w (zip_name w ym) = None \<longrightarrow>
          zip_name w ym \<in> archives (state_of (worker cfg w ym paths st)))"
  proof
    assume n: "CompletedMonths (uploadState st) = None"
    note c = worker_nil_map [OF assms n]
    show "panicked (worker cfg w ym paths st) \<and>
       uploadState (state_of (worker cfg w ym paths st)) = uploadState st \<and>
       month_entry (uploadState (state_of (worker cfg w ym paths st))) ym = None \<and>
       saved (state_of (worker cfg w ym paths st)) = saved st \<and>
       CallSaveUploadState statePath \<notin> set (worker_events cfg w ym paths st) \<and>
       Remove (zip_name w ym) \<notin> set (worker_events cfg w ym paths st) \<and>
       (create_err w (zip_name w ym) = None \<longrightarrow>
          zip_name w ym \<in> archives (state_of (worker cfg w ym paths st)))"
      by (simp add: c ev n month_entry_def progress_no_remove upload_no_remove verify_no_remove
          progress_no_save upload_no_save verify_no_save)
  qed
  have v1: "cold w cfg \<longrightarrow>
       verify cfg w (zip_name w ym) (s3_key_of cfg w ym) =
         [Log (SkippingVerification (zip_name w ym))]"
    by (simp add: verify_cold)
  have v2: "\<not> cold w cfg \<and> local_sha w (zip_name w ym) = Inl e \<longrightarrow>
       verify cfg w (zip_name w ym) (s3_key_of cfg w ym) =
         [CallFileSHA256 (zip_name w ym), Log (ChecksumComputeFailed (zip_name w ym))]"
    by (simp add: verify_warm)
  have v3: "\<not> cold w cfg \<and> local_sha w (zip_name w ym) = Inr a \<and>
     remote_sha w (s3_key_of cfg w ym) = Inl e \<longrightarrow>
       verify cfg w (zip_name w ym) (s3_key_of cfg w ym) =
         [CallFileSHA256 (zip_name w ym), CallS3SHA256 (s3_key_of cfg w ym),
          Log (ChecksumFetchFailed (zip_name w ym))]"
    by (simp add: verify_warm)
  have v4: "\<not> cold w cfg \<and> local_sha w (zip_name w ym) = Inr a \<and>
     remote_sha w (s3_key_of cfg w ym) = Inr b \<longrightarrow>
       verify cfg w (zip_name w ym) (s3_key_of cfg w ym) =
         [CallFileSHA256 (zip_name w ym), CallS3SHA256 (s3_key_of cfg w ym)] @
         (if a \<noteq> b then [Log (ChecksumMismatch (zip_name w ym))] else [])"
    by (simp add: verify_warm)
  have lv: "level_of (ChecksumComputeFailed (zip_name w ym)) = ERROR"
    "level_of (ChecksumFetchFailed (zip_name w ym)) = ERROR"
    "level_of (ChecksumMismatch (zip_name w ym)) = ERROR"
    by simp_all
  have cs: "cold w cfg = (ToUpper w (StorageClass cfg) = ''GLACIER'' \<or>
                  ToUpper w (StorageClass cfg) = ''DEEP_ARCHIVE'')"
    by (simp add: cold_def)
  from ev fz fu compl nil v1 v2 v3 v4 lv cs show ?thesis by (intro conjI)
qed

lemma mismatch_facts:
  "ZipFiles mismatch_world (zip_name mismatch_world ''2024-03'') [''/p/a/1.JPG'', ''/p/a/2.jpg''] = None"
  "snd (upload_result demo_cfg mismatch_world ''2024-03'') = None"
  "\<not> cold mismatch_world demo_cfg"
  "local_sha mismatch_world (zip_name mismatch_world ''2024-03'') = Inr ''ab12''"
  "remote_sha mismatch_world (s3_key_of demo_cfg mismatch_world ''2024-03'') = Inr ''ffff''"
  "zip_name mismatch_world ''2024-03'' = ''2024-03_20240501T000000.zip''"
  "s3_key_of demo_cfg mismatch_world ''2024-03'' = ''2024/2024-03_20240501T000000.zip''"
  by code_simp+

lemma cold_facts:
  "ZipFiles demo_world (zip_name demo_world ''2024-03'') [''/p/a/1.JPG'', ''/p/a/2.jpg''] = None"
  "snd (upload_result cold_cfg demo_world ''2024-03'') = None"
  "cold demo_world cold_cfg"
  by code_simp+

lemma demo_facts:
  "ZipFiles demo_world (zip_name demo_world ''2024-03'') [''/p/a/1.JPG'', ''/p/a/2.jpg''] = None"
  "snd (upload_result demo_cfg demo_world ''2024-03'') = None"
  "create_err demo_world (zip_name demo_world ''2024-03'') = None"
  "zip_name demo_world ''2024-03'' = ''2024-03_20240501T000000.zip''"
  "upload_err demo_world (s3_key_of demo_cfg demo_world ''2024-03'') 1 = None"
  by code_simp+

lemma run0_map: "CompletedMonths (uploadState run0) \<noteq> None"
  by (simp add: run0_def no_months_def)

lemma nil_run_map: "CompletedMonths (uploadState (run0\<lparr>uploadState := nil_months\<rparr>)) = None"
  by (simp add: nil_months_def)

lemma null_loaded: "loaded_state null_world = nil_months"
  by (simp add: loaded_state_def LoadUploadState_def null_world_def demo_world_def
      demo_decode_def nil_months_def)

lemma null_run:
  "GroupPhotosByYearMonth (fsys null_world) (new_photos demo_cfg null_world) =
     [(''2024-03'', [''/p/a/1.JPG'', ''/p/a/2.jpg'']), (''2024-04'', [''/p/b/3.mov'', ''/p/b/4.jpg''])]"
  "snd (upload_result demo_cfg null_world ''2024-03'') = None"
  "died (main demo_cfg null_world)"
  "stamp_left null_world (main demo_cfg null_world) = Unreadable"
  "month_entry (uploadState (final (main demo_cfg null_world))) ''2024-03'' = None"
  "saved (final (main demo_cfg null_world)) = None"
  "filter is_upload (trace (final (main demo_cfg null_world))) =
     [CallUploadToS3 metaKey metaKey,
      CallUploadToS3 ''2024/2024-03_20240501T000000.zip'' ''2024-03_20240501T000000.zip'']"
  by code_simp+

theorem verification_advisory_witness:
  "ZipFiles mismatch_world (zip_name mismatch_world ''2024-03'') [''/p/a/1.JPG'', ''/p/a/2.jpg''] = None \<and>
   snd (upload_result demo_cfg mismatch_world ''2024-03'') = None \<and>
   \<not> cold mismatch_world demo_cfg \<and>
   local_sha mismatch_world (zip_name mismatch_world ''2024-03'') = Inr ''ab12'' \<and>
   remote_sha mismatch_world (s3_key_of demo_cfg mismatch_world ''2024-03'') = Inr ''ffff'' \<and>
   verify demo_cfg mismatch_world (zip_name mismatch_world ''2024-03'')
       (s3_key_of demo_cfg mismatch_world ''2024-03'') =
     [CallFileSHA256 ''2024-03_20240501T000000.zip'',
      CallS3SHA256 ''2024/2024-03_20240501T000000.zip'',
      Log (ChecksumMismatch ''2024-03_20240501T000000.zip'')] \<and>
   CompletedMonths (uploadState run0) \<noteq> None \<and>
   \<not> panicked (worker demo_cfg mismatch_world ''2024-03'' [''/p/a/1.JPG'', ''/p/a/2.jpg''] run0) \<and>
   month_entry (uploadState (state_of (worker demo_cfg mismatch_world ''2024-03''
       [''/p/a/1.JPG'', ''/p/a/2.jpg''] run0))) ''2024-03'' = Some ''2024-03_20240501T000000.zip'' \<and>
   ''2024-03_20240501T000000.zip'' \<notin> archives (state_of (worker demo_cfg mismatch_world ''2024-03''
       [''/p/a/1.JPG'', ''/p/a/2.jpg''] run0)) \<and>
   ZipFiles demo_world (zip_name demo_world ''2024-03'') [''/p/a/1.JPG'', ''/p/a/2.jpg''] = None \<and>
   snd (upload_result cold_cfg demo_world ''2024-03'') = None \<and>
   cold demo_world cold_cfg \<and>
   verify cold_cfg demo_world (zip_name demo_world ''2024-03'')
       (s3_key_of cold_cfg demo_world ''2024-03'') =
     [Log (SkippingVerification (zip_name demo_world ''2024-03''))] \<and>
   month_entry (uploadState (state_of (worker cold_cfg demo_world ''2024-03''
       [''/p/a/1.JPG'', ''/p/a/2.jpg''] run0))) ''2024-03'' = Some (zip_name demo_world ''2024-03'') \<and>
   snd (upload_result demo_cfg demo_world ''2024-03'') = None \<and>
   CompletedMonths (uploadState (run0\<lparr>uploadState := nil_months\<rparr>)) = None \<and>
   panicked (worker demo_cfg demo_world ''2024-03'' [''/p/a/1.JPG'', ''/p/a/2.jpg'']
       (run0\<lparr>uploadState := nil_months\<rparr>)) \<and>
   month_entry (uploadState (state_of (worker demo_cfg demo_world ''2024-03''
       [''/p/a/1.JPG'', ''/p/a/2.jpg''] (run0\<lparr>uploadState := nil_months\<rparr>)))) ''2024-03'' = None \<and>
   create_err demo_world (zip_name demo_world ''2024-03'') = None \<and>
   ''2024-03_20240501T000000.zip'' \<in> archives (state_of (worker demo_cfg demo_world ''2024-03''
       [''/p/a/1.JPG'', ''/p/a/2.jpg''] (run0\<lparr>uploadState := nil_months\<rparr>))) \<and>
   loaded_state null_world = nil_months \<and>
   snd (upload_result demo_cfg null_world ''2024-03'') = None \<and>
   died (main demo_cfg null_world) \<and>
   stamp_left null_world (main demo_cfg null_world) = Unreadable \<and>
   month_entry (uploadState (final (main demo_cfg null_world))) ''2024-03'' = None \<and>
   saved (final (main demo_cfg null_world)) = None \<and>
   filter is_upload (trace (final (main demo_cfg null_world))) =
     [CallUploadToS3 metaKey metaKey,
      CallUploadToS3 ''2024/2024-03_20240501T000000.zip'' ''2024-03_20240501T000000.zip'']"
proof -
  note m = verification_advisory [OF mismatch_facts(1,2), where st = run0 and a = "''ab12''"
      and b = "''ffff''"]
  note c = verification_advisory [OF cold_facts(1,2), where st = run0]
  note n = verification_advisory [OF demo_facts(1,2), where st = "run0\<lparr>uploadState := nil_months\<rparr>"]
  have "verify demo_cfg mismatch_world (zip_name mismatch_world ''2024-03'')
       (s3_key_of demo_cfg mismatch_world ''2024-03'') =
     [CallFileSHA256 (zip_name mismatch_world ''2024-03''),
      CallS3SHA256 (s3_key_of demo_cfg mismatch_world ''2024-03'')] @
     (if ''ab12'' \<noteq> ''ffff'' then [Log (ChecksumMismatch (zip_name mismatch_world ''2024-03''))]
      else [])"
    using m mismatch_facts(3,4,5) by blast
  then have v: "verify demo_cfg mismatch_world (zip_name mismatch_world ''2024-03'')
       (s3_key_of demo_cfg mismatch_world ''2024-03'') =
     [CallFileSHA256 ''2024-03_20240501T000000.zip'',
      CallS3SHA256 ''2024/2024-03_20240501T000000.zip'',
      Log (ChecksumMismatch ''2024-03_20240501T000000.zip'')]"
    by (simp add: mismatch_facts(6,7))
  have p: "\<not> panicked (worker demo_cfg mismatch_world ''2024-03'' [''/p/a/1.JPG'', ''/p/a/2.jpg''] run0)"
    using m run0_map by blast
  have "month_entry (uploadState (state_of (worker demo_cfg mismatch_world ''2024-03''
       [''/p/a/1.JPG'', ''/p/a/2.jpg''] run0))) ''2024-03'' = Some (zip_name mismatch_world ''2024-03'')"
    using m run0_map by blast
  then have l: "month_entry (uploadState (state_of (worker demo_cfg mismatch_world ''2024-03''
       [''/p/a/1.JPG'', ''/p/a/2.jpg''] run0))) ''2024-03'' = Some ''2024-03_20240501T000000.zip''"
    by (simp add: mismatch_facts(6))
  have "zip_name mismatch_world ''2024-03'' \<notin> archives (state_of (worker demo_cfg mismatch_world
       ''2024-03'' [''/p/a/1.JPG'', ''/p/a/2.jpg''] run0))"
    using m run0_map by blast
  then have g: "''2024-03_20240501T000000.zip'' \<notin> archives (state_of (worker demo_cfg mismatch_world
       ''2024-03'' [''/p/a/1.JPG'', ''/p/a/2.jpg''] run0))"
    by (simp add: mismatch_facts(6))
  have cv: "verify cold_cfg demo_world (zip_name demo_world ''2024-03'')
       (s3_key_of cold_cfg demo_world ''2024-03'') =
     [Log (SkippingVerification (zip_name demo_world ''2024-03''))]"
    using c cold_facts(3) by blast
  have cl: "month_entry (uploadState (state_of (worker cold_cfg demo_world ''2024-03''
       [''/p/a/1.JPG'', ''/p/a/2.jpg''] run0))) ''2024-03'' = Some (zip_name demo_world ''2024-03'')"
    using c run0_map by blast
  have np: "panicked (worker demo_cfg demo_world ''2024-03'' [''/p/a/1.JPG'', ''/p/a/2.jpg'']
       (run0\<lparr>uploadState := nil_months\<rparr>))"
    using n nil_run_map by blast
  have nl: "month_entry (uploadState (state_of (worker demo_cfg demo_world ''2024-03''
       [''/p/a/1.JPG'', ''/p/a/2.jpg''] (run0\<lparr>uploadState := nil_months\<rparr>)))) ''2024-03'' = None"
    using n nil_run_map by blast
  have "zip_name demo_world ''2024-03'' \<in> archives (state_of (worker demo_cfg demo_world ''2024-03''
       [''/p/a/1.JPG'', ''/p/a/2.jpg''] (run0\<lparr>uploadState := nil_months\<rparr>)))"
    using n nil_run_map demo_facts(3) by blast
  then have na: "''2024-03_20240501T000000.zip'' \<in> archives (state_of (worker demo_cfg demo_world
       ''2024-03'' [''/p/a/1.JPG'', ''/p/a/2.jpg''] (run0\<lparr>uploadState := nil_months\<rparr>)))"
    by (simp add: demo_facts(4))
  from mismatch_facts(1,2,3,4,5) v run0_map p l g cold_facts cv cl demo_facts(2) nil_run_map np nl
    demo_facts(3) na null_loaded null_run(2,3,4,5,6,7)
  show ?thesis by (intro conjI)
qed

subsection \<open>Locks held at the shared writes\<close>

lemma locks_at_free:
  "\<forall>e\<in>set a. \<not> lock_op e \<Longrightarrow> locks_at h (a @ b) = map (\<lambda>e. (e, h)) a @ locks_at h b"
proof (induction a)
  case Nil
  then show ?case by simp
next
  case (Cons e a)
  then show ?case by (cases e) auto
qed

lemma locks_at_progress:
  "locks_at [] (progress_events paths @ b) =
     concat (map (\<lambda>f. [(Lock ProgressMu, []), (IncFileProgress, [ProgressMu]),
                        (Unlock ProgressMu, [ProgressMu])]) paths) @ locks_at [] b"
  by (induction paths) (simp_all add: progress_events_def)

lemma retry_not_lock: "retry_event e \<Longrightarrow> \<not> lock_op e"
  by (cases e) auto

lemma upload_result_lock_free: "\<forall>e\<in>set (fst (upload_result cfg w ym)). \<not> lock_op e"
  using upload_loop_events [of w "s3_key_of cfg w ym" "zip_name w ym" 1 None]
  by (auto simp: upload_result_def dest: retry_not_lock)

lemma verify_lock_free: "\<forall>e\<in>set (verify cfg w z k). \<not> lock_op e"
  by (auto simp: verify_def Let_def split: sum.splits)

lemma locks_at_worker_prefix:
  assumes "\<forall>e\<in>set u. \<not> lock_op e"
  shows "set (locks_at [] rest) \<subseteq>
    set (locks_at [] ([Acquire, CallZipFiles z paths] @ progress_events paths @ u @ rest))"
  by (auto simp: locks_at_progress locks_at_free [OF assms])

text \<open>
  Claim C2 (ledger write discipline), as the program behaves. A worker whose archive is
  built and uploaded executes the write of the upload state holding no mutex. When the
  map of the upload state is not nil, its very next step saves the state, again with no
  mutex held; when the map is nil the write panics and nothing is saved. The failure
  counters, in contrast, are written with \<open>mu\<close> held.
\<close>

theorem ledger_write_without_lock:
  "(ZipFiles w (zip_name w ym) paths = None \<and> snd (upload_result cfg w ym) = None \<longrightarrow>
      (SetCompleted ym (zip_name w ym), []) \<in> set (locks_at [] (worker_events cfg w ym paths st)) \<and>
      (CompletedMonths (uploadState st) \<noteq> None \<longrightarrow>
         (CallSaveUploadState statePath, []) \<in>
            set (locks_at [] (worker_events cfg w ym paths st)) \<and>
         (\<exists>pre post. worker_events cfg w ym paths st =
            pre @ [SetCompleted ym (zip_name w ym), CallSaveUploadState statePath] @ post)) \<and>
      (CompletedMonths (uploadState st) = None \<longrightarrow>
         panicked (worker cfg w ym paths st) \<and>
         (\<exists>pre. worker_events cfg w ym paths st =
            pre @ [SetCompleted ym (zip_name w ym), Release]))) \<and>
   (ZipFiles w (zip_name w ym) paths = Some e \<longrightarrow>
      (IncFailedZips, [Mu]) \<in> set (locks_at [] (worker_events cfg w ym paths st))) \<and>
   (ZipFiles w (zip_name w ym) paths = None \<and> snd (upload_result cfg w ym) = Some e \<longrightarrow>
      (IncFailedUploads, [Mu]) \<in> set (locks_at [] (worker_events cfg w ym paths st)))"
proof -
  have compl: "ZipFiles w (zip_name w ym) paths = None \<and> snd (upload_result cfg w ym) = None \<longrightarrow>
      (SetCompleted ym (zip_name w ym), []) \<in> set (locks_at [] (worker_events cfg w ym paths st)) \<and>
      (CompletedMonths (uploadState st) \<noteq> None \<longrightarrow>
         (CallSaveUploadState statePath, []) \<in>
            set (locks_at [] (worker_events cfg w ym paths st)) \<and>
         (\<exists>pre post. worker_events cfg w ym paths st =
            pre @ [SetCompleted ym (zip_name w ym), CallSaveUploadState statePath] @ post)) \<and>
      (CompletedMonths (uploadState st) = None \<longrightarrow>
         panicked (worker cfg w ym paths st) \<and>
         (\<exists>pre. worker_events cfg w ym paths st =
            pre @ [SetCompleted ym (zip_name w ym), Release]))"
  proof
    assume a: "ZipFiles w (zip_name w ym) paths = None \<and> snd (upload_result cfg w ym) = None"
    define u where "u = fst (upload_result cfg w ym) @ verify cfg w (zip_name w ym) (s3_key_of cfg w ym)"
    define rest where "rest = SetCompleted ym (zip_name w ym) #
       (if CompletedMonths (uploadState st) = None then [Release]
        else [CallSaveUploadState statePath, Lock ProgressMu, Unlock ProgressMu,
              Remove (zip_name w ym), Release])"
    have ev: "worker_events cfg w ym paths st =
        [Acquire, CallZipFiles (zip_name w ym) paths] @ progress_events paths @ u @ rest"
      using a by (simp add: worker_events_success u_def rest_def)
    have free: "\<forall>e\<in>set u. \<not> lock_op e"
      using upload_result_lock_free [of cfg w ym]
        verify_lock_free [of cfg w "zip_name w ym" "s3_key_of cfg w ym"]
      by (auto simp: u_def)
    have sub: "set (locks_at [] rest) \<subseteq> set (locks_at [] (worker_events cfg w ym paths st))"
      unfolding ev using free by (rule locks_at_worker_prefix)
    have "(SetCompleted ym (zip_name w ym), []) \<in> set (locks_at [] rest)"
      by (simp add: rest_def)
    with sub have wr: "(SetCompleted ym (zip_name w ym), []) \<in>
        set (locks_at [] (worker_events cfg w ym paths st))"
      by auto
    have some: "CompletedMonths (uploadState st) \<noteq> None \<longrightarrow>
         (CallSaveUploadState statePath, []) \<in>
            set (locks_at [] (worker_events cfg w ym paths st)) \<and>
         (\<exists>pre post. worker_events cfg w ym paths st =
            pre @ [SetCompleted ym (zip_name w ym), CallSaveUploadState statePath] @ post)"
    proof
      assume n: "CompletedMonths (uploadState st) \<noteq> None"
      then have "(CallSaveUploadState statePath, []) \<in> set (locks_at [] rest)"
        by (simp add: rest_def)
      with sub have sv: "(CallSaveUploadState statePath, []) \<in>
          set (locks_at [] (worker_events cfg w ym paths st))"
        by auto
      have "worker_events cfg w ym paths st =
          ([Acquire, CallZipFiles (zip_name w ym) paths] @ progress_events paths @ u) @
          [SetCompleted ym (zip_name w ym), CallSaveUploadState statePath] @
          [Lock ProgressMu, Unlock ProgressMu, Remove (zip_name w ym), Release]"
        using n by (simp add: ev rest_def)
      then have "\<exists>pre post. worker_events cfg w ym paths st =
           pre @ [SetCompleted ym (zip_name w ym), CallSaveUploadState statePath] @ post"
        by blast
      with sv show "(CallSaveUploadState statePath, []) \<in>
            set (locks_at [] (worker_events cfg w ym paths st)) \<and>
         (\<exists>pre post. worker_events cfg w ym paths st =
            pre @ [SetCompleted ym (zip_name w ym), CallSaveUploadState statePath] @ post)"
        by (intro conjI)
    qed
    have none: "CompletedMonths (uploadState st) = None \<longrightarrow>
         panicked (worker cfg w ym paths st) \<and>
         (\<exists>pre. worker_events cfg w ym paths st =
            pre @ [SetCompleted ym (zip_name w ym), Release])"
    proof
      assume n: "CompletedMonths (uploadState st) = None"
      have p: "panicked (worker cfg w ym paths st)"
        using a n by (simp add: worker_nil_map)
      have "worker_events cfg w ym paths st =
          ([Acquire, CallZipFiles (zip_name w ym) paths] @ progress_events paths @ u) @
          [SetCompleted ym (zip_name w ym), Release]"
        using n by (simp add: ev rest_def)
      then have "\<exists>pre. worker_events cfg w ym paths st =
            pre @ [SetCompleted ym (zip_name w ym), Release]"
        by blast
      with p show "panicked (worker cfg w ym paths st) \<and>
         (\<exists>pre. worker_events cfg w ym paths st =
            pre @ [SetCompleted ym (zip_name w ym), Release])"
        by (intro conjI)
    qed
    from wr some none
    show "(SetCompleted ym (zip_name w ym), []) \<in> set (locks_at [] (worker_events cfg w ym paths st)) \<and>
      (CompletedMonths (uploadState st) \<noteq> None \<longrightarrow>
         (CallSaveUploadState statePath, []) \<in>
            set (locks_at [] (worker_events cfg w ym paths st)) \<and>
         (\<exists>pre post. worker_events cfg w ym paths st =
            pre @ [SetCompleted ym (zip_name w ym), CallSaveUploadState statePath] @ post)) \<and>
      (CompletedMonths (uploadState st) = None \<longrightarrow>
         panicked (worker cfg w ym paths st) \<and>
         (\<exists>pre. worker_events cfg w ym paths st =
            pre @ [SetCompleted ym (zip_name w ym), Release]))"
      by (intro conjI)
  qed
  have zf: "ZipFiles w (zip_name w ym) paths = Some e \<longrightarrow>
      (IncFailedZips, [Mu]) \<in> set (locks_at [] (worker_events cfg w ym paths st))"
    by (simp add: worker_events_zip_failed)
  have uf: "ZipFiles w (zip_name w ym) paths = None \<and> snd (upload_result cfg w ym) = Some e \<longrightarrow>
      (IncFailedUploads, [Mu]) \<in> set (locks_at [] (worker_events cfg w ym paths st))"
  proof
    assume a: "ZipFiles w (zip_name w ym) paths = None \<and> snd (upload_result cfg w ym) = Some e"
    define rest where "rest = [Log (UploadFailed (zip_name w ym)), Lock Mu, IncFailedUploads,
       Unlock Mu, Release]"
    have ev: "worker_events cfg w ym paths st =
        [Acquire, CallZipFiles (zip_name w ym) paths] @ progress_events paths @
        fst (upload_result cfg w ym) @ rest"
      using a by (simp add: worker_events_upload_failed rest_def)
    have sub: "set (locks_at [] rest) \<subseteq> set (locks_at [] (worker_events cfg w ym paths st))"
      unfolding ev using upload_result_lock_free [of cfg w ym] by (rule locks_at_worker_prefix)
    have "(IncFailedUploads, [Mu]) \<in> set (locks_at [] rest)"
      by (simp add: rest_def)
    with sub show "(IncFailedUploads, [Mu]) \<in> set (locks_at [] (worker_events cfg w ym paths st))"
      by auto
  qed
  from compl zf uf show ?thesis by (intro conjI)
qed

lemma offline_facts:
  "ZipFiles offline_world (zip_name offline_world ''2024-03'') [''/p/a/1.JPG'', ''/p/a/2.jpg''] = None"
  "snd (upload_result demo_cfg offline_world ''2024-03'') = Some (Err ''timeout'')"
  "upload_err offline_world (s3_key_of demo_cfg offline_world ''2024-03'') 1 = Some (Err ''timeout'')"
  "upload_err offline_world (s3_key_of demo_cfg offline_world ''2024-03'') 2 = Some (Err ''timeout'')"
  "upload_err offline_world (s3_key_of demo_cfg offline_world ''2024-03'') 3 = Some (Err ''timeout'')"
  "create_err offline_world (zip_name offline_world ''2024-03'') = None"
  by code_simp+

theorem ledger_write_without_lock_witness:
  "ZipFiles demo_world (zip_name demo_world ''2024-03'') [''/p/a/1.JPG'', ''/p/a/2.jpg''] = None \<and>
   snd (upload_result demo_cfg demo_world ''2024-03'') = None \<and>
   CompletedMonths (uploadState run0) \<noteq> None \<and>
   (SetCompleted ''2024-03'' (zip_name demo_world ''2024-03''), []) \<in>
     set (locks_at [] (worker_events demo_cfg demo_world ''2024-03''
            [''/p/a/1.JPG'', ''/p/a/2.jpg''] run0)) \<and>
   (CallSaveUploadState statePath, []) \<in>
     set (locks_at [] (worker_events demo_cfg demo_world ''2024-03''
            [''/p/a/1.JPG'', ''/p/a/2.jpg''] run0)) \<and>
   ZipFiles offline_world (zip_name offline_world ''2024-03'') [''/p/a/1.JPG'', ''/p/a/2.jpg''] = None \<and>
   snd (upload_result demo_cfg offline_world ''2024-03'') = Some (Err ''timeout'') \<and>
   (IncFailedUploads, [Mu]) \<in>
     set (locks_at [] (worker_events demo_cfg offline_world ''2024-03''
            [''/p/a/1.JPG'', ''/p/a/2.jpg''] run0)) \<and>
   CompletedMonths (uploadState (run0\<lparr>uploadState := nil_months\<rparr>)) = None \<and>
   (SetCompleted ''2024-03'' (zip_name demo_world ''2024-03''), []) \<in>
     set (locks_at [] (worker_events demo_cfg demo_world ''2024-03''
            [''/p/a/1.JPG'', ''/p/a/2.jpg''] (run0\<lparr>uploadState := nil_months\<rparr>))) \<and>
   panicked (worker demo_cfg demo_world ''2024-03'' [''/p/a/1.JPG'', ''/p/a/2.jpg'']
       (run0\<lparr>uploadState := nil_months\<rparr>))"
proof -
  note d = ledger_write_without_lock [where w = demo_world and cfg = demo_cfg
      and ym = "''2024-03''" and paths = "[''/p/a/1.JPG'', ''/p/a/2.jpg'']" and st = run0]
  note f = ledger_write_without_lock [where w = offline_world and cfg = demo_cfg
      and ym = "''2024-03''" and paths = "[''/p/a/1.JPG'', ''/p/a/2.jpg'']" and st = run0
      and e = "Err ''timeout''"]
  note n = ledger_write_without_lock [where w = demo_world and cfg = demo_cfg
      and ym = "''2024-03''" and paths = "[''/p/a/1.JPG'', ''/p/a/2.jpg'']"
      and st = "run0\<lparr>uploadState := nil_months\<rparr>"]
  have a: "(SetCompleted ''2024-03'' (zip_name demo_world ''2024-03''), []) \<in>
     set (locks_at [] (worker_events demo_cfg demo_world ''2024-03''
            [''/p/a/1.JPG'', ''/p/a/2.jpg''] run0))"
    using d demo_facts(1,2) by blast
  have b: "(CallSaveUploadState statePath, []) \<in>
     set (locks_at [] (worker_events demo_cfg demo_world ''2024-03''
            [''/p/a/1.JPG'', ''/p/a/2.jpg''] run0))"
    using d demo_facts(1,2) run0_map by blast
  have c: "(IncFailedUploads, [Mu]) \<in>
     set (locks_at [] (worker_events demo_cfg offline_world ''2024-03''
            [''/p/a/1.JPG'', ''/p/a/2.jpg''] run0))"
    using f offline_facts(1,2) by blast
  have na: "(SetCompleted ''2024-03'' (zip_name demo_world ''2024-03''), []) \<in>
     set (locks_at [] (worker_events demo_cfg demo_world ''2024-03''
            [''/p/a/1.JPG'', ''/p/a/2.jpg''] (run0\<lparr>uploadState := nil_months\<rparr>)))"
    using n demo_facts(1,2) by blast
  have np: "panicked (worker demo_cfg demo_world ''2024-03'' [''/p/a/1.JPG'', ''/p/a/2.jpg'']
       (run0\<lparr>uploadState := nil_months\<rparr>))"
    using n demo_facts(1,2) nil_run_map by blast
  from demo_facts(1,2) run0_map a b offline_facts(1,2) c nil_run_map na np
  show ?thesis by (intro conjI)
qed

subsection \<open>Retry bound and backoff\<close>

text \<open>
  Claim C4 (retry bound and backoff), as amended. The retry loop calls the uploader at
  most three times, and it sleeps after every failed call and after no successful one:
  when the first call succeeds it does not sleep; when the first fails and the second
  succeeds it sleeps 1 second; when the first two fail and the third succeeds it sleeps
  1 and 2 seconds; in these cases it reports success. When all three calls fail it sleeps
  1, 2 and then 3 seconds, the last sleep after the final attempt, and reports the last
  error. After a successful loop the worker changes no failure counter and, when the map
  of the upload state is not nil, returns with the group recorded; when that map is nil
  it panics and the group is not recorded. After a failed loop it returns with one added
  to \<open>failedUploads\<close>, leaves the upload state and the state file as they were, and
  does not remove the archive.
\<close>

theorem upload_retry_behaviour:
  "length (filter is_upload (fst (upload_result cfg w ym))) \<le> 3 \<and>
   (upload_err w k 1 = None \<longrightarrow>
      upload_loop w k z 1 None = ([CallUploadToS3 k z], None) \<and>
      sleeps (fst (upload_loop w k z 1 None)) = []) \<and>
   (upload_err w k 1 = Some e1 \<and> upload_err w k 2 = None \<longrightarrow>
      upload_loop w k z 1 None =
        ([CallUploadToS3 k z, Log (UploadAttemptFailed 1 z), Sleep 1,
          CallUploadToS3 k z], None) \<and>
      sleeps (fst (upload_loop w k z 1 None)) = [1]) \<and>
   (upload_err w k 1 = Some e1 \<and> upload_err w k 2 = Some e2 \<and> upload_err w k 3 = None \<longrightarrow>
      upload_loop w k z 1 None =
        ([CallUploadToS3 k z, Log (UploadAttemptFailed 1 z), Sleep 1,
          CallUploadToS3 k z, Log (UploadAttemptFailed 2 z), Sleep 2,
          CallUploadToS3 k z], None) \<and>
      sleeps (fst (upload_loop w k z 1 None)) = [1, 2]) \<and>
   (upload_err w k 1 = Some e1 \<and> upload_err w k 2 = Some e2 \<and> upload_err w k 3 = Some e3 \<longrightarrow>
      upload_loop w k z 1 None =
        ([CallUploadToS3 k z, Log (UploadAttemptFailed 1 z), Sleep 1,
          CallUploadToS3 k z, Log (UploadAttemptFailed 2 z), Sleep 2,
          CallUploadToS3 k z, Log (UploadAttemptFailed 3 z), Sleep 3], Some e3) \<and>
      sleeps (fst (upload_loop w k z 1 None)) = [1, 2, 3]) \<and>
   (ZipFiles w (zip_name w ym) paths = None \<and> snd (upload_result cfg w ym) = None \<longrightarrow>
      failedUploads (state_of (worker cfg w ym paths st)) = failedUploads st \<and>
      failedZips (state_of (worker cfg w ym paths st)) = failedZips st \<and>
      (CompletedMonths (uploadState st) \<noteq> None \<longrightarrow>
         \<not> panicked (worker cfg w ym paths st) \<and>
         month_entry (uploadState (state_of (worker cfg w ym paths st))) ym =
           Some (zip_name w ym)) \<and>
      (CompletedMonths (uploadState st) = None \<longrightarrow>
         panicked (worker cfg w ym paths st) \<and>
         month_entry (uploadState (state_of (worker cfg w ym paths st))) ym = None)) \<and>
   (ZipFiles w (zip_name w ym) paths = None \<and> snd (upload_result cfg w ym) = Some e \<longrightarrow>
      \<not> panicked (worker cfg w ym paths st) \<and>
      failedUploads (state_of (worker cfg w ym paths st)) = failedUploads st + 1 \<and>
      failedZips (state_of (worker cfg w ym paths st)) = failedZips st \<and>
      uploadState (state_of (worker cfg w ym paths st)) = uploadState st \<and>
      saved (state_of (worker cfg w ym paths st)) = saved st \<and>
      Remove (zip_name w ym) \<notin> set (worker_events cfg w ym paths st) \<and>
      (create_err w (zip_name w ym) = None \<longrightarrow>
         zip_name w ym \<in> archives (state_of (worker cfg w ym paths st))))"
proof -
  have bound: "length (filter is_upload (fst (upload_result cfg w ym))) \<le> 3"
    using upload_loop_attempts [of w "s3_key_of cfg w ym" "zip_name w ym" 1 None]
    by (simp add: upload_result_def)
  have first: "upload_err w k 1 = None \<longrightarrow>
      upload_loop w k z 1 None = ([CallUploadToS3 k z], None) \<and>
      sleeps (fst (upload_loop w k z 1 None)) = []"
  proof
    assume "upload_err w k 1 = None"
    then have u: "upload_loop w k z 1 None = ([CallUploadToS3 k z], None)"
      by (rule upload_loop_first)
    show "upload_loop w k z 1 None = ([CallUploadToS3 k z], None) \<and>
      sleeps (fst (upload_loop w k z 1 None)) = []"
      unfolding u by (simp only: fst_conv sleeps_first simp_thms)
  qed
  have second: "upload_err w k 1 = Some e1 \<and> upload_err w k 2 = None \<longrightarrow>
      upload_loop w k z 1 None =
        ([CallUploadToS3 k z, Log (UploadAttemptFailed 1 z), Sleep 1,
          CallUploadToS3 k z], None) \<and>
      sleeps (fst (upload_loop w k z 1 None)) = [1]"
  proof (intro impI, elim conjE)
    assume "upload_err w k 1 = Some e1" "upload_err w k 2 = None"
    then have u: "upload_loop w k z 1 None =
        ([CallUploadToS3 k z, Log (UploadAttemptFailed 1 z), Sleep 1,
          CallUploadToS3 k z], None)"
      by (rule upload_loop_second)
    show "upload_loop w k z 1 None =
        ([CallUploadToS3 k z, Log (UploadAttemptFailed 1 z), Sleep 1,
          CallUploadToS3 k z], None) \<and>
      sleeps (fst (upload_loop w k z 1 None)) = [1]"
      unfolding u by (simp only: fst_conv sleeps_second simp_thms)
  qed
  have third: "upload_err w k 1 = Some e1 \<and> upload_err w k 2 = Some e2 \<and> upload_err w k 3 = None \<longrightarrow>
      upload_loop w k z 1 None =
        ([CallUploadToS3 k z, Log (UploadAttemptFailed 1 z), Sleep 1,
          CallUploadToS3 k z, Log (UploadAttemptFailed 2 z), Sleep 2,
          CallUploadToS3 k z], None) \<and>
      sleeps (fst (upload_loop w k z 1 None)) = [1, 2]"
  proof (intro impI, elim conjE)
    assume "upload_err w k 1 = Some e1" "upload_err w k 2 = Some e2" "upload_err w k 3 = None"
    then have u: "upload_loop w k z 1 None =
        ([CallUploadToS3 k z, Log (UploadAttemptFailed 1 z), Sleep 1,
          CallUploadToS3 k z, Log (UploadAttemptFailed 2 z), Sleep 2,
          CallUploadToS3 k z], None)"
      by (rule upload_loop_third)
    show "upload_loop w k z 1 None =
        ([CallUploadToS3 k z, Log (UploadAttemptFailed 1 z), Sleep 1,
          CallUploadToS3 k z, Log (UploadAttemptFailed 2 z), Sleep 2,
          CallUploadToS3 k z], None) \<and>
      sleeps (fst (upload_loop w k z 1 None)) = [1, 2]"
      unfolding u by (simp only: fst_conv sleeps_third simp_thms)
  qed
  have exhausted: "upload_err w k 1 = Some e1 \<and> upload_err w k 2 = Some e2 \<and> upload_err w k 3 = Some e3 \<longrightarrow>
      upload_loop w k z 1 None =
        ([CallUploadToS3 k z, Log (UploadAttemptFailed 1 z), Sleep 1,
          CallUploadToS3 k z, Log (UploadAttemptFailed 2 z), Sleep 2,
          CallUploadToS3 k z, Log (UploadAttemptFailed 3 z), Sleep 3], Some e3) \<and>
      sleeps (fst (upload_loop w k z 1 None)) = [1, 2, 3]"
  proof (intro impI, elim conjE)
    assume "upload_err w k 1 = Some e1" "upload_err w k 2 = Some e2" "upload_err w k 3 = Some e3"
    then have u: "upload_loop w k z 1 None =
        ([CallUploadToS3 k z, Log (UploadAttemptFailed 1 z), Sleep 1,
          CallUploadToS3 k z, Log (UploadAttemptFailed 2 z), Sleep 2,
          CallUploadToS3 k z, Log (UploadAttemptFailed 3 z), Sleep 3], Some e3)"
      by (rule upload_loop_exhausted)
    show "upload_loop w k z 1 None =
        ([CallUploadToS3 k z, Log (UploadAttemptFailed 1 z), Sleep 1,
          CallUploadToS3 k z, Log (UploadAttemptFailed 2 z), Sleep 2,
          CallUploadToS3 k z, Log (UploadAttemptFailed 3 z), Sleep 3], Some e3) \<and>
      sleeps (fst (upload_loop w k z 1 None)) = [1, 2, 3]"
      unfolding u by (simp only: fst_conv sleeps_exhausted simp_thms)
  qed
  have ok: "ZipFiles w (zip_name w ym) paths = None \<and> snd (upload_result cfg w ym) = None \<longrightarrow>
      failedUploads (state_of (worker cfg w ym paths st)) = failedUploads st \<and>
      failedZips (state_of (worker cfg w ym paths st)) = failedZips st \<and>
      (CompletedMonths (uploadState st) \<noteq> None \<longrightarrow>
         \<not> panicked (worker cfg w ym paths st) \<and>
         month_entry (uploadState (state_of (worker cfg w ym paths st))) ym =
           Some (zip_name w ym)) \<and>
      (CompletedMonths (uploadState st) = None \<longrightarrow>
         panicked (worker cfg w ym paths st) \<and>
         month_entry (uploadState (state_of (worker cfg w ym paths st))) ym = None)"
  proof (intro impI, elim conjE)
    assume a: "ZipFiles w (zip_name w ym) paths = None" "snd (upload_result cfg w ym) = None"
    show "failedUploads (state_of (worker cfg w ym paths st)) = failedUploads st \<and>
      failedZips (state_of (worker cfg w ym paths st)) = failedZips st \<and>
      (CompletedMonths (uploadState st) \<noteq> None \<longrightarrow>
         \<not> panicked (worker cfg w ym paths st) \<and>
         month_entry (uploadState (state_of (worker cfg w ym paths st))) ym =
           Some (zip_name w ym)) \<and>
      (CompletedMonths (uploadState st) = None \<longrightarrow>
         panicked (worker cfg w ym paths st) \<and>
         month_entry (uploadState (state_of (worker cfg w ym paths st))) ym = None)"
      by (cases "CompletedMonths (uploadState st)")
        (simp_all add: worker_nil_map [OF a] worker_completed [OF a] month_entry_def)
  qed
  have failed: "ZipFiles w (zip_name w ym) paths = None \<and> snd (upload_result cfg w ym) = Some e \<longrightarrow>
      \<not> panicked (worker cfg w ym paths st) \<and>
      failedUploads (state_of (worker cfg w ym paths st)) = failedUploads st + 1 \<and>
      failedZips (state_of (worker cfg w ym paths st)) = failedZips st \<and>
      uploadState (state_of (worker cfg w ym paths st)) = uploadState st \<and>
      saved (state_of (worker cfg w ym paths st)) = saved st \<and>
      Remove (zip_name w ym) \<notin> set (worker_events cfg w ym paths st) \<and>
      (create_err w (zip_name w ym) = None \<longrightarrow>
         zip_name w ym \<in> archives (state_of (worker cfg w ym paths st)))"
    by (simp add: worker_upload_failed worker_events_upload_failed progress_no_remove
        upload_no_remove)
  from bound first second third exhausted ok failed show ?thesis by (intro conjI)
qed

lemma flaky_facts:
  "upload_err flaky_world (s3_key_of demo_cfg flaky_world ''2024-03'') 1 = Some (Err ''timeout'')"
  "upload_err flaky_world (s3_key_of demo_cfg flaky_world ''2024-03'') 2 = Some (Err ''timeout'')"
  "upload_err flaky_world (s3_key_of demo_cfg flaky_world ''2024-03'') 3 = None"
  "ZipFiles flaky_world (zip_name flaky_world ''2024-03'') [''/p/a/1.JPG'', ''/p/a/2.jpg''] = None"
  "snd (upload_result demo_cfg flaky_world ''2024-03'') = None"
  by code_simp+

lemma hiccup_facts:
  "upload_err hiccup_world (s3_key_of demo_cfg hiccup_world ''2024-03'') 1 = Some (Err ''timeout'')"
  "upload_err hiccup_world (s3_key_of demo_cfg hiccup_world ''2024-03'') 2 = None"
  by code_simp+

theorem upload_retry_behaviour_witness:
  "upload_err demo_world (s3_key_of demo_cfg demo_world ''2024-03'') 1 = None \<and>
   sleeps (fst (upload_loop demo_world (s3_key_of demo_cfg demo_world ''2024-03'')
                  (zip_name demo_world ''2024-03'') 1 None)) = [] \<and>
   upload_err hiccup_world (s3_key_of demo_cfg hiccup_world ''2024-03'') 1 = Some (Err ''timeout'') \<and>
   upload_err hiccup_world (s3_key_of demo_cfg hiccup_world ''2024-03'') 2 = None \<and>
   sleeps (fst (upload_loop hiccup_world (s3_key_of demo_cfg hiccup_world ''2024-03'')
                  (zip_name hiccup_world ''2024-03'') 1 None)) = [1] \<and>
   upload_err flaky_world (s3_key_of demo_cfg flaky_world ''2024-03'') 1 = Some (Err ''timeout'') \<and>
   upload_err flaky_world (s3_key_of demo_cfg flaky_world ''2024-03'') 2 = Some (Err ''timeout'') \<and>
   upload_err flaky_world (s3_key_of demo_cfg flaky_world ''2024-03'') 3 = None \<and>
   sleeps (fst (upload_loop flaky_world (s3_key_of demo_cfg flaky_world ''2024-03'')
                  (zip_name flaky_world ''2024-03'') 1 None)) = [1, 2] \<and>
   ZipFiles flaky_world (zip_name flaky_world ''2024-03'') [''/p/a/1.JPG'', ''/p/a/2.jpg''] = None \<and>
   snd (upload_result demo_cfg flaky_world ''2024-03'') = None \<and>
   failedUploads (state_of (worker demo_cfg flaky_world ''2024-03''
       [''/p/a/1.JPG'', ''/p/a/2.jpg''] run0)) = failedUploads run0 \<and>
   CompletedMonths (uploadState run0) \<noteq> None \<and>
   \<not> panicked (worker demo_cfg flaky_world ''2024-03'' [''/p/a/1.JPG'', ''/p/a/2.jpg''] run0) \<and>
   month_entry (uploadState (state_of (worker demo_cfg flaky_world ''2024-03''
       [''/p/a/1.JPG'', ''/p/a/2.jpg''] run0))) ''2024-03'' = Some (zip_name flaky_world ''2024-03'') \<and>
   CompletedMonths (uploadState (run0\<lparr>uploadState := nil_months\<rparr>)) = None \<and>
   panicked (worker demo_cfg flaky_world ''2024-03'' [''/p/a/1.JPG'', ''/p/a/2.jpg'']
       (run0\<lparr>uploadState := nil_months\<rparr>)) \<and>
   upload_err offline_world (s3_key_of demo_cfg offline_world ''2024-03'') 1 = Some (Err ''timeout'') \<and>
   upload_err offline_world (s3_key_of demo_cfg offline_world ''2024-03'') 2 = Some (Err ''timeout'') \<and>
   upload_err offline_world (s3_key_of demo_cfg offline_world ''2024-03'') 3 = Some (Err ''timeout'') \<and>
   sleeps (fst (upload_loop offline_world (s3_key_of demo_cfg offline_world ''2024-03'')
                  (zip_name offline_world ''2024-03'') 1 None)) = [1, 2, 3] \<and>
   ZipFiles offline_world (zip_name offline_world ''2024-03'') [''/p/a/1.JPG'', ''/p/a/2.jpg''] = None \<and>
   snd (upload_result demo_cfg offline_world ''2024-03'') = Some (Err ''timeout'') \<and>
   failedUploads (state_of (worker demo_cfg offline_world ''2024-03''
       [''/p/a/1.JPG'', ''/p/a/2.jpg''] run0)) = failedUploads run0 + 1 \<and>
   uploadState (state_of (worker demo_cfg offline_world ''2024-03''
       [''/p/a/1.JPG'', ''/p/a/2.jpg''] run0)) = uploadState run0 \<and>
   create_err offline_world (zip_name offline_world ''2024-03'') = None \<and>
   zip_name offline_world ''2024-03'' \<in>
     archives (state_of (worker demo_cfg offline_world ''2024-03''
       [''/p/a/1.JPG'', ''/p/a/2.jpg''] run0))"
proof -
  note o = upload_retry_behaviour [where w = demo_world and cfg = demo_cfg and ym = "''2024-03''"
      and k = "s3_key_of demo_cfg demo_world ''2024-03''" and z = "zip_name demo_world ''2024-03''"
      and paths = "[''/p/a/1.JPG'', ''/p/a/2.jpg'']" and st = run0]
  note h = upload_retry_behaviour [where w = hiccup_world and cfg = demo_cfg and ym = "''2024-03''"
      and k = "s3_key_of demo_cfg hiccup_world ''2024-03''"
      and z = "zip_name hiccup_world ''2024-03''" and ?e1.0 = "Err ''timeout''"
      and paths = "[''/p/a/1.JPG'', ''/p/a/2.jpg'']" and st = run0]
  note f = upload_retry_behaviour [where w = flaky_world and cfg = demo_cfg and ym = "''2024-03''"
      and k = "s3_key_of demo_cfg flaky_world ''2024-03''" and z = "zip_name flaky_world ''2024-03''"
      and ?e1.0 = "Err ''timeout''" and ?e2.0 = "Err ''timeout''"
      and paths = "[''/p/a/1.JPG'', ''/p/a/2.jpg'']" and st = run0]
  note x = upload_retry_behaviour [where w = offline_world and cfg = demo_cfg and ym = "''2024-03''"
      and k = "s3_key_of demo_cfg offline_world ''2024-03''"
      and z = "zip_name offline_world ''2024-03''"
      and ?e1.0 = "Err ''timeout''" and ?e2.0 = "Err ''timeout''" and ?e3.0 = "Err ''timeout''"
      and e = "Err ''timeout''" and paths = "[''/p/a/1.JPG'', ''/p/a/2.jpg'']" and st = run0]
  have s0: "sleeps (fst (upload_loop demo_world (s3_key_of demo_cfg demo_world ''2024-03'')
                  (zip_name demo_world ''2024-03'') 1 None)) = []"
    using o demo_facts(5) by blast
  have s1: "sleeps (fst (upload_loop hiccup_world (s3_key_of demo_cfg hiccup_world ''2024-03'')
                  (zip_name hiccup_world ''2024-03'') 1 None)) = [1]"
    using h hiccup_facts by blast
  have a: "sleeps (fst (upload_loop flaky_world (s3_key_of demo_cfg flaky_world ''2024-03'')
                  (zip_name flaky_world ''2024-03'') 1 None)) = [1, 2]"
    using f flaky_facts(1,2,3) by blast
  have b: "failedUploads (state_of (worker demo_cfg flaky_world ''2024-03''
       [''/p/a/1.JPG'', ''/p/a/2.jpg''] run0)) = failedUploads run0"
    using f flaky_facts(4,5) by blast
  have b2: "\<not> panicked (worker demo_cfg flaky_world ''2024-03'' [''/p/a/1.JPG'', ''/p/a/2.jpg''] run0)"
    "month_entry (uploadState (state_of (worker demo_cfg flaky_world ''2024-03''
       [''/p/a/1.JPG'', ''/p/a/2.jpg''] run0))) ''2024-03'' = Some (zip_name flaky_world ''2024-03'')"
    using f flaky_facts(4,5) run0_map by blast+
  note fn = upload_retry_behaviour [where w = flaky_world and cfg = demo_cfg and ym = "''2024-03''"
      and paths = "[''/p/a/1.JPG'', ''/p/a/2.jpg'']" and st = "run0\<lparr>uploadState := nil_months\<rparr>"]
  have b3: "panicked (worker demo_cfg flaky_world ''2024-03'' [''/p/a/1.JPG'', ''/p/a/2.jpg'']
       (run0\<lparr>uploadState := nil_months\<rparr>))"
    using fn flaky_facts(4,5) nil_run_map by blast
  have c: "sleeps (fst (upload_loop offline_world (s3_key_of demo_cfg offline_world ''2024-03'')
                  (zip_name offline_world ''2024-03'') 1 None)) = [1, 2, 3]"
    using x offline_facts(3,4,5) by blast
  have d: "failedUploads (state_of (worker demo_cfg offline_world ''2024-03''
       [''/p/a/1.JPG'', ''/p/a/2.jpg''] run0)) = failedUploads run0 + 1"
    "uploadState (state_of (worker demo_cfg offline_world ''2024-03''
       [''/p/a/1.JPG'', ''/p/a/2.jpg''] run0)) = uploadState run0"
    "zip_name offline_world ''2024-03'' \<in>
     archives (state_of (worker demo_cfg offline_world ''2024-03''
       [''/p/a/1.JPG'', ''/p/a/2.jpg''] run0))"
    using x offline_facts(1,2,6) by blast+
  from demo_facts(5) s0 hiccup_facts s1 flaky_facts(1,2,3) a flaky_facts(4,5) b run0_map b2
    nil_run_map b3 offline_facts(3,4,5) c offline_facts(1,2) d(1,2) offline_facts(6) d(3)
  show ?thesis by (intro conjI)
qed

text \<open>
  The wait after the final attempt: when every upload of the archive of March 2024
  fails, the loop sleeps three times, the third time for 3 seconds after the third and
  last call.
\<close>

theorem final_attempt_wait_counterexample:
  "upload_err offline_world (s3_key_of demo_cfg offline_world ''2024-03'') 3 = Some (Err ''timeout'') \<and>
   length (filter is_upload (fst (upload_result demo_cfg offline_world ''2024-03''))) = 3 \<and>
   sleeps (fst (upload_result demo_cfg offline_world ''2024-03'')) = [1, 2, 3] \<and>
   last (fst (upload_result demo_cfg offline_world ''2024-03'')) = Sleep 3"
  by code_simp

subsection \<open>The next run after a failure\<close>

lemma fold_nothing_newer:
  "\<forall>e\<in>set w. \<not> newer fs since exts e \<Longrightarrow> files (foldl (visit fs since exts) s w) = files s"
  by (induction w arbitrary: s) (simp_all add: visit_files)

lemma nothing_newer:
  "\<forall>e\<in>set (walk_dir fs root). \<not> newer fs since exts e \<Longrightarrow>
     fst (FindNewPhotos fs root since exts) = []"
  by (simp add: FindNewPhotos_files scan_tree_def scan_walk_def fold_nothing_newer scan0_simps)

lemma main_returns:
  assumes "new_photos cfg w \<noteq> []" "1 \<le> MaxConcurrentUploads cfg"
    and "\<not> panicked (main_loop cfg w (GroupPhotosByYearMonth (fsys w) (new_photos cfg w))
                 (run0\<lparr>uploadState := loaded_state w, trace := upload_metadata w\<rparr>))"
  shows "main cfg w =
    Finished (state_of (main_loop cfg w (GroupPhotosByYearMonth (fsys w) (new_photos cfg w))
                 (run0\<lparr>uploadState := loaded_state w, trace := upload_metadata w\<rparr>)))
      (UpdateLastUploadTime (stamp_write_err w) (finish_clock w) (last_upload_file w))"
proof -
  from assms(3) obtain s where s: "main_loop cfg w (GroupPhotosByYearMonth (fsys w) (new_photos cfg w))
                 (run0\<lparr>uploadState := loaded_state w, trace := upload_metadata w\<rparr>) = Returned s"
    by (cases "main_loop cfg w (GroupPhotosByYearMonth (fsys w) (new_photos cfg w))
                 (run0\<lparr>uploadState := loaded_state w, trace := upload_metadata w\<rparr>)") auto
  show ?thesis using assms(1,2) by (simp add: main_unfold s)
qed

text \<open>
  Claim C3 (failed groups and the next run), as the program behaves. A worker whose
  archive build or upload fails returns, writes no ledger entry and counts one failure.
  A run that found new photos, has a semaphore slot, can write the last-upload file and
  started with an upload state whose map is not nil returns and sets that file to the
  time the run ends, whether or not groups failed; when every group fails, it does so
  whatever the upload state it started with, and ends with that upload state. A run that
  finds no entry newer than its watermark returns at once: it builds and uploads nothing.
\<close>

theorem failed_groups_not_retried:
  "(ZipFiles w (zip_name w ym) paths = Some e \<longrightarrow>
      \<not> panicked (worker cfg w ym paths st) \<and>
      uploadState (state_of (worker cfg w ym paths st)) = uploadState st \<and>
      saved (state_of (worker cfg w ym paths st)) = saved st \<and>
      failedZips (state_of (worker cfg w ym paths st)) = failedZips st + 1) \<and>
   (ZipFiles w (zip_name w ym) paths = None \<and> snd (upload_result cfg w ym) = Some e \<longrightarrow>
      \<not> panicked (worker cfg w ym paths st) \<and>
      uploadState (state_of (worker cfg w ym paths st)) = uploadState st \<and>
      saved (state_of (worker cfg w ym paths st)) = saved st \<and>
      failedUploads (state_of (worker cfg w ym paths st)) = failedUploads st + 1) \<and>
   (new_photos cfg w \<noteq> [] \<and> stamp_write_err w = None \<and> 1 \<le> MaxConcurrentUploads cfg \<and>
    CompletedMonths (loaded_state w) \<noteq> None \<longrightarrow>
      main cfg w =
        Finished (final (main cfg w)) (Stamp (whole_seconds (finish_clock w) * one_second))) \<and>
   (new_photos cfg w \<noteq> [] \<and> stamp_write_err w = None \<and> 1 \<le> MaxConcurrentUploads cfg \<and>
    (\<forall>g\<in>set (GroupPhotosByYearMonth (fsys w) (new_photos cfg w)).
        ZipFiles w (zip_name w (fst g)) (snd g) \<noteq> None \<or>
        snd (upload_result cfg w (fst g)) \<noteq> None) \<longrightarrow>
      main cfg w =
        Finished (final (main cfg w)) (Stamp (whole_seconds (finish_clock w) * one_second)) \<and>
      uploadState (final (main cfg w)) = loaded_state w) \<and>
   ((\<forall>x\<in>set (walk_dir (fsys w') (PhotosLibrary cfg)).
        \<not> newer (fsys w') (GetLastUploadTime (last_upload_file w')) (AllowedExtensions cfg) x) \<longrightarrow>
      new_photos cfg w' = [] \<and> main cfg w' = Finished run0 (last_upload_file w') \<and>
      filter is_build (trace (final (main cfg w'))) = [] \<and>
      filter is_upload (trace (final (main cfg w'))) = [])"
proof -
  have zf: "ZipFiles w (zip_name w ym) paths = Some e \<longrightarrow>
      \<not> panicked (worker cfg w ym paths st) \<and>
      uploadState (state_of (worker cfg w ym paths st)) = uploadState st \<and>
      saved (state_of (worker cfg w ym paths st)) = saved st \<and>
      failedZips (state_of (worker cfg w ym paths st)) = failedZips st + 1"
    by (simp add: worker_zip_failed)
  have uf: "ZipFiles w (zip_name w ym) paths = None \<and> snd (upload_result cfg w ym) = Some e \<longrightarrow>
      \<not> panicked (worker cfg w ym paths st) \<and>
      uploadState (state_of (worker cfg w ym paths st)) = uploadState st \<and>
      saved (state_of (worker cfg w ym paths st)) = saved st \<and>
      failedUploads (state_of (worker cfg w ym paths st)) = failedUploads st + 1"
    by (simp add: worker_upload_failed)
  have adv: "new_photos cfg w \<noteq> [] \<and> stamp_write_err w = None \<and> 1 \<le> MaxConcurrentUploads cfg \<and>
    CompletedMonths (loaded_state w) \<noteq> None \<longrightarrow>
      main cfg w =
        Finished (final (main cfg w)) (Stamp (whole_seconds (finish_clock w) * one_second))"
  proof (intro impI, elim conjE)
    assume a: "new_photos cfg w \<noteq> []" "stamp_write_err w = None" "1 \<le> MaxConcurrentUploads cfg"
      "CompletedMonths (loaded_state w) \<noteq> None"
    have "\<not> panicked (main_loop cfg w (GroupPhotosByYearMonth (fsys w) (new_photos cfg w))
                 (run0\<lparr>uploadState := loaded_state w, trace := upload_metadata w\<rparr>))"
      by (rule main_loop_returns) (simp add: a(4))
    from main_returns [OF a(1,3) this]
    show "main cfg w =
        Finished (final (main cfg w)) (Stamp (whole_seconds (finish_clock w) * one_second))"
      by (simp add: UpdateLastUploadTime_def a(2))
  qed
  have fail: "new_photos cfg w \<noteq> [] \<and> stamp_write_err w = None \<and> 1 \<le> MaxConcurrentUploads cfg \<and>
    (\<forall>g\<in>set (GroupPhotosByYearMonth (fsys w) (new_photos cfg w)).
        ZipFiles w (zip_name w (fst g)) (snd g) \<noteq> None \<or>
        snd (upload_result cfg w (fst g)) \<noteq> None) \<longrightarrow>
      main cfg w =
        Finished (final (main cfg w)) (Stamp (whole_seconds (finish_clock w) * one_second)) \<and>
      uploadState (final (main cfg w)) = loaded_state w"
  proof (intro impI, elim conjE)
    assume a: "new_photos cfg w \<noteq> []" "stamp_write_err w = None" "1 \<le> MaxConcurrentUploads cfg"
      "\<forall>g\<in>set (GroupPhotosByYearMonth (fsys w) (new_photos cfg w)).
        ZipFiles w (zip_name w (fst g)) (snd g) \<noteq> None \<or>
        snd (upload_result cfg w (fst g)) \<noteq> None"
    note l = main_loop_all_fail [OF a(4),
        of "run0\<lparr>uploadState := loaded_state w, trace := upload_metadata w\<rparr>"]
    from l have np: "\<not> panicked (main_loop cfg w (GroupPhotosByYearMonth (fsys w) (new_photos cfg w))
                 (run0\<lparr>uploadState := loaded_state w, trace := upload_metadata w\<rparr>))"
      by blast
    from l have us: "uploadState (state_of (main_loop cfg w
                 (GroupPhotosByYearMonth (fsys w) (new_photos cfg w))
                 (run0\<lparr>uploadState := loaded_state w, trace := upload_metadata w\<rparr>))) =
        loaded_state w"
      by simp
    from main_returns [OF a(1,3) np] us
    show "main cfg w =
        Finished (final (main cfg w)) (Stamp (whole_seconds (finish_clock w) * one_second)) \<and>
      uploadState (final (main cfg w)) = loaded_state w"
      by (simp add: UpdateLastUploadTime_def a(2))
  qed
  have nxt: "(\<forall>x\<in>set (walk_dir (fsys w') (PhotosLibrary cfg)).
        \<not> newer (fsys w') (GetLastUploadTime (last_upload_file w')) (AllowedExtensions cfg) x) \<longrightarrow>
      new_photos cfg w' = [] \<and> main cfg w' = Finished run0 (last_upload_file w') \<and>
      filter is_build (trace (final (main cfg w'))) = [] \<and>
      filter is_upload (trace (final (main cfg w'))) = []"
  proof
    assume "\<forall>x\<in>set (walk_dir (fsys w') (PhotosLibrary cfg)).
        \<not> newer (fsys w') (GetLastUploadTime (last_upload_file w')) (AllowedExtensions cfg) x"
    then have n: "new_photos cfg w' = []"
      unfolding new_photos_def by (rule nothing_newer)
    then have m: "main cfg w' = Finished run0 (last_upload_file w')" by (simp add: main_unfold)
    have "trace run0 = []" by (simp add: run0_def)
    with n m show "new_photos cfg w' = [] \<and> main cfg w' = Finished run0 (last_upload_file w') \<and>
      filter is_build (trace (final (main cfg w'))) = [] \<and>
      filter is_upload (trace (final (main cfg w'))) = []"
      by simp
  qed
  from zf uf adv fail nxt show ?thesis by (intro conjI)
qed

lemma offline_run:
  "new_photos demo_cfg offline_world \<noteq> []"
  "stamp_write_err offline_world = None"
  "1 \<le> MaxConcurrentUploads demo_cfg"
  "failedUploads (final (main demo_cfg offline_world)) = 2"
  "month_entry (uploadState (final (main demo_cfg offline_world))) ''2024-03'' = None"
  "month_entry (uploadState (final (main demo_cfg offline_world))) ''2024-04'' = None"
  "whole_seconds (finish_clock offline_world) * one_second = 63850118460000000000"
  "list_all (\<lambda>g. ZipFiles offline_world (zip_name offline_world (fst g)) (snd g) \<noteq> None \<or>
                  snd (upload_result demo_cfg offline_world (fst g)) \<noteq> None)
     (GroupPhotosByYearMonth (fsys offline_world) (new_photos demo_cfg offline_world))"
  by code_simp+

lemma offline_loaded: "CompletedMonths (loaded_state offline_world) \<noteq> None"
  by (simp add: loaded_state_def LoadUploadState_def offline_world_def demo_world_def)

lemma next_run:
  "fsys next_world = fsys offline_world"
  "last_upload_file next_world = stamp_left offline_world (main demo_cfg offline_world)"
  by (simp_all add: next_world_def offline_world_def)

lemma next_run_nothing:
  "filter (newer (fsys next_world) (GetLastUploadTime (last_upload_file next_world))
             (AllowedExtensions demo_cfg))
     (walk_dir (fsys next_world) (PhotosLibrary demo_cfg)) = []"
  by code_simp

theorem failed_groups_not_retried_witness:
  "ZipFiles offline_world (zip_name offline_world ''2024-03'') [''/p/a/1.JPG'', ''/p/a/2.jpg''] = None \<and>
   snd (upload_result demo_cfg offline_world ''2024-03'') = Some (Err ''timeout'') \<and>
   uploadState (state_of (worker demo_cfg offline_world ''2024-03''
       [''/p/a/1.JPG'', ''/p/a/2.jpg''] run0)) = uploadState run0 \<and>
   new_photos demo_cfg offline_world \<noteq> [] \<and> stamp_write_err offline_world = None \<and>
   1 \<le> MaxConcurrentUploads demo_cfg \<and>
   CompletedMonths (loaded_state offline_world) \<noteq> None \<and>
   list_all (\<lambda>g. ZipFiles offline_world (zip_name offline_world (fst g)) (snd g) \<noteq> None \<or>
                  snd (upload_result demo_cfg offline_world (fst g)) \<noteq> None)
     (GroupPhotosByYearMonth (fsys offline_world) (new_photos demo_cfg offline_world)) \<and>
   uploadState (final (main demo_cfg offline_world)) = loaded_state offline_world \<and>
   failedUploads (final (main demo_cfg offline_world)) = 2 \<and>
   month_entry (uploadState (final (main demo_cfg offline_world))) ''2024-03'' = None \<and>
   month_entry (uploadState (final (main demo_cfg offline_world))) ''2024-04'' = None \<and>
   stamp_left offline_world (main demo_cfg offline_world) = Stamp 63850118460000000000 \<and>
   fsys next_world = fsys offline_world \<and>
   last_upload_file next_world = stamp_left offline_world (main demo_cfg offline_world) \<and>
   filter (newer (fsys next_world) (GetLastUploadTime (last_upload_file next_world))
             (AllowedExtensions demo_cfg))
     (walk_dir (fsys next_world) (PhotosLibrary demo_cfg)) = [] \<and>
   new_photos demo_cfg next_world = [] \<and>
   filter is_build (trace (final (main demo_cfg next_world))) = [] \<and>
   filter is_upload (trace (final (main demo_cfg next_world))) = []"
proof -
  note t = failed_groups_not_retried [where w = offline_world and cfg = demo_cfg
      and ym = "''2024-03''" and paths = "[''/p/a/1.JPG'', ''/p/a/2.jpg'']" and st = run0
      and e = "Err ''timeout''" and w' = next_world]
  have a: "uploadState (state_of (worker demo_cfg offline_world ''2024-03''
       [''/p/a/1.JPG'', ''/p/a/2.jpg''] run0)) = uploadState run0"
    using t offline_facts(1,2) by blast
  have "main demo_cfg offline_world =
      Finished (final (main demo_cfg offline_world))
        (Stamp (whole_seconds (finish_clock offline_world) * one_second))"
    using t offline_run(1,2,3) offline_loaded by blast
  then have "stamp_left offline_world (main demo_cfg offline_world) =
      Stamp (whole_seconds (finish_clock offline_world) * one_second)"
    by (metis stamp_left.simps(1))
  then have b: "stamp_left offline_world (main demo_cfg offline_world) = Stamp 63850118460000000000"
    by (simp only: offline_run(7))
  have allf: "\<forall>g\<in>set (GroupPhotosByYearMonth (fsys offline_world) (new_photos demo_cfg offline_world)).
        ZipFiles offline_world (zip_name offline_world (fst g)) (snd g) \<noteq> None \<or>
        snd (upload_result demo_cfg offline_world (fst g)) \<noteq> None"
    using offline_run(8) by (simp only: list_all_iff)
  have u: "uploadState (final (main demo_cfg offline_world)) = loaded_state offline_world"
    using t offline_run(1,2,3) allf by blast
  have none: "\<forall>x\<in>set (walk_dir (fsys next_world) (PhotosLibrary demo_cfg)).
        \<not> newer (fsys next_world) (GetLastUploadTime (last_upload_file next_world))
            (AllowedExtensions demo_cfg) x"
    using next_run_nothing by (simp only: filter_empty_conv)
  have c: "new_photos demo_cfg next_world = []"
    "filter is_build (trace (final (main demo_cfg next_world))) = []"
    "filter is_upload (trace (final (main demo_cfg next_world))) = []"
    using t none by blast+
  from offline_facts(1,2) a offline_run(1,2,3) offline_loaded offline_run(8) u
    offline_run(4,5,6) b next_run next_run_nothing c
  show ?thesis by (intro conjI)
qed

end
